theory Spec2Isabelle
  imports Complex_Main "HOL-Library.AList" "HOL-Library.Multiset"
begin

section \<open>JavaScript values\<close>

text \<open>
  Strings are lists of characters.  The case conversions act on the ASCII letters and
  the white space removed by \<open>trim\<close> (and matched by the regular expression class
  \<open>\s\<close>) is the ASCII white space: tab, line feed, vertical tab, form feed, carriage
  return and space.
\<close>

definition isSpace :: "char \<Rightarrow> bool" where
  "isSpace c = (c \<in> set [CHR 0x09, CHR 0x0A, CHR 0x0B, CHR 0x0C, CHR 0x0D, CHR '' ''])"

definition trim :: "string \<Rightarrow> string" where
  "trim s = rev (dropWhile isSpace (rev (dropWhile isSpace s)))"

definition toUpperCase_char :: "char \<Rightarrow> char" where
  "toUpperCase_char c =
     (case map_of (zip ''abcdefghijklmnopqrstuvwxyz'' ''ABCDEFGHIJKLMNOPQRSTUVWXYZ'') c of
        Some u \<Rightarrow> u | None \<Rightarrow> c)"

definition toLowerCase_char :: "char \<Rightarrow> char" where
  "toLowerCase_char c =
     (case map_of (zip ''ABCDEFGHIJKLMNOPQRSTUVWXYZ'' ''abcdefghijklmnopqrstuvwxyz'') c of
        Some l \<Rightarrow> l | None \<Rightarrow> c)"

definition toUpperCase :: "string \<Rightarrow> string" where
  "toUpperCase s = map toUpperCase_char s"

definition toLowerCase :: "string \<Rightarrow> string" where
  "toLowerCase s = map toLowerCase_char s"

definition startsWith :: "string \<Rightarrow> string \<Rightarrow> bool" where
  "startsWith s p = (take (length p) s = p)"

definition endsWith :: "string \<Rightarrow> string \<Rightarrow> bool" where
  "endsWith s p = (length p \<le> length s \<and> drop (length s - length p) s = p)"

text \<open>
  A JavaScript number is \<open>NaN\<close>, an infinity, or a finite double, which is kept as the
  rational number it denotes (comparisons of doubles are exact).
\<close>

datatype jsnum = NaN | NegInf | Fin rat | PosInf

text \<open>\<open>a >= b\<close> and \<open>a > b\<close> on numbers: both are false when an operand is \<open>NaN\<close>.\<close>

fun js_ge :: "jsnum \<Rightarrow> jsnum \<Rightarrow> bool" where
  "js_ge NaN _ = False"
| "js_ge _ NaN = False"
| "js_ge PosInf _ = True"
| "js_ge _ NegInf = True"
| "js_ge NegInf _ = False"
| "js_ge _ PosInf = False"
| "js_ge (Fin x) (Fin y) = (y \<le> x)"

fun js_gt :: "jsnum \<Rightarrow> jsnum \<Rightarrow> bool" where
  "js_gt NaN _ = False"
| "js_gt _ NaN = False"
| "js_gt NegInf _ = False"
| "js_gt _ PosInf = False"
| "js_gt PosInf _ = True"
| "js_gt _ NegInf = True"
| "js_gt (Fin x) (Fin y) = (y < x)"

text \<open>
  A \<open>Date\<close> object holds a time value: milliseconds since the epoch, or \<open>NaN\<close> for an
  invalid date (\<open>None\<close>).
\<close>

type_synonym jsdate = "int option"

text \<open>
  A cell is what \<open>getValues()\<close> yields for a spreadsheet cell (a string, a number, a
  boolean or a \<open>Date\<close>), or \<open>undefined\<close>/\<open>null\<close> where a property or an index is
  missing.
\<close>

datatype cell = CUndef | CNull | CStr string | CNum jsnum | CBool bool | CDate jsdate

text \<open>
  Other values are arrays and objects; an object is the list of its properties in
  insertion order.
\<close>

datatype jsval = Prim cell | Arr "jsval list" | Obj "(string \<times> jsval) list"

text \<open>
  The built-ins of the JavaScript runtime that the model does not define are taken from
  the host: the rendering of a number or a date as a string, \<open>parseFloat\<close> on a
  string, \<open>new Date(string)\<close> with the local calendar fields of a time value, and
  \<open>JSON.parse\<close> (\<open>None\<close> when it throws).
\<close>

record js_host =
  Number_toString :: "jsnum \<Rightarrow> string"
  Date_toString :: "jsdate \<Rightarrow> string"
  Date_toJSON :: "jsdate \<Rightarrow> cell"
  parseFloat :: "string \<Rightarrow> jsnum"
  Date_parse :: "string \<Rightarrow> jsdate"
  Date_getMonth :: "int \<Rightarrow> nat"
  Date_getFullYear :: "int \<Rightarrow> int"
  JSON_parse :: "string \<Rightarrow> jsval option"

text \<open>\<open>String(x)\<close> for a cell.\<close>

fun String_cell :: "'a js_host_scheme \<Rightarrow> cell \<Rightarrow> string" where
  "String_cell h CUndef = ''undefined''"
| "String_cell h CNull = ''null''"
| "String_cell h (CStr s) = s"
| "String_cell h (CNum n) = Number_toString h n"
| "String_cell h (CBool b) = (if b then ''true'' else ''false'')"
| "String_cell h (CDate d) = Date_toString h d"

text \<open>Truthiness of a cell (a \<open>Date\<close> is an object, hence truthy).\<close>

fun truthy :: "cell \<Rightarrow> bool" where
  "truthy CUndef = False"
| "truthy CNull = False"
| "truthy (CStr s) = (s \<noteq> [])"
| "truthy (CNum n) = (n \<noteq> NaN \<and> n \<noteq> Fin 0)"
| "truthy (CBool b) = b"
| "truthy (CDate d) = True"

text \<open>
  \<open>parseFloat(x)\<close> for a cell is \<open>parseFloat(String(x))\<close>.  A number renders as a
  string that parses back to the same number; \<open>undefined\<close>, \<open>null\<close>, a boolean and
  a date render as text that starts with a letter, which parses to \<open>NaN\<close>.
\<close>

fun parseFloat_cell :: "'a js_host_scheme \<Rightarrow> cell \<Rightarrow> jsnum" where
  "parseFloat_cell h (CStr s) = parseFloat h s"
| "parseFloat_cell h (CNum n) = n"
| "parseFloat_cell h _ = NaN"

text \<open>A property read on a row object: \<open>undefined\<close> when the property is missing.\<close>

type_synonym row = "(string \<times> cell) list"

definition rget :: "row \<Rightarrow> string \<Rightarrow> cell" where
  "rget r k = (case map_of r k of None \<Rightarrow> CUndef | Some c \<Rightarrow> c)"

section \<open>Stage 3: the text of a bullet (Main.gs, getBulletTextToUse)\<close>

definition NOT_SUITABLE :: string where
  "NOT_SUITABLE = ''original bullet not suitable for significant tailoring towards this role.''"

definition getBulletTextToUse :: "'a js_host_scheme \<Rightarrow> row \<Rightarrow> cell" where
  "getBulletTextToUse h scoredBulletEntry =
     (let bulletTextToUse = rget scoredBulletEntry ''OriginalBulletText'';
          tailoredTextFromSheet = rget scoredBulletEntry ''TailoredBulletText(Stage2)''
      in if truthy tailoredTextFromSheet \<and>
            trim (String_cell h tailoredTextFromSheet) \<noteq> [] \<and>
            \<not> startsWith (toUpperCase (String_cell h tailoredTextFromSheet)) ''TAILOR_FAIL'' \<and>
            toLowerCase (String_cell h tailoredTextFromSheet) \<noteq> NOT_SUITABLE
         then CStr (trim (String_cell h tailoredTextFromSheet))
         else bulletTextToUse)"

section \<open>Stage 3: assembly of the final resume (Main.gs, runStage3_BuildAndGenerateDocument)\<close>

text \<open>Constants.gs; the threshold is the number written \<open>0.01\<close>.\<close>

definition STAGE3_FINAL_INCLUSION_SCORE_THRESHOLD :: jsnum where
  "STAGE3_FINAL_INCLUSION_SCORE_THRESHOLD = Fin (1 / 100)"

definition STAGE3_MAX_BULLETS_PER_JOB :: nat where
  "STAGE3_MAX_BULLETS_PER_JOB = 5"

definition STAGE3_MAX_BULLETS_PER_PROJECT :: nat where
  "STAGE3_MAX_BULLETS_PER_PROJECT = 5"

definition NUM_DEDICATED_BULLET_COLUMNS :: nat where
  "NUM_DEDICATED_BULLET_COLUMNS = 3"

text \<open>
  The master resume: items are objects whose keys come from the sheet's column headers;
  a section is \<open>{title, items}\<close> or \<open>{title, subsections}\<close>, a subsection is
  \<open>{name, items}\<close> (field \<open>ss_items\<close>).  A missing array is \<open>None\<close>.
\<close>

type_synonym jsobj = "(string \<times> jsval) list"

record resume_subsection =
  name :: string
  ss_items :: "jsobj list option"

record resume_section =
  title :: string
  items :: "jsobj list option"
  subsections :: "resume_subsection list option"

record resume =
  personalInfo :: jsobj
  summary :: string
  sections :: "resume_section list"

definition oget :: "jsobj \<Rightarrow> string \<Rightarrow> jsval" where
  "oget obj k = (case map_of obj k of None \<Rightarrow> Prim CUndef | Some v \<Rightarrow> v)"

fun vtruthy :: "jsval \<Rightarrow> bool" where
  "vtruthy (Prim c) = truthy c"
| "vtruthy (Arr xs) = True"
| "vtruthy (Obj kvs) = True"

text \<open>
  \<open>a === b\<close> with a cell on the left.  Two numbers are equal when neither is
  \<open>NaN\<close>; a \<open>Date\<close>, an array and an object are equal only to themselves, and
  the two sides never hold the same object here (one comes from the scoring sheet, the
  other from the master resume or a literal).
\<close>

fun strict_eq :: "cell \<Rightarrow> cell \<Rightarrow> bool" where
  "strict_eq CUndef CUndef = True"
| "strict_eq CNull CNull = True"
| "strict_eq (CStr a) (CStr b) = (a = b)"
| "strict_eq (CNum a) (CNum b) = (a = b \<and> a \<noteq> NaN)"
| "strict_eq (CBool a) (CBool b) = (a = b)"
| "strict_eq _ _ = False"

fun strict_eq_val :: "cell \<Rightarrow> jsval \<Rightarrow> bool" where
  "strict_eq_val c (Prim d) = strict_eq c d"
| "strict_eq_val c _ = False"

text \<open>
  \<open>xs.sort(comparefn)\<close>: a stable insertion sort; \<open>pos a b\<close> says that
  \<open>comparefn(a, b)\<close> is positive, which puts \<open>b\<close> before \<open>a\<close>.
\<close>

fun js_insert :: "('a \<Rightarrow> 'a \<Rightarrow> bool) \<Rightarrow> 'a \<Rightarrow> 'a list \<Rightarrow> 'a list" where
  "js_insert pos x [] = [x]"
| "js_insert pos x (y # ys) = (if pos x y then y # js_insert pos x ys else x # y # ys)"

definition js_sort :: "('a \<Rightarrow> 'a \<Rightarrow> bool) \<Rightarrow> 'a list \<Rightarrow> 'a list" where
  "js_sort pos xs = foldr (js_insert pos) xs []"

text \<open>
  \<open>["YES", "TRUE", "1", "X"].includes(String(x).toUpperCase().trim())\<close>
\<close>

definition isSelected :: "'a js_host_scheme \<Rightarrow> cell \<Rightarrow> bool" where
  "isSelected h x = (trim (toUpperCase (String_cell h x)) \<in> set [''YES'', ''TRUE'', ''1'', ''X''])"

text \<open>The filter that the four dynamic sections apply to a row of the scoring sheet.\<close>

definition passesFilter :: "'a js_host_scheme \<Rightarrow> row \<Rightarrow> bool" where
  "passesFilter h sb =
     (js_ge (parseFloat_cell h (rget sb ''RelevanceScore'')) STAGE3_FINAL_INCLUSION_SCORE_THRESHOLD \<and>
      isSelected h (rget sb ''SelectToTailor(Manual)''))"

text \<open>
  The comparison function \<open>(a, b) => parseFloat(b.RelevanceScore) - parseFloat(a.RelevanceScore)\<close>
  is positive exactly when \<open>b\<close>'s score is greater than \<open>a\<close>'s: the difference of two
  doubles has the sign of the exact difference, and a \<open>NaN\<close> result counts as zero.
\<close>

definition scoreOf :: "'a js_host_scheme \<Rightarrow> row \<Rightarrow> jsnum" where
  "scoreOf h r = parseFloat_cell h (rget r ''RelevanceScore'')"

definition byScoreDescending :: "'a js_host_scheme \<Rightarrow> row \<Rightarrow> row \<Rightarrow> bool" where
  "byScoreDescending h a b = js_gt (scoreOf h b) (scoreOf h a)"

definition bulletsFromSheet :: "row list \<Rightarrow> string \<Rightarrow> jsval \<Rightarrow> row list" where
  "bulletsFromSheet allScoredBulletRows sectionTitle itemIdentifier =
     filter (\<lambda>r. strict_eq (rget r ''Section'') (CStr sectionTitle) \<and>
                 strict_eq_val (rget r ''ItemIdentifier'') itemIdentifier)
       allScoredBulletRows"

definition selectedScoredBullets ::
  "'a js_host_scheme \<Rightarrow> row list \<Rightarrow> string \<Rightarrow> jsval \<Rightarrow> row list" where
  "selectedScoredBullets h allScoredBulletRows sectionTitle itemIdentifier =
     js_sort (byScoreDescending h)
       (filter (passesFilter h) (bulletsFromSheet allScoredBulletRows sectionTitle itemIdentifier))"

text \<open>
  The body of the loop over the master items of one section: the item is pushed, with
  its bullets replaced, when a selected bullet remains; \<open>[]\<close> when nothing is pushed.
\<close>

definition tailoredItem ::
  "'a js_host_scheme \<Rightarrow> row list \<Rightarrow> string \<Rightarrow> jsval \<Rightarrow> nat \<Rightarrow> string \<Rightarrow> jsobj \<Rightarrow> jsobj list" where
  "tailoredItem h allScoredBulletRows sectionTitle itemIdentifier maxBullets bulletsKey masterItem =
     (let selected = selectedScoredBullets h allScoredBulletRows sectionTitle itemIdentifier
      in if length selected > 0
         then (let includedBulletsText = map (getBulletTextToUse h) (take maxBullets selected)
               in if length includedBulletsText > 0
                  then [AList.update bulletsKey (Arr (map Prim includedBulletsText)) masterItem]
                  else [])
         else [])"

definition masterItemsOf :: "resume \<Rightarrow> string \<Rightarrow> jsobj list" where
  "masterItemsOf masterResumeObject t =
     (case find (\<lambda>s. title s = t) (sections masterResumeObject) of
        None \<Rightarrow> []
      | Some s \<Rightarrow> (case items s of None \<Rightarrow> [] | Some xs \<Rightarrow> xs))"

definition tailoredExperienceSection :: "'a js_host_scheme \<Rightarrow> resume \<Rightarrow> row list \<Rightarrow> resume_section" where
  "tailoredExperienceSection h masterResumeObject allScoredBulletRows =
     \<lparr> title = ''EXPERIENCE'',
       items = Some (concat (map (\<lambda>masterJob.
                 tailoredItem h allScoredBulletRows ''EXPERIENCE'' (oget masterJob ''company'')
                   STAGE3_MAX_BULLETS_PER_JOB ''responsibilities'' masterJob)
                 (masterItemsOf masterResumeObject ''EXPERIENCE''))),
       subsections = None \<rparr>"

definition tailoredProjectItems :: "'a js_host_scheme \<Rightarrow> row list \<Rightarrow> resume_subsection \<Rightarrow> jsobj list" where
  "tailoredProjectItems h allScoredBulletRows masterSubSection =
     concat (map (\<lambda>masterProject.
        tailoredItem h allScoredBulletRows ''PROJECTS'' (oget masterProject ''projectName'')
          STAGE3_MAX_BULLETS_PER_PROJECT ''descriptionBullets'' masterProject)
        (case ss_items masterSubSection of None \<Rightarrow> [] | Some xs \<Rightarrow> xs))"

definition tailoredProjectsSection :: "'a js_host_scheme \<Rightarrow> resume \<Rightarrow> row list \<Rightarrow> resume_section" where
  "tailoredProjectsSection h masterResumeObject allScoredBulletRows =
     \<lparr> title = ''PROJECTS'',
       items = None,
       subsections = Some
         (case find (\<lambda>s. title s = ''PROJECTS'') (sections masterResumeObject) of
            None \<Rightarrow> []
          | Some masterProjectsData \<Rightarrow>
              (case subsections masterProjectsData of
                 None \<Rightarrow> []
               | Some subs \<Rightarrow>
                   concat (map (\<lambda>masterSubSection.
                     (let tailoredProjectItemsForSubSection =
                            tailoredProjectItems h allScoredBulletRows masterSubSection
                      in if length tailoredProjectItemsForSubSection > 0
                         then [\<lparr> name = (if name masterSubSection \<noteq> [] then name masterSubSection
                                          else ''General Projects''),
                                  ss_items = Some tailoredProjectItemsForSubSection \<rparr>]
                         else [])) subs))) \<rparr>"

definition vor :: "jsval \<Rightarrow> jsval \<Rightarrow> jsval" where
  "vor a b = (if vtruthy a then a else b)"

definition tailoredLeadershipSection :: "'a js_host_scheme \<Rightarrow> resume \<Rightarrow> row list \<Rightarrow> resume_section" where
  "tailoredLeadershipSection h masterResumeObject allScoredBulletRows =
     \<lparr> title = ''LEADERSHIP & UNIVERSITY INVOLVEMENT'',
       items = Some (concat (map (\<lambda>masterItem.
                 tailoredItem h allScoredBulletRows ''LEADERSHIP & UNIVERSITY INVOLVEMENT''
                   (vor (oget masterItem ''organization'') (oget masterItem ''role''))
                   STAGE3_MAX_BULLETS_PER_JOB ''responsibilities'' masterItem)
                 (masterItemsOf masterResumeObject ''LEADERSHIP & UNIVERSITY INVOLVEMENT''))),
       subsections = None \<rparr>"

text \<open>
  TECHNICAL SKILLS & CERTIFICATES.  \<open>masterItm.skill && masterItm.skill.trim() === id\<close>
  raises a \<open>TypeError\<close> when the property is truthy and not a string, and so does
  \<open>masterSub.items.find\<close> when the subsection has no \<open>items\<close> array.
\<close>

datatype error = TypeError

definition trimEquals :: "jsval \<Rightarrow> cell \<Rightarrow> error + bool" where
  "trimEquals v itemIdentifier =
     (if \<not> vtruthy v then Inr False
      else (case v of
              Prim (CStr s) \<Rightarrow> Inr (strict_eq (CStr (trim s)) itemIdentifier)
            | _ \<Rightarrow> Inl TypeError))"

fun findMasterItem :: "jsobj list \<Rightarrow> cell \<Rightarrow> error + jsobj option" where
  "findMasterItem [] itemIdentifier = Inr None"
| "findMasterItem (masterItm # rest) itemIdentifier =
     (case trimEquals (oget masterItm ''skill'') itemIdentifier of
        Inl e \<Rightarrow> Inl e
      | Inr True \<Rightarrow> Inr (Some masterItm)
      | Inr False \<Rightarrow>
          (case trimEquals (oget masterItm ''name'') itemIdentifier of
             Inl e \<Rightarrow> Inl e
           | Inr True \<Rightarrow> Inr (Some masterItm)
           | Inr False \<Rightarrow> findMasterItem rest itemIdentifier))"

text \<open>The loop over the master subsections: the category and the item found first.\<close>

fun locateInMaster :: "resume_subsection list \<Rightarrow> cell \<Rightarrow> error + (string \<times> jsobj) option" where
  "locateInMaster [] itemIdentifier = Inr None"
| "locateInMaster (masterSub # rest) itemIdentifier =
     (case ss_items masterSub of
        None \<Rightarrow> Inl TypeError
      | Some its \<Rightarrow>
          (case findMasterItem its itemIdentifier of
             Inl e \<Rightarrow> Inl e
           | Inr (Some foundItem) \<Rightarrow> Inr (Some (name masterSub, foundItem))
           | Inr None \<Rightarrow> locateInMaster rest itemIdentifier))"

definition selectedTechItemsFromSheet :: "'a js_host_scheme \<Rightarrow> row list \<Rightarrow> row list" where
  "selectedTechItemsFromSheet h allScoredBulletRows =
     filter (\<lambda>row. strict_eq (rget row ''Section'') (CStr ''TECHNICAL SKILLS & CERTIFICATES'') \<and>
                   passesFilter h row)
       allScoredBulletRows"

text \<open>
  \<open>skillsBySubCategoryMap\<close> is a \<open>Map\<close> from the category to \<open>{name, items}\<close>,
  kept here as the list of its values in insertion order.
\<close>

fun pushToCategory :: "string \<Rightarrow> jsobj \<Rightarrow> resume_subsection list \<Rightarrow> resume_subsection list" where
  "pushToCategory categoryName it [] = [\<lparr> name = categoryName, ss_items = Some [it] \<rparr>]"
| "pushToCategory categoryName it (sub # subs) =
     (if name sub = categoryName
      then sub \<lparr> ss_items := Some ((case ss_items sub of None \<Rightarrow> [] | Some xs \<Rightarrow> xs) @ [it]) \<rparr> # subs
      else sub # pushToCategory categoryName it subs)"

definition masterTechSubsections :: "resume \<Rightarrow> resume_subsection list" where
  "masterTechSubsections masterResumeObject =
     (case find (\<lambda>s. title s = ''TECHNICAL SKILLS & CERTIFICATES'') (sections masterResumeObject) of
        None \<Rightarrow> []
      | Some masterTechSkillsData \<Rightarrow>
          (case subsections masterTechSkillsData of None \<Rightarrow> [] | Some subs \<Rightarrow> subs))"

text \<open>
  The category and the structure pushed for one selected row: the master item found,
  or else a minimal skill built from the row's text under "Uncategorized".
\<close>

definition resolveTechItem :: "resume_subsection list \<Rightarrow> row \<Rightarrow> error + (string \<times> jsobj)" where
  "resolveTechItem masterSubs selectedSheetItem =
     (case locateInMaster masterSubs (rget selectedSheetItem ''ItemIdentifier'') of
        Inl e \<Rightarrow> Inl e
      | Inr (Some (categoryName, foundItem)) \<Rightarrow> Inr (categoryName, foundItem)
      | Inr None \<Rightarrow>
          Inr (''Uncategorized'',
               [(''skill'', Prim (rget selectedSheetItem ''OriginalBulletText'')),
                (''details'', Prim (CStr []))]))"

fun groupTechItems ::
  "resume_subsection list \<Rightarrow> row list \<Rightarrow> resume_subsection list \<Rightarrow> error + resume_subsection list" where
  "groupTechItems masterSubs [] skillsBySubCategory = Inr skillsBySubCategory"
| "groupTechItems masterSubs (selectedSheetItem # rest) skillsBySubCategory =
     (case resolveTechItem masterSubs selectedSheetItem of
        Inl e \<Rightarrow> Inl e
      | Inr (categoryName, originalMasterItemStructure) \<Rightarrow>
          groupTechItems masterSubs rest
            (pushToCategory categoryName originalMasterItemStructure skillsBySubCategory))"

definition hasItems :: "resume_subsection \<Rightarrow> bool" where
  "hasItems ss = (case ss_items ss of None \<Rightarrow> False | Some xs \<Rightarrow> length xs > 0)"

definition tailoredTechSkillsSection ::
  "'a js_host_scheme \<Rightarrow> resume \<Rightarrow> row list \<Rightarrow> error + resume_section" where
  "tailoredTechSkillsSection h masterResumeObject allScoredBulletRows =
     (case groupTechItems (masterTechSubsections masterResumeObject)
             (selectedTechItemsFromSheet h allScoredBulletRows) [] of
        Inl e \<Rightarrow> Inl e
      | Inr subs \<Rightarrow>
          Inr \<lparr> title = ''TECHNICAL SKILLS & CERTIFICATES'', items = None,
                subsections = Some (filter hasItems subs) \<rparr>)"

text \<open>
  The sections pushed by the dynamic assembly, in the order of the pushes: a section is
  pushed only when it holds an item.
\<close>

definition sectionHasContent :: "resume_section \<Rightarrow> bool" where
  "sectionHasContent s =
     (case items s of
        Some xs \<Rightarrow> length xs > 0
      | None \<Rightarrow> (case subsections s of None \<Rightarrow> False | Some subs \<Rightarrow> list_ex hasItems subs))"

definition dynamicSections ::
  "'a js_host_scheme \<Rightarrow> resume \<Rightarrow> row list \<Rightarrow> error + resume_section list" where
  "dynamicSections h masterResumeObject allScoredBulletRows =
     (case tailoredTechSkillsSection h masterResumeObject allScoredBulletRows of
        Inl e \<Rightarrow> Inl e
      | Inr tailoredTechSkills \<Rightarrow>
          Inr (filter sectionHasContent
                 [tailoredExperienceSection h masterResumeObject allScoredBulletRows,
                  tailoredProjectsSection h masterResumeObject allScoredBulletRows,
                  tailoredLeadershipSection h masterResumeObject allScoredBulletRows,
                  tailoredTechSkills]))"

text \<open>
  \<open>JSON.parse(JSON.stringify(x))\<close>: a property whose value is \<open>undefined\<close> is
  dropped, \<open>undefined\<close> in an array and a number that is not finite become
  \<open>null\<close>, and a date becomes what its \<open>toJSON\<close> gives.
\<close>

fun json_copy_cell :: "'a js_host_scheme \<Rightarrow> cell \<Rightarrow> cell" where
  "json_copy_cell h (CNum n) = (case n of Fin r \<Rightarrow> CNum (Fin r) | _ \<Rightarrow> CNull)"
| "json_copy_cell h (CDate d) = Date_toJSON h d"
| "json_copy_cell h c = c"

fun json_copy :: "'a js_host_scheme \<Rightarrow> jsval \<Rightarrow> jsval" where
  "json_copy h (Prim c) = Prim (json_copy_cell h c)"
| "json_copy h (Arr xs) =
     Arr (map (\<lambda>v. if v = Prim CUndef then Prim CNull else v) (map (json_copy h) xs))"
| "json_copy h (Obj kvs) =
     Obj (filter (\<lambda>kv. snd kv \<noteq> Prim CUndef) (map (map_prod id (json_copy h)) kvs))"

definition json_copy_obj :: "'a js_host_scheme \<Rightarrow> jsobj \<Rightarrow> jsobj" where
  "json_copy_obj h kvs = filter (\<lambda>kv. snd kv \<noteq> Prim CUndef) (map (map_prod id (json_copy h)) kvs)"

definition json_copy_subsection :: "'a js_host_scheme \<Rightarrow> resume_subsection \<Rightarrow> resume_subsection" where
  "json_copy_subsection h ss = ss \<lparr> ss_items := map_option (map (json_copy_obj h)) (ss_items ss) \<rparr>"

definition json_copy_section :: "'a js_host_scheme \<Rightarrow> resume_section \<Rightarrow> resume_section" where
  "json_copy_section h s =
     s \<lparr> items := map_option (map (json_copy_obj h)) (items s),
         subsections := map_option (map (json_copy_subsection h)) (subsections s) \<rparr>"

text \<open>The static sections and the final order.\<close>

definition desiredFinalSectionOrder :: "string list" where
  "desiredFinalSectionOrder =
     [''EDUCATION'', ''EXPERIENCE'', ''PROJECTS'', ''TECHNICAL SKILLS & CERTIFICATES'',
      ''LEADERSHIP & UNIVERSITY INVOLVEMENT'', ''HONORS & AWARDS'']"

definition noItemsInSubsections :: "resume_subsection list \<Rightarrow> bool" where
  "noItemsInSubsections subs = list_all (\<lambda>ss. \<not> hasItems ss) subs"

definition isStaticSectionEffectivelyEmpty :: "resume_section \<Rightarrow> bool" where
  "isStaticSectionEffectivelyEmpty staticSectionData =
     (if items staticSectionData = Some [] \<and>
         (case subsections staticSectionData of
            None \<Rightarrow> True
          | Some subs \<Rightarrow> length subs = 0 \<or> noItemsInSubsections subs)
      then True
      else if (items staticSectionData = None \<or> items staticSectionData = Some []) \<and>
              (case subsections staticSectionData of
                 None \<Rightarrow> False
               | Some subs \<Rightarrow> noItemsInSubsections subs)
      then True
      else if items staticSectionData = None \<and> subsections staticSectionData = None
      then True
      else False)"

definition staticSections ::
  "'a js_host_scheme \<Rightarrow> resume \<Rightarrow> resume_section list \<Rightarrow> resume_section list" where
  "staticSections h masterResumeObject dynamic =
     (let processedDynamicSectionTitles = map (\<lambda>s. toUpperCase (title s)) dynamic
      in concat (map (\<lambda>sectionTitle.
           if toUpperCase sectionTitle \<notin> set processedDynamicSectionTitles
           then (case find (\<lambda>s. title s \<noteq> [] \<and> toUpperCase (title s) = toUpperCase sectionTitle)
                        (sections masterResumeObject) of
                   None \<Rightarrow> []
                 | Some staticSectionData \<Rightarrow>
                     if \<not> isStaticSectionEffectivelyEmpty staticSectionData
                     then [json_copy_section h staticSectionData]
                     else [])
           else [])
         desiredFinalSectionOrder))"

text \<open>
  \<open>indexOf\<close> in the desired order, \<open>None\<close> for \<open>-1\<close>, and whether the final
  comparison function is positive.
\<close>

fun indexOf :: "'a list \<Rightarrow> 'a \<Rightarrow> nat option" where
  "indexOf [] x = None"
| "indexOf (y # ys) x = (if y = x then Some 0 else map_option Suc (indexOf ys x))"

definition byDesiredOrder :: "resume_section \<Rightarrow> resume_section \<Rightarrow> bool" where
  "byDesiredOrder a b =
     (case (indexOf desiredFinalSectionOrder (toUpperCase (title a)),
            indexOf desiredFinalSectionOrder (toUpperCase (title b))) of
        (None, None) \<Rightarrow> False
      | (None, Some j) \<Rightarrow> True
      | (Some i, None) \<Rightarrow> False
      | (Some i, Some j) \<Rightarrow> i > j)"

text \<open>
  The sections of \<open>finalTailoredResumeObject\<close> handed to the document generator.  (The
  summary, which a language model writes, is not part of the model.)
\<close>

definition finalSections ::
  "'a js_host_scheme \<Rightarrow> resume \<Rightarrow> row list \<Rightarrow> error + resume_section list" where
  "finalSections h masterResumeObject allScoredBulletRows =
     (case dynamicSections h masterResumeObject allScoredBulletRows of
        Inl e \<Rightarrow> Inl e
      | Inr dynamic \<Rightarrow>
          Inr (js_sort byDesiredOrder (dynamic @ staticSections h masterResumeObject dynamic)))"

text \<open>Readers used to state the properties: the items of a section and an item's bullets.\<close>

definition subsectionItems :: "resume_subsection \<Rightarrow> jsobj list" where
  "subsectionItems ss = (case ss_items ss of None \<Rightarrow> [] | Some xs \<Rightarrow> xs)"

definition sectionItems :: "resume_section \<Rightarrow> jsobj list" where
  "sectionItems s =
     (case items s of None \<Rightarrow> [] | Some xs \<Rightarrow> xs) @
     concat (map subsectionItems (case subsections s of None \<Rightarrow> [] | Some subs \<Rightarrow> subs))"

definition bulletsOf :: "jsobj \<Rightarrow> string \<Rightarrow> jsval list" where
  "bulletsOf it k = (case oget it k of Arr bs \<Rightarrow> bs | _ \<Rightarrow> [])"


abbreviation tailoredText :: "'a js_host_scheme \<Rightarrow> row \<Rightarrow> string" where
  "tailoredText h e \<equiv> String_cell h (rget e ''TailoredBulletText(Stage2)'')"


text \<open>The master projects: the items of the subsections of PROJECTS.\<close>

definition masterProjectsOf :: "resume \<Rightarrow> jsobj list" where
  "masterProjectsOf M =
     (case find (\<lambda>s. title s = ''PROJECTS'') (sections M) of
        None \<Rightarrow> []
      | Some p \<Rightarrow> concat (map subsectionItems (case subsections p of None \<Rightarrow> [] | Some subs \<Rightarrow> subs)))"


text \<open>
  What the assembly uses for a master item of each of the three sections that it builds
  item by item: the master items, the natural key compared with \<open>ItemIdentifier\<close>,
  the cap and the property that holds the bullets.
\<close>

definition masterItemsFor :: "resume \<Rightarrow> string \<Rightarrow> jsobj list" where
  "masterItemsFor M t = (if t = ''PROJECTS'' then masterProjectsOf M else masterItemsOf M t)"

definition naturalKey :: "string \<Rightarrow> jsobj \<Rightarrow> jsval" where
  "naturalKey t m =
     (if t = ''EXPERIENCE'' then oget m ''company''
      else if t = ''PROJECTS'' then oget m ''projectName''
      else vor (oget m ''organization'') (oget m ''role''))"

definition maxBulletsFor :: "string \<Rightarrow> nat" where
  "maxBulletsFor t =
     (if t = ''PROJECTS'' then STAGE3_MAX_BULLETS_PER_PROJECT else STAGE3_MAX_BULLETS_PER_JOB)"

definition bulletsKeyFor :: "string \<Rightarrow> string" where
  "bulletsKeyFor t = (if t = ''PROJECTS'' then ''descriptionBullets'' else ''responsibilities'')"

text \<open>The section that the dynamic assembly builds for one of these three titles.\<close>

definition tailoredSectionFor :: "'a js_host_scheme \<Rightarrow> resume \<Rightarrow> row list \<Rightarrow> string \<Rightarrow> resume_section" where
  "tailoredSectionFor h M R t =
     (if t = ''EXPERIENCE'' then tailoredExperienceSection h M R
      else if t = ''PROJECTS'' then tailoredProjectsSection h M R
      else tailoredLeadershipSection h M R)"

text \<open>
  The master resume as the normaliser builds it: a bullet array of an item has at most
  \<open>NUM_DEDICATED_BULLET_COLUMNS\<close> elements.
\<close>

definition bulletArrayBounded :: "string \<times> jsval \<Rightarrow> bool" where
  "bulletArrayBounded kv =
     (if fst kv = ''responsibilities'' \<or> fst kv = ''descriptionBullets''
      then (case snd kv of Arr bs \<Rightarrow> length bs \<le> NUM_DEDICATED_BULLET_COLUMNS | _ \<Rightarrow> True)
      else True)"

definition masterBulletsBounded :: "resume \<Rightarrow> bool" where
  "masterBulletsBounded M =
     list_all (\<lambda>ms. list_all (\<lambda>m. list_all bulletArrayBounded m) (sectionItems ms)) (sections M)"


section \<open>TailoringLogic.gs\<close>

text \<open>Property reads and \<open>typeof\<close> tests on a value.\<close>

fun vget :: "jsval \<Rightarrow> string \<Rightarrow> jsval" where
  "vget (Obj kvs) k = oget kvs k"
| "vget v k = Prim CUndef"

fun isString :: "jsval \<Rightarrow> bool" where
  "isString (Prim (CStr s)) = True"
| "isString v = False"

fun isNumber :: "jsval \<Rightarrow> bool" where
  "isNumber (Prim (CNum n)) = True"
| "isNumber v = False"

fun isArray :: "jsval \<Rightarrow> bool" where
  "isArray (Arr xs) = True"
| "isArray v = False"

text \<open>
  The test \<open>!x || !x.trim()\<close> that guards a text: \<open>None\<close> when the test holds (the
  text is missing or blank), the text otherwise; a truthy value that is not a string has
  no \<open>trim\<close>, and the call raises a \<open>TypeError\<close>.
\<close>

definition nonBlankText :: "jsval \<Rightarrow> error + string option" where
  "nonBlankText x =
     (if \<not> vtruthy x then Inr None
      else (case x of
              Prim (CStr s) \<Rightarrow> Inr (if trim s = [] then None else Some s)
            | _ \<Rightarrow> Inl TypeError))"

text \<open>
  \<open>String(x)\<close>, which is also how a template string renders \<open>x\<close>.  An array is
  rendered as its elements joined by commas, \<open>undefined\<close> and \<open>null\<close> as empty
  strings.  The objects of the model are plain data (they come from \<open>JSON.parse\<close> or
  the master resume), so a property of an object is never a function: an object is
  rendered as \<open>[object Object]\<close> by the inherited \<open>toString\<close>, unless it has a
  property \<open>toString\<close> of its own, which is not callable, and then the conversion
  raises a \<open>TypeError\<close>.  \<open>sequence\<close> gives the values of a list of steps, or the
  first exception.
\<close>

fun join :: "string \<Rightarrow> string list \<Rightarrow> string" where
  "join sep [] = []"
| "join sep [x] = x"
| "join sep (x # y # ys) = x @ sep @ join sep (y # ys)"

fun sequence :: "(error + 'a) list \<Rightarrow> error + 'a list" where
  "sequence [] = Inr []"
| "sequence (r # rs) =
     (case r of
        Inl e \<Rightarrow> Inl e
      | Inr x \<Rightarrow> (case sequence rs of Inl e \<Rightarrow> Inl e | Inr xs \<Rightarrow> Inr (x # xs)))"

fun String_val :: "'a js_host_scheme \<Rightarrow> jsval \<Rightarrow> error + string" where
  "String_val h (Prim c) = Inr (String_cell h c)"
| "String_val h (Arr xs) =
     (case sequence (map (\<lambda>v. if v = Prim CUndef \<or> v = Prim CNull then Inr []
                               else String_val h v) xs) of
        Inl e \<Rightarrow> Inl e
      | Inr ss \<Rightarrow> Inr (join '','' ss))"
| "String_val h (Obj kvs) =
     (if ''toString'' \<in> set (map fst kvs) then Inl TypeError else Inr ''[object Object]'')"

text \<open>
  \<open>x.join(sep)\<close>: the elements of an array are rendered as \<open>String\<close> renders them;
  a value that is not an array has no \<open>join\<close>.  \<open>x.slice(0, 3)\<close> is defined for
  arrays and strings.
\<close>

fun join_method :: "'a js_host_scheme \<Rightarrow> string \<Rightarrow> jsval \<Rightarrow> error + string" where
  "join_method h sep (Arr xs) =
     (case sequence (map (\<lambda>v. if v = Prim CUndef \<or> v = Prim CNull then Inr []
                               else String_val h v) xs) of
        Inl e \<Rightarrow> Inl e
      | Inr ss \<Rightarrow> Inr (join sep ss))"
| "join_method h sep v = Inl TypeError"

fun slice3 :: "jsval \<Rightarrow> error + jsval" where
  "slice3 (Arr xs) = Inr (Arr (take 3 xs))"
| "slice3 (Prim (CStr s)) = Inr (Prim (CStr (take 3 s)))"
| "slice3 v = Inl TypeError"

text \<open>
  The removal of the code fence, written out in both \<open>matchResumeSection\<close> and
  \<open>tailorBulletPoint\<close>, applied to the trimmed response.
\<close>

definition stripCodeFences :: "string \<Rightarrow> string" where
  "stripCodeFences s =
     (let s1 = (if startsWith s ''```json'' then trim (drop 7 s)
                else if startsWith s ''```'' then trim (drop 3 s)
                else s)
      in if endsWith s1 ''```'' then trim (take (length s1 - 3) s1) else s1)"

definition validJdAnalysis :: "jsval \<Rightarrow> bool" where
  "validJdAnalysis jdAnalysisResults =
     (vtruthy jdAnalysisResults \<and> vtruthy (vget jdAnalysisResults ''primaryKeywords'') \<and>
      vtruthy (vget jdAnalysisResults ''jobTitle''))"

text \<open>
  \<open>matchResumeSection\<close>; \<open>groqResponseString\<close> is what \<open>callGroq\<close> returned for
  the prompt.  The prompt holds the text and \<open>JSON.stringify(jdAnalysisResults)\<close>,
  which raises no exception for a value that \<open>JSON.parse\<close> produced.
\<close>

definition matchResumeSection :: \<open>'a js_host_scheme \<Rightarrow> string \<Rightarrow> jsval \<Rightarrow> string \<Rightarrow> jsval\<close> where
  "matchResumeSection h resumeSectionText jdAnalysisResults groqResponseString =
     (if resumeSectionText = [] \<or> trim resumeSectionText = []
      then Obj [(''error'', Prim (CStr ''Input resume section text is empty.''))]
      else if \<not> validJdAnalysis jdAnalysisResults
      then Obj [(''error'', Prim (CStr ''Invalid JD analysis results (missing primaryKeywords or jobTitle).''))]
      else if groqResponseString \<noteq> [] \<and> \<not> startsWith groqResponseString ''ERROR:''
      then (let cleanedResponse = stripCodeFences (trim groqResponseString)
            in case JSON_parse h cleanedResponse of
                 None \<Rightarrow> Obj [(''error'', Prim (CStr ''Failed to parse Groq JSON for matching.'')),
                              (''rawOutput'', Prim (CStr groqResponseString))]
               | Some parsedMatch \<Rightarrow>
                   if vtruthy parsedMatch \<and> isNumber (vget parsedMatch ''relevanceScore'') \<and>
                      isArray (vget parsedMatch ''matchingKeywords'') \<and>
                      isString (vget parsedMatch ''justification'')
                   then parsedMatch
                   else Obj [(''error'', Prim (CStr ''Groq output structure mismatch for matching.'')),
                             (''rawOutput'', Prim (CStr cleanedResponse))])
      else Obj [(''error'', Prim (CStr ''Groq API call failed for matching.'')),
                (''rawOutput'', Prim (CStr groqResponseString))])"

text \<open>
  \<open>tailorBulletPoint\<close>.  The context string of the prompt is built before the model
  is called: \<open>(x || []).join(sep)\<close> raises a \<open>TypeError\<close> when \<open>x\<close> is truthy
  and not an array, or holds an element that cannot be rendered.
\<close>

definition jdContextString :: "'a js_host_scheme \<Rightarrow> jsval \<Rightarrow> string \<Rightarrow> error + string" where
  "jdContextString h jdAnalysisResults targetRoleTitle =
     (case slice3 (vor (vget jdAnalysisResults ''keyResponsibilities'') (Arr [])) of
        Inl e \<Rightarrow> Inl e
      | Inr sample \<Rightarrow>
     (case join_method h ''; '' sample of
        Inl e \<Rightarrow> Inl e
      | Inr keyResponsibilities \<Rightarrow>
     (case join_method h '', '' (vor (vget jdAnalysisResults ''primaryKeywords'') (Arr [])) of
        Inl e \<Rightarrow> Inl e
      | Inr primaryKeywords \<Rightarrow>
     (case join_method h '', '' (vor (vget jdAnalysisResults ''requiredTechnicalSkills'') (Arr [])) of
        Inl e \<Rightarrow> Inl e
      | Inr requiredTechnicalSkills \<Rightarrow>
          Inr (trim ([CHR 0x0A] @ ''Target Role: '' @ targetRoleTitle @ [CHR 0x0A] @
                     ''Key Responsibilities (sample): '' @ keyResponsibilities @ [CHR 0x0A] @
                     ''Primary Keywords from JD: '' @ primaryKeywords @ [CHR 0x0A] @
                     ''Required Technical Skills from JD: '' @ requiredTechnicalSkills @
                     [CHR 0x0A] @ ''  ''))))))"

text \<open>The text of a value that \<open>typeof\<close> says is a string.\<close>

fun stringOf :: "jsval \<Rightarrow> string" where
  "stringOf (Prim (CStr s)) = s"
| "stringOf v = []"

definition tailorBulletPoint ::
  "'a js_host_scheme \<Rightarrow> jsval \<Rightarrow> jsval \<Rightarrow> jsval \<Rightarrow> string \<Rightarrow> error + string" where
  \<open>tailorBulletPoint h originalBullet jdAnalysisResults targetRoleTitle groqResponseString =
     (case nonBlankText originalBullet of
        Inl e \<Rightarrow> Inl e
      | Inr None \<Rightarrow> Inr ''ERROR: Original bullet empty.''
      | Inr (Some bullet) \<Rightarrow>
          if \<not> validJdAnalysis jdAnalysisResults
          then Inr ''ERROR: Invalid JD analysis.''
          else
           (case nonBlankText targetRoleTitle of
              Inl e \<Rightarrow> Inl e
            | Inr None \<Rightarrow> Inr ''ERROR: Target role empty.''
            | Inr (Some role) \<Rightarrow>
               (case jdContextString h jdAnalysisResults role of
                  Inl e \<Rightarrow> Inl e
                | Inr context \<Rightarrow>
                    if groqResponseString \<noteq> [] \<and> \<not> startsWith groqResponseString ''ERROR:''
                    then (let tailoredText = trim groqResponseString;
                              potentialJson = stripCodeFences tailoredText
                          in case JSON_parse h potentialJson of
                               None \<Rightarrow> Inr tailoredText
                             | Some parsedResponse \<Rightarrow>
                                 if vtruthy parsedResponse \<and>
                                    vtruthy (vget parsedResponse ''rewritten_bullet'') \<and>
                                    isString (vget parsedResponse ''rewritten_bullet'')
                                 then Inr (trim (stringOf (vget parsedResponse ''rewritten_bullet'')))
                                 else Inr tailoredText)
                    else Inr (''ERROR: Groq API call failed during tailoring for bullet: "'' @
                              take 50 bullet @ ''..."''))))\<close>


section \<open>Stage 1: scoring the bullets (Main.gs, runStage1_AnalyzeAndScore)\<close>

text \<open>A natural number in a template string.\<close>

fun showNat :: "nat \<Rightarrow> string" where
  "showNat n =
     (if n < 10 then [''0123456789'' ! n]
      else showNat (n div 10) @ [''0123456789'' ! (n mod 10)])"

declare showNat.simps [simp del]

text \<open>
  \<open>x.toFixed(2)\<close>: the number of hundredths nearest to \<open>|x|\<close> (the larger one of
  two), written with two decimals, after the sign of a negative \<open>x\<close>; a number of
  magnitude \<open>10^21\<close> or more is rendered as \<open>String(x)\<close>.
\<close>

definition hundredths :: "rat \<Rightarrow> nat" where
  "hundredths x = nat \<lfloor>\<bar>x\<bar> * 100 + 1 / 2\<rfloor>"

definition renderFixed2 :: "bool \<Rightarrow> nat \<Rightarrow> string" where
  "renderFixed2 negative n =
     (let s = showNat n;
          m = (if length s < 3 then replicate (3 - length s) (CHR ''0'') @ s else s)
      in (if negative then ''-'' else []) @ take (length m - 2) m @ ''.'' @ drop (length m - 2) m)"

fun toFixed2 :: "'a js_host_scheme \<Rightarrow> jsnum \<Rightarrow> string" where
  "toFixed2 h NaN = ''NaN''"
| "toFixed2 h PosInf = ''Infinity''"
| "toFixed2 h NegInf = ''-Infinity''"
| "toFixed2 h (Fin x) =
     (if \<bar>x\<bar> \<ge> 10 ^ 21 then Number_toString h (Fin x)
      else renderFixed2 (x < 0) (hundredths x))"

text \<open>\<open>keywords.join("; ")\<close>\<close>

definition joinKeywords :: "'a js_host_scheme \<Rightarrow> jsval \<Rightarrow> error + string" where
  "joinKeywords h keywords = join_method h ''; '' keywords"

text \<open>
  The block that turns \<open>matchResult\<close> into the score, the keywords and the
  justification.  The four sections have a copy of it each, which differ in the three
  texts: the justification when there is neither a numeric score nor an error, the one
  when the model gave none, and the label before an error.  The template string that
  holds the error renders \<open>matchResult.error\<close> and \<open>matchResult.rawOutput || ""\<close>.
\<close>

definition scoreOfMatch :: "jsval \<Rightarrow> jsnum" where
  "scoreOfMatch matchResult =
     (if vtruthy matchResult \<and> \<not> vtruthy (vget matchResult ''error'') \<and>
         isNumber (vget matchResult ''relevanceScore'')
      then (case vget matchResult ''relevanceScore'' of Prim (CNum n) \<Rightarrow> n | _ \<Rightarrow> Fin 0)
      else Fin 0)"

definition keywordsOfMatch :: "jsval \<Rightarrow> jsval" where
  "keywordsOfMatch matchResult =
     (if vtruthy matchResult \<and> \<not> vtruthy (vget matchResult ''error'') \<and>
         isNumber (vget matchResult ''relevanceScore'')
      then vor (vget matchResult ''matchingKeywords'') (Arr [])
      else Arr [])"

definition justificationOfMatch ::
  "'a js_host_scheme \<Rightarrow> string \<Rightarrow> string \<Rightarrow> string \<Rightarrow> jsval \<Rightarrow> error + jsval" where
  "justificationOfMatch h noScoreText noJustificationText errorLabel matchResult =
     (if vtruthy matchResult \<and> \<not> vtruthy (vget matchResult ''error'') \<and>
         isNumber (vget matchResult ''relevanceScore'')
      then Inr (vor (vget matchResult ''justification'') (Prim (CStr noJustificationText)))
      else if vtruthy matchResult \<and> vtruthy (vget matchResult ''error'')
      then (case String_val h (vget matchResult ''error'') of
              Inl e \<Rightarrow> Inl e
            | Inr error \<Rightarrow>
                (case String_val h (vor (vget matchResult ''rawOutput'') (Prim (CStr []))) of
                   Inl e \<Rightarrow> Inl e
                 | Inr rawOutput \<Rightarrow>
                     Inr (Prim (CStr (errorLabel @ error @ ''. Raw: '' @ rawOutput)))))
      else Inr (Prim (CStr noScoreText)))"

text \<open>
  The row pushed for one scored text: the block above, then the array literal with
  \<open>score.toFixed(2)\<close> and \<open>keywords.join("; ")\<close>.
\<close>

definition scoredBulletRow ::
  "'a js_host_scheme \<Rightarrow> string \<Rightarrow> string \<Rightarrow> jsval \<Rightarrow> string \<Rightarrow> string \<Rightarrow> string \<Rightarrow> string \<Rightarrow>
   jsval \<Rightarrow> error + jsval list" where
  "scoredBulletRow h uniqueId sectionName itemIdentifier originalText
       noScoreText noJustificationText errorLabel matchResult =
     (case justificationOfMatch h noScoreText noJustificationText errorLabel matchResult of
        Inl e \<Rightarrow> Inl e
      | Inr justification \<Rightarrow>
          (case joinKeywords h (keywordsOfMatch matchResult) of
             Inl e \<Rightarrow> Inl e
           | Inr keywords \<Rightarrow>
               Inr [Prim (CStr uniqueId), Prim (CStr sectionName), itemIdentifier,
                    Prim (CStr originalText),
                    Prim (CStr (toFixed2 h (scoreOfMatch matchResult))),
                    Prim (CStr keywords), justification,
                    Prim (CStr []), Prim (CStr [])]))"

text \<open>The row pushed for one bullet of EXPERIENCE.\<close>

definition experienceRow ::
  "'a js_host_scheme \<Rightarrow> jsobj \<Rightarrow> nat \<Rightarrow> nat \<Rightarrow> string \<Rightarrow> jsval \<Rightarrow> error + jsval list" where
  "experienceRow h job jobIndex bulletIndex originalBullet matchResult =
     scoredBulletRow h (''EXP_J'' @ showNat jobIndex @ ''_B'' @ showNat bulletIndex)
       ''EXPERIENCE''
       (vor (oget job ''company'') (Prim (CStr (''ExperienceItem'' @ showNat jobIndex))))
       originalBullet
       ''Match error/no numeric score.'' ''No justification by AI.'' ''Error: '' matchResult"




text \<open>EXPERIENCE: the loop over the responsibilities of one job, and the loop over the jobs.\<close>

fun scoreResponsibilities ::
  "'a js_host_scheme \<Rightarrow> (nat \<Rightarrow> string) \<Rightarrow> jsval \<Rightarrow> jsobj \<Rightarrow> nat \<Rightarrow> nat \<Rightarrow> jsval list \<Rightarrow>
   nat \<times> jsval list list \<Rightarrow> error + nat \<times> jsval list list" where
  "scoreResponsibilities h groq jdAnalysis job jobIndex bulletIndex [] st = Inr st"
| "scoreResponsibilities h groq jdAnalysis job jobIndex bulletIndex (originalBullet # rest)
     (masterBulletCounter, allScoredBulletsDataForSheet) =
     (case nonBlankText originalBullet of
        Inl e \<Rightarrow> Inl e
      | Inr None \<Rightarrow>
          scoreResponsibilities h groq jdAnalysis job jobIndex (Suc bulletIndex) rest
            (masterBulletCounter, allScoredBulletsDataForSheet)
      | Inr (Some text) \<Rightarrow>
          (case experienceRow h job jobIndex bulletIndex text
                  (matchResumeSection h text jdAnalysis (groq (Suc masterBulletCounter))) of
             Inl e \<Rightarrow> Inl e
           | Inr newRow \<Rightarrow>
               scoreResponsibilities h groq jdAnalysis job jobIndex (Suc bulletIndex) rest
                 (Suc masterBulletCounter, allScoredBulletsDataForSheet @ [newRow])))"























section \<open>Stage 2: tailoring the selected bullets (Main.gs, runStage2_TailorSelectedBullets)\<close>

text \<open>
  A row of the sheet is the array of its cells.  Reading past the end of an array gives
  \<open>undefined\<close>; writing past the end extends it.
\<close>

definition cellAt :: "cell list \<Rightarrow> nat \<Rightarrow> cell" where
  "cellAt rowArray i = (if i < length rowArray then rowArray ! i else CUndef)"

definition setCell :: "cell list \<Rightarrow> nat \<Rightarrow> cell \<Rightarrow> cell list" where
  "setCell rowArray i v =
     (if i < length rowArray then rowArray[i := v]
      else rowArray @ replicate (i - length rowArray) CUndef @ [v])"

text \<open>
  What is stored for the output of \<open>tailorBulletPoint\<close>: the trimmed output, or the
  output after the marker of a failure.
\<close>

definition tailoredCell :: "string \<Rightarrow> cell" where
  "tailoredCell tailoredOutput =
     (if tailoredOutput \<noteq> [] \<and> \<not> startsWith tailoredOutput ''ERROR:'' \<and>
         toLowerCase tailoredOutput \<noteq> NOT_SUITABLE
      then CStr (trim tailoredOutput)
      else CStr (''TAILOR_FAIL/SKIP: '' @ tailoredOutput))"

definition tailoringSucceeded :: "string \<Rightarrow> bool" where
  "tailoringSucceeded tailoredOutput =
     (tailoredOutput \<noteq> [] \<and> \<not> startsWith tailoredOutput ''ERROR:'' \<and>
      toLowerCase tailoredOutput \<noteq> NOT_SUITABLE)"

text \<open>
  The state of the loop: the rows read from the sheet, updated in place, and the
  counters.  \<open>tailor n c\<close> is what the \<open>n\<close>-th call of \<open>tailorBulletPoint\<close> returns
  for the original bullet \<open>c\<close>, or the exception it raises, which ends the stage.
\<close>

record stage2_state =
  scoringSheetDataRows :: "cell list list"
  bulletsAttemptedToTailor :: nat
  bulletsSuccessfullyTailored :: nat
  modifiedDataForSheet :: bool

definition tailorStep ::
  "'a js_host_scheme \<Rightarrow> (nat \<Rightarrow> cell \<Rightarrow> error + string) \<Rightarrow> nat \<Rightarrow> nat \<Rightarrow> nat \<Rightarrow>
   nat \<Rightarrow> stage2_state \<Rightarrow> error + stage2_state" where
  "tailorStep h tailor originalBulletColIndex selectColIndex tailoredColIndex i st =
     (let rowData = scoringSheetDataRows st ! i
      in if isSelected h (cellAt rowData selectColIndex)
         then (case tailor (Suc (bulletsAttemptedToTailor st)) (cellAt rowData originalBulletColIndex) of
                 Inl e \<Rightarrow> Inl e
               | Inr tailoredOutput \<Rightarrow>
                   Inr \<lparr> scoringSheetDataRows =
                           (scoringSheetDataRows st)
                             [i := setCell rowData tailoredColIndex (tailoredCell tailoredOutput)],
                         bulletsAttemptedToTailor = Suc (bulletsAttemptedToTailor st),
                         bulletsSuccessfullyTailored =
                           (if tailoringSucceeded tailoredOutput
                            then Suc (bulletsSuccessfullyTailored st)
                            else bulletsSuccessfullyTailored st),
                         modifiedDataForSheet = True \<rparr>)
         else Inr st)"

text \<open>\<open>for (let i = 0; i < scoringSheetDataRows.length; i++)\<close>, with \<open>n\<close> rows to go.\<close>

fun tailorLoop ::
  "'a js_host_scheme \<Rightarrow> (nat \<Rightarrow> cell \<Rightarrow> error + string) \<Rightarrow> nat \<Rightarrow> nat \<Rightarrow> nat \<Rightarrow>
   nat \<Rightarrow> nat \<Rightarrow> stage2_state \<Rightarrow> error + stage2_state" where
  "tailorLoop h tailor oc sc tc i 0 st = Inr st"
| "tailorLoop h tailor oc sc tc i (Suc n) st =
     (case tailorStep h tailor oc sc tc i st of
        Inl e \<Rightarrow> Inl e
      | Inr st' \<Rightarrow> tailorLoop h tailor oc sc tc (Suc i) n st')"

text \<open>
  The data rows of the scoring sheet after the stage, given its header row and its data
  rows before.  Nothing is written when a required column is missing, when an exception
  ends the stage, when no row is selected, or when \<open>setValues\<close> refuses the rows because
  they do not all have the width of the header row.
\<close>

definition runStage2_sheet ::
  "'a js_host_scheme \<Rightarrow> (nat \<Rightarrow> cell \<Rightarrow> error + string) \<Rightarrow> cell list \<Rightarrow> cell list list \<Rightarrow>
   cell list list" where
  "runStage2_sheet h tailor scoringSheetHeaders dataRows =
     (if length dataRows < 1 then dataRows
      else
       (case (indexOf scoringSheetHeaders (CStr ''OriginalBulletText''),
              indexOf scoringSheetHeaders (CStr ''SelectToTailor(Manual)''),
              indexOf scoringSheetHeaders (CStr ''TailoredBulletText(Stage2)''),
              indexOf scoringSheetHeaders (CStr ''RelevanceScore''),
              indexOf scoringSheetHeaders (CStr ''UniqueID'')) of
          (Some originalBulletColIndex, Some selectColIndex, Some tailoredColIndex,
           Some scoreColIndex, Some uniqueIdColIndex) \<Rightarrow>
            (case tailorLoop h tailor originalBulletColIndex selectColIndex tailoredColIndex 0
                    (length dataRows)
                    \<lparr> scoringSheetDataRows = dataRows, bulletsAttemptedToTailor = 0,
                      bulletsSuccessfullyTailored = 0, modifiedDataForSheet = False \<rparr> of
               Inl e \<Rightarrow> dataRows
             | Inr st \<Rightarrow>
                 if modifiedDataForSheet st \<and> length (scoringSheetDataRows st) > 0 \<and>
                    list_all (\<lambda>r. length r = length scoringSheetHeaders) (scoringSheetDataRows st)
                 then scoringSheetDataRows st
                 else dataRows)
        | _ \<Rightarrow> dataRows))"


section \<open>MasterResumeData.gs: dates\<close>

text \<open>An integer in a template string.\<close>

definition showInt :: "int \<Rightarrow> string" where
  "showInt i = (if i < 0 then ''-'' @ showNat (nat (- i)) else showNat (nat i))"

definition monthNames :: "string list" where
  "monthNames = [''January'', ''February'', ''March'', ''April'', ''May'', ''June'', ''July'',
                 ''August'', ''September'', ''October'', ''November'', ''December'']"

definition isDigit :: "char \<Rightarrow> bool" where
  "isDigit c = (c \<in> set ''0123456789'')"

definition isLetter :: "char \<Rightarrow> bool" where
  "isLetter c = (c \<in> set ''abcdefghijklmnopqrstuvwxyzABCDEFGHIJKLMNOPQRSTUVWXYZ'')"

text \<open>The regular expression \<open>/^\d{4}$/\<close>.\<close>

definition isYear :: "string \<Rightarrow> bool" where
  "isYear s = (length s = 4 \<and> list_all isDigit s)"

text \<open>
  The regular expression \<open>/^[A-Za-z]{3,9}\s\d{4}$/\<close>: the letters are followed by a
  white space character, which is no letter, so they are the longest run of letters.
\<close>

definition isMonthYear :: "string \<Rightarrow> bool" where
  "isMonthYear s =
     (let letters = takeWhile isLetter s; rest = dropWhile isLetter s
      in 3 \<le> length letters \<and> length letters \<le> 9 \<and>
         (case rest of
            [] \<Rightarrow> False
          | c # digits \<Rightarrow> isSpace c \<and> length digits = 4 \<and> list_all isDigit digits))"

text \<open>
  \<open>formatDateFromSheet\<close>.  The function has no statement that can raise an exception,
  so the model has no error result.  An index past the end of \<open>monthNames\<close> reads
  \<open>undefined\<close>.
\<close>

definition formatDateFromSheet :: "'a js_host_scheme \<Rightarrow> cell \<Rightarrow> bool \<Rightarrow> string" where
  "formatDateFromSheet h dateCellValue isPotentialEndDate =
     (if dateCellValue = CNull \<or> dateCellValue = CUndef \<or> trim (String_cell h dateCellValue) = []
      then (if isPotentialEndDate then ''Present'' else [])
      else
       (let dateString = trim (String_cell h dateCellValue)
        in if toUpperCase dateString = ''PRESENT'' then ''Present''
           else
            (let dateObj = (case dateCellValue of CDate d \<Rightarrow> d | _ \<Rightarrow> Date_parse h dateString)
             in case dateObj of
                  None \<Rightarrow> dateString
                | Some t \<Rightarrow>
                    if isYear dateString then dateString
                    else if isMonthYear dateString then dateString
                    else (if Date_getMonth h t < length monthNames
                          then monthNames ! Date_getMonth h t else ''undefined'') @
                         '' '' @ showInt (Date_getFullYear h t))))"


section \<open>MasterResumeData.gs: the items of a tabular section (processAccumulatedSection)\<close>

text \<open>
  \<open>processAccumulatedSection\<close> receives the headers trimmed and the cells of a row as
  strings.  An item is an object with string values, kept as the list of its properties
  in insertion order.  (JavaScript enumerates property names that are array indices
  before the others; this matters only when two columns are mapped to one key.)
\<close>

type_synonym sheet_item = "(string \<times> string) list"

text \<open>
  Step 1: \<open>item[header.trim()] = String(row[index])\<close> for every header that is not
  blank, the empty string standing in for a missing cell.
\<close>

fun sheetPairs :: "string list \<Rightarrow> string list \<Rightarrow> (string \<times> string) list" where
  "sheetPairs [] row = []"
| "sheetPairs (header # rest) row =
     (if header \<noteq> [] \<and> trim header \<noteq> []
      then [(trim header, (case row of [] \<Rightarrow> [] | c # _ \<Rightarrow> c))] else []) @
     sheetPairs rest (tl row)"

definition itemFromSheet :: "string list \<Rightarrow> string list \<Rightarrow> sheet_item" where
  "itemFromSheet headers row =
     fold (\<lambda>kv item. AList.update (fst kv) (snd kv) item) (sheetPairs headers row) []"

text \<open>
  Step 2: the key of a header, and the item with these keys and trimmed values.  The
  table \<open>keyMappings\<close> is read at its own properties only (a header spelt like a
  property that every object inherits, such as \<open>constructor\<close>, is outside the model).
\<close>

definition keyMappings :: "(string \<times> string) list" where
  "keyMappings =
     [(''JobTitle'', ''jobTitle''), (''Company'', ''company''),
      (''StartDate'', ''startDate''), (''EndDate'', ''endDate''),
      (''Institution'', ''institution''), (''Degree'', ''degree''),
      (''RelevantCoursework'', ''relevantCoursework''),
      (''CategoryName'', ''categoryName''), (''SkillItem'', ''skillItem''),
      (''Issuer'', ''issuer''), (''IssueDate'', ''issueDate''),
      (''ProjectName'', ''projectName''), (''Organization'', ''organization''),
      (''Impact'', ''impact''), (''FutureDevelopment'', ''futureDevelopment''),
      (''GitHubName1'', ''githubName1''), (''GitHubURL1'', ''githubUrl1''),
      (''AwardName'', ''awardName'')]"

definition jsKeyOf :: "string \<Rightarrow> string \<Rightarrow> string" where
  "jsKeyOf sectionTitleKey headerKeyInSheet =
     (let jsKey = filter (\<lambda>c. \<not> isSpace c) headerKeyInSheet;
          jsKey = (case jsKey of [] \<Rightarrow> [] | c # cs \<Rightarrow> toLowerCase_char c # cs)
      in case map_of keyMappings headerKeyInSheet of
           Some mapped \<Rightarrow> mapped
         | None \<Rightarrow>
             if headerKeyInSheet = ''Date'' \<and> sectionTitleKey = ''HONORS & AWARDS'' then ''date''
             else if headerKeyInSheet = ''Description'' \<and>
                     sectionTitleKey = ''LEADERSHIP & UNIVERSITY INVOLVEMENT'' then ''description''
             else if headerKeyInSheet = ''GPA'' \<and> sectionTitleKey = ''EDUCATION'' then ''gpa''
             else jsKey)"

definition mappedItem :: "string \<Rightarrow> sheet_item \<Rightarrow> sheet_item" where
  "mappedItem sectionTitleKey sheetItem =
     fold (\<lambda>kv newItem. AList.update (jsKeyOf sectionTitleKey (fst kv)) (trim (snd kv)) newItem)
       sheetItem []"

text \<open>Step 3: the dates, which are formatted when they are not empty.\<close>

definition valueOf :: "sheet_item \<Rightarrow> string \<Rightarrow> string" where
  "valueOf item k = (case map_of item k of None \<Rightarrow> [] | Some v \<Rightarrow> v)"

definition formatField ::
  "'a js_host_scheme \<Rightarrow> string \<Rightarrow> bool \<Rightarrow> sheet_item \<Rightarrow> sheet_item" where
  "formatField h k isPotentialEndDate item =
     (if valueOf item k \<noteq> []
      then AList.update k (formatDateFromSheet h (CStr (valueOf item k)) isPotentialEndDate) item
      else item)"

definition formatDates :: "'a js_host_scheme \<Rightarrow> string \<Rightarrow> sheet_item \<Rightarrow> sheet_item" where
  "formatDates h sectionTitleKey item =
     (let item = formatField h ''startDate'' False item;
          item = formatField h ''endDate'' True item;
          item = (if sectionTitleKey = ''HONORS & AWARDS''
                  then formatField h ''date'' False item else item);
          item = (if sectionTitleKey = ''TECHNICAL SKILLS & CERTIFICATES''
                  then formatField h ''issueDate'' False item else item)
      in item)"

text \<open>
  Step 3: the loop \<open>for (let k = 1; k <= NUM_DEDICATED_BULLET_COLUMNS; k++)\<close> that
  collects the numbered bullet columns, with \<open>n\<close> columns to go.
\<close>

fun collectBullets :: "string \<Rightarrow> sheet_item \<Rightarrow> nat \<Rightarrow> nat \<Rightarrow> string list" where
  "collectBullets keyPrefix item k 0 = []"
| "collectBullets keyPrefix item k (Suc n) =
     (if valueOf item (keyPrefix @ showNat k) \<noteq> [] \<and>
         trim (valueOf item (keyPrefix @ showNat k)) \<noteq> []
      then [trim (valueOf item (keyPrefix @ showNat k))] else []) @
     collectBullets keyPrefix item (Suc k) n"

text \<open>
  The item of a row when its dates have been formatted, and the bullets collected for
  it: \<open>responsibilities\<close> for an item of EXPERIENCE or LEADERSHIP,
  \<open>descriptionBullets\<close> for a project, and no bullets for an item of another
  section.
\<close>

definition datedItem :: "'a js_host_scheme \<Rightarrow> string \<Rightarrow> string list \<Rightarrow> string list \<Rightarrow> sheet_item" where
  "datedItem h sectionTitleKey headers row =
     formatDates h sectionTitleKey (mappedItem sectionTitleKey (itemFromSheet headers row))"

definition itemBullets ::
  "'a js_host_scheme \<Rightarrow> string \<Rightarrow> string list \<Rightarrow> string list \<Rightarrow> string list option" where
  "itemBullets h sectionTitleKey headers row =
     (if sectionTitleKey = ''EXPERIENCE'' \<or>
         sectionTitleKey = ''LEADERSHIP & UNIVERSITY INVOLVEMENT''
      then Some (collectBullets ''responsibility'' (datedItem h sectionTitleKey headers row)
                   1 NUM_DEDICATED_BULLET_COLUMNS)
      else if sectionTitleKey = ''PROJECTS''
      then Some (collectBullets ''descriptionBullet'' (datedItem h sectionTitleKey headers row)
                   1 NUM_DEDICATED_BULLET_COLUMNS)
      else None)"


section \<open>Closed examples: a sample host\<close>

text \<open>
  The closed examples below run the model with this host, whose clock is UTC.  Its
  \<open>JSON.parse\<close> knows the JSON texts listed in \<open>sampleJson\<close> and rejects every
  other string (the examples give it no other JSON text).  It knows two dates, 15 March
  2022 and 1 January 2020 (the date of the string \<open>2020\<close>), and takes no other
  string for a date.  It renders a whole number in decimal,
  and its \<open>parseFloat\<close> finds no number in a string: the examples turn no other
  number into a string and hold every score as a number.
\<close>

definition sampleJson :: "(string \<times> jsval) list" where
  \<open>sampleJson =
     [(''{"rewritten_bullet": "Led X"}'',
       Obj [(''rewritten_bullet'', Prim (CStr ''Led X''))]),
      (''{"relevanceScore": 1.5, "matchingKeywords": ["python"], "justification": "Strong match."}'',
       Obj [(''relevanceScore'', Prim (CNum (Fin (3 / 2)))),
            (''matchingKeywords'', Arr [Prim (CStr ''python'')]),
            (''justification'', Prim (CStr ''Strong match.''))]),
      (''{"relevanceScore": 0.85, "matchingKeywords": ["python", "sql"], "justification": "Good match."}'',
       Obj [(''relevanceScore'', Prim (CNum (Fin (17 / 20)))),
            (''matchingKeywords'', Arr [Prim (CStr ''python''), Prim (CStr ''sql'')]),
            (''justification'', Prim (CStr ''Good match.''))]),
      (''{"relevanceScore": 0.5, "matchingKeywords": [], "justification": "n/a", "error": {"toString": 1}}'',
       Obj [(''relevanceScore'', Prim (CNum (Fin (1 / 2)))),
            (''matchingKeywords'', Arr []),
            (''justification'', Prim (CStr ''n/a'')),
            (''error'', Obj [(''toString'', Prim (CNum (Fin 1)))])])]\<close>

definition sample_host :: js_host where
  "sample_host =
     \<lparr> Number_toString =
         (\<lambda>n. case n of NaN \<Rightarrow> ''NaN'' | NegInf \<Rightarrow> ''-Infinity'' | PosInf \<Rightarrow> ''Infinity''
               | Fin r \<Rightarrow> showInt \<lfloor>r\<rfloor>),
       Date_toString =
         (\<lambda>d. case d of
                 None \<Rightarrow> ''Invalid Date''
               | Some t \<Rightarrow>
                   if t = 1647302400000
                   then ''Tue Mar 15 2022 00:00:00 GMT+0000 (Coordinated Universal Time)''
                   else if t = 1577836800000
                   then ''Wed Jan 01 2020 00:00:00 GMT+0000 (Coordinated Universal Time)''
                   else ''Thu Jan 01 1970 00:00:00 GMT+0000 (Coordinated Universal Time)''),
       Date_toJSON =
         (\<lambda>d. case d of
                 None \<Rightarrow> CNull
               | Some t \<Rightarrow>
                   if t = 1647302400000 then CStr ''2022-03-15T00:00:00.000Z''
                   else if t = 1577836800000 then CStr ''2020-01-01T00:00:00.000Z''
                   else CStr ''1970-01-01T00:00:00.000Z''),
       parseFloat = (\<lambda>s. NaN),
       Date_parse =
         (\<lambda>s. if s = ''March 15, 2022'' then Some 1647302400000
              else if s = ''2020'' then Some 1577836800000
              else None),
       Date_getMonth = (\<lambda>t. if t = 1647302400000 then 2 else 0),
       Date_getFullYear =
         (\<lambda>t. if t = 1647302400000 then 2022 else if t = 1577836800000 then 2020 else 1970),
       JSON_parse = map_of sampleJson \<rparr>"

text \<open>Master resumes and scoring sheets of the closed examples.\<close>

definition scoredRow :: "string \<Rightarrow> string \<Rightarrow> string \<Rightarrow> cell \<Rightarrow> cell \<Rightarrow> string \<Rightarrow> row" where
  "scoredRow sec ident text score flag tailored =
     [(''Section'', CStr sec), (''ItemIdentifier'', CStr ident),
      (''OriginalBulletText'', CStr text), (''RelevanceScore'', score),
      (''SelectToTailor(Manual)'', flag), (''TailoredBulletText(Stage2)'', CStr tailored)]"

definition acmeJob :: jsobj where
  "acmeJob = [(''jobTitle'', Prim (CStr ''Engineer'')), (''company'', Prim (CStr ''Acme Corp'')),
              (''responsibilities'',
               Arr [Prim (CStr ''Built X''), Prim (CStr ''Led Y''), Prim (CStr ''Ran Z'')])]"

definition globexJob :: jsobj where
  "globexJob = [(''jobTitle'', Prim (CStr ''Intern'')), (''company'', Prim (CStr ''Globex'')),
                (''responsibilities'', Arr [Prim (CStr ''Filed reports'')])]"

definition educationSection :: resume_section where
  "educationSection =
     \<lparr> title = ''EDUCATION'',
       items = Some [[(''institution'', Prim (CStr ''MIT'')), (''degree'', Prim (CStr ''BS''))]],
       subsections = None \<rparr>"

definition masterA :: resume where
  "masterA =
     \<lparr> personalInfo = [(''fullName'', Prim (CStr ''Ada''))], summary = ''Engineer.'',
       sections = [\<lparr> title = ''EXPERIENCE'', items = Some [acmeJob, globexJob],
                     subsections = None \<rparr>,
                   educationSection] \<rparr>"

definition rowsA :: "row list" where
  "rowsA =
     [scoredRow ''EXPERIENCE'' ''Acme Corp'' ''Built X'' (CNum (Fin (9 / 10))) (CStr ''yes'') ''Delivered X'',
      scoredRow ''EXPERIENCE'' ''Acme Corp'' ''Led Y'' (CNum (Fin (1 / 2))) (CBool True) [],
      scoredRow ''EXPERIENCE'' ''Acme Corp'' ''Ran Z'' (CNum (Fin (19 / 20))) (CStr []) [],
      scoredRow ''EXPERIENCE'' ''Globex'' ''Filed reports'' (CNum (Fin (7 / 10))) (CStr []) []]"

definition masterB :: resume where
  "masterB =
     \<lparr> personalInfo = [(''fullName'', Prim (CStr ''Ada''))], summary = ''Engineer.'',
       sections = [\<lparr> title = ''EXPERIENCE'', items = Some [globexJob], subsections = None \<rparr>] \<rparr>"

definition rowsB :: "row list" where
  "rowsB = [scoredRow ''EXPERIENCE'' ''Globex'' ''Filed reports'' (CNum (Fin (7 / 10))) (CStr []) []]"


definition chessClub :: jsobj where
  "chessClub = [(''organization'', Prim (CStr ''Chess Club'')), (''role'', Prim (CStr ''President'')),
                (''responsibilities'', Arr [Prim (CStr ''Ran events'')])]"

definition masterC :: resume where
  "masterC =
     \<lparr> personalInfo = [(''fullName'', Prim (CStr ''Ada''))], summary = ''Engineer.'',
       sections = [\<lparr> title = ''LEADERSHIP & UNIVERSITY INVOLVEMENT'', items = Some [chessClub],
                     subsections = None \<rparr>] \<rparr>"

definition leadershipC :: resume_section where
  "leadershipC = \<lparr> title = ''LEADERSHIP & UNIVERSITY INVOLVEMENT'', items = Some [chessClub],
                   subsections = None \<rparr>"

definition rowsC :: "row list" where
  "rowsC = [scoredRow ''LEADERSHIP & UNIVERSITY INVOLVEMENT'' ''Chess Club'' ''Ran events''
              (CNum (Fin 0)) (CStr ''YES'') []]"

text \<open>Six selected rows of one company, more than the cap.\<close>

definition rowsD :: "row list" where
  "rowsD =
     [scoredRow ''EXPERIENCE'' ''Acme Corp'' ''b1'' (CNum (Fin (3 / 10))) (CStr ''X'') [],
      scoredRow ''EXPERIENCE'' ''Acme Corp'' ''b2'' (CNum (Fin (9 / 10))) (CStr ''X'') [],
      scoredRow ''EXPERIENCE'' ''Acme Corp'' ''b3'' (CNum (Fin (1 / 10))) (CStr ''X'') [],
      scoredRow ''EXPERIENCE'' ''Acme Corp'' ''b4'' (CNum (Fin (1 / 2))) (CStr ''X'') [],
      scoredRow ''EXPERIENCE'' ''Acme Corp'' ''b5'' (CNum (Fin (7 / 10))) (CStr ''X'') [],
      scoredRow ''EXPERIENCE'' ''Acme Corp'' ''b6'' (CNum (Fin (1 / 5))) (CStr ''X'') []]"


definition acmeTop5 :: jsobj where
  "acmeTop5 = AList.update ''responsibilities''
      (Arr [Prim (CStr ''b2''), Prim (CStr ''b5''), Prim (CStr ''b4''), Prim (CStr ''b1''),
            Prim (CStr ''b6'')]) acmeJob"

definition acmeTailored :: jsobj where
  "acmeTailored = AList.update ''responsibilities''
      (Arr [Prim (CStr ''Delivered X''), Prim (CStr ''Led Y'')]) acmeJob"

definition experienceA :: resume_section where
  "experienceA = \<lparr> title = ''EXPERIENCE'', items = Some [acmeTailored], subsections = None \<rparr>"

definition jdA :: jsval where
  "jdA = Obj [(''jobTitle'', Prim (CStr ''Engineer'')),
              (''primaryKeywords'', Arr [Prim (CStr ''python'')])]"

text \<open>An analysis whose keywords are a text, not a list.\<close>

definition jdKeywordsText :: jsval where
  "jdKeywordsText = Obj [(''jobTitle'', Prim (CStr ''Engineer'')),
                         (''primaryKeywords'', Prim (CStr ''python, sql''))]"

definition fencedJson :: string where
  \<open>fencedJson = ''```json'' @ [CHR 0x0A] @ ''{"rewritten_bullet": "Led X"}'' @ [CHR 0x0A] @ ''```''\<close>

definition fencedText :: string where
  "fencedText = ''```'' @ [CHR 0x0A] @ ''Rebuilt X in Python'' @ [CHR 0x0A] @ ''```''"

definition respGood :: string where
  \<open>respGood = ''{"relevanceScore": 0.85, "matchingKeywords": ["python", "sql"], "justification": "Good match."}''\<close>

definition respOver :: string where
  \<open>respOver = ''{"relevanceScore": 1.5, "matchingKeywords": ["python"], "justification": "Strong match."}''\<close>

definition respFailed :: string where
  "respFailed = ''ERROR: Groq API Error - rate limit''"



definition goodRow :: "string \<Rightarrow> string \<Rightarrow> jsval list" where
  "goodRow uniqueId originalBullet =
     [Prim (CStr uniqueId), Prim (CStr ''EXPERIENCE''), Prim (CStr ''Acme Corp''),
      Prim (CStr originalBullet), Prim (CStr ''0.85''), Prim (CStr ''python; sql''),
      Prim (CStr ''Good match.''), Prim (CStr []), Prim (CStr [])]"

definition overRow :: "jsval list" where
  "overRow =
     [Prim (CStr ''EXP_J0_B0''), Prim (CStr ''EXPERIENCE''), Prim (CStr ''Acme Corp''),
      Prim (CStr ''Built X''), Prim (CStr ''1.50''), Prim (CStr ''python''),
      Prim (CStr ''Strong match.''), Prim (CStr []), Prim (CStr [])]"









definition headersA :: "cell list" where
  "headersA = map CStr [''UniqueID'', ''Section'', ''ItemIdentifier'', ''OriginalBulletText'',
     ''RelevanceScore'', ''MatchingKeywords'', ''Justification'', ''SelectToTailor(Manual)'',
     ''TailoredBulletText(Stage2)'']"

definition sheetRow :: "string \<Rightarrow> string \<Rightarrow> cell \<Rightarrow> cell \<Rightarrow> cell list" where
  "sheetRow uniqueId originalBullet flag tailored =
     [CStr uniqueId, CStr ''EXPERIENCE'', CStr ''Acme Corp'', CStr originalBullet,
      CNum (Fin (17 / 20)), CStr ''python; sql'', CStr ''Good match.'', flag, tailored]"

definition sheetA :: "cell list list" where
  "sheetA = [sheetRow ''EXP_J0_B0'' ''Built X'' (CStr ''yes'') (CStr []),
             sheetRow ''EXP_J0_B1'' ''Led Y'' (CStr []) (CStr []),
             sheetRow ''EXP_J0_B2'' ''Ran Z'' (CBool True) (CStr [])]"

text \<open>
  The calls of \<open>tailorBulletPoint\<close> in the example: the model rewrites the first bullet
  and declines the second.
\<close>

definition tailorA :: "nat \<Rightarrow> cell \<Rightarrow> error + string" where
  "tailorA n c =
     tailorBulletPoint sample_host (Prim c) jdA (vget jdA ''jobTitle'')
       (if n = 1 then fencedJson
        else ''Original bullet not suitable for significant tailoring towards this role.'')"

definition sheetA_after :: "cell list list" where
  "sheetA_after =
     [sheetRow ''EXP_J0_B0'' ''Built X'' (CStr ''yes'') (CStr ''Led X''),
      sheetRow ''EXP_J0_B1'' ''Led Y'' (CStr []) (CStr []),
      sheetRow ''EXP_J0_B2'' ''Ran Z'' (CBool True)
        (CStr ''TAILOR_FAIL/SKIP: Original bullet not suitable for significant tailoring towards this role.'')]"

text \<open>A row of the EXPERIENCE table whose second bullet column is blank.\<close>

definition sheetHeadersE :: "string list" where
  "sheetHeadersE = [''Company'', ''JobTitle'', ''Location'', ''StartDate'', ''EndDate'',
                    ''Responsibility1'', ''Responsibility2'', ''Responsibility3'']"

definition sheetRowE :: "string list" where
  "sheetRowE = [''Acme Corp'', ''Engineer'', ''NYC'', ''2020'', ''2022'',
                '' Built X'', ''   '', ''Led Y'']"


text \<open>
  A row of the PROJECTS table whose first bullet column is blank, and a row of an
  EXPERIENCE table in which the column Responsibility2 stands before Responsibility1.
\<close>

definition sheetHeadersP :: "string list" where
  "sheetHeadersP = [''ProjectName'', ''Role'', ''DescriptionBullet1'', ''DescriptionBullet2'',
                    ''DescriptionBullet3'']"

definition sheetRowP :: "string list" where
  "sheetRowP = [''Resume Tool'', ''Author'', [], ''Parsed sheets '', ''Wrote docs'']"

definition sheetHeadersSwapped :: "string list" where
  "sheetHeadersSwapped = [''Company'', ''Responsibility2'', ''Responsibility1'', ''Responsibility3'']"

definition sheetRowSwapped :: "string list" where
  "sheetRowSwapped = [''Acme Corp'', ''Led Y'', ''Built X'', []]"


section \<open>Numbers and sorting\<close>

lemma js_ge_refl: "n \<noteq> NaN \<Longrightarrow> js_ge n n"
  by (cases n) auto

lemma js_ge_trans: "js_ge a b \<Longrightarrow> js_ge b c \<Longrightarrow> js_ge a c"
  by (cases a; cases b; cases c) auto

lemma js_gt_imp_ge: "js_gt a b \<Longrightarrow> js_ge a b"
  by (cases a; cases b) auto

lemma not_js_gt_imp_ge: "a \<noteq> NaN \<Longrightarrow> b \<noteq> NaN \<Longrightarrow> \<not> js_gt b a \<Longrightarrow> js_ge a b"
  by (cases a; cases b) auto

lemma js_ge_not_NaN: "js_ge a b \<Longrightarrow> a \<noteq> NaN \<and> b \<noteq> NaN"
  by (cases a; cases b) auto

lemma set_js_insert: "set (js_insert pos x ys) = insert x (set ys)"
  by (induction ys) auto

lemma set_js_sort: "set (js_sort pos xs) = set xs"
  by (induction xs) (auto simp: js_sort_def set_js_insert)

lemma length_js_insert: "length (js_insert pos x ys) = Suc (length ys)"
  by (induction ys) auto

lemma length_js_sort: "length (js_sort pos xs) = length xs"
  by (induction xs) (auto simp: js_sort_def length_js_insert)

lemma mset_js_insert: "mset (js_insert pos x ys) = add_mset x (mset ys)"
  by (induction ys) auto

lemma mset_js_sort: "mset (js_sort pos xs) = mset xs"
  by (induction xs) (auto simp: js_sort_def mset_js_insert)

lemma sorted_js_insert:
  assumes "sorted_wrt (\<lambda>a b. js_ge (f a) (f b)) ys"
    and "f x \<noteq> NaN" and "\<forall>y \<in> set ys. f y \<noteq> NaN"
  shows "sorted_wrt (\<lambda>a b. js_ge (f a) (f b)) (js_insert (\<lambda>a b. js_gt (f b) (f a)) x ys)"
  using assms
proof (induction ys)
  case Nil
  then show ?case by simp
next
  case (Cons y ys)
  show ?case
  proof (cases "js_gt (f y) (f x)")
    case True
    have "js_ge (f y) (f x)" using True by (rule js_gt_imp_ge)
    moreover have "\<forall>z \<in> set ys. js_ge (f y) (f z)" using Cons.prems(1) by simp
    moreover have "sorted_wrt (\<lambda>a b. js_ge (f a) (f b)) (js_insert (\<lambda>a b. js_gt (f b) (f a)) x ys)"
      using Cons by simp
    ultimately show ?thesis using True by (simp add: set_js_insert)
  next
    case False
    have xy: "js_ge (f x) (f y)"
      using False Cons.prems by (intro not_js_gt_imp_ge) auto
    have "\<forall>z \<in> set ys. js_ge (f x) (f z)"
      using xy Cons.prems(1) by (auto intro: js_ge_trans)
    then show ?thesis using False xy Cons.prems(1) by simp
  qed
qed

lemma sorted_js_sort:
  assumes "\<forall>x \<in> set xs. f x \<noteq> NaN"
  shows "sorted_wrt (\<lambda>a b. js_ge (f a) (f b)) (js_sort (\<lambda>a b. js_gt (f b) (f a)) xs)"
  using assms
proof (induction xs)
  case Nil
  then show ?case by (simp add: js_sort_def)
next
  case (Cons x xs)
  have "sorted_wrt (\<lambda>a b. js_ge (f a) (f b)) (js_sort (\<lambda>a b. js_gt (f b) (f a)) xs)"
    using Cons by simp
  then have "sorted_wrt (\<lambda>a b. js_ge (f a) (f b))
               (js_insert (\<lambda>a b. js_gt (f b) (f a)) x (js_sort (\<lambda>a b. js_gt (f b) (f a)) xs))"
    using Cons.prems by (intro sorted_js_insert) (auto simp: set_js_sort)
  then show ?case by (simp add: js_sort_def)
qed

lemma passesFilter_score: "passesFilter h r \<Longrightarrow> scoreOf h r \<noteq> NaN"
  by (auto simp: passesFilter_def scoreOf_def dest: js_ge_not_NaN)

lemma set_selectedScoredBullets:
  "set (selectedScoredBullets h rows t ident) =
     {r \<in> set rows. strict_eq (rget r ''Section'') (CStr t) \<and>
        strict_eq_val (rget r ''ItemIdentifier'') ident \<and> passesFilter h r}"
  by (auto simp: selectedScoredBullets_def bulletsFromSheet_def set_js_sort)

lemma sorted_selectedScoredBullets:
  "sorted_wrt (\<lambda>a b. js_ge (scoreOf h a) (scoreOf h b)) (selectedScoredBullets h rows t ident)"
  unfolding selectedScoredBullets_def byScoreDescending_def
  by (rule sorted_js_sort) (auto dest: passesFilter_score)

lemma take_drop_sorted:
  assumes "sorted_wrt P xs" and "a \<in> set (take n xs)" and "b \<in> set (drop n xs)"
  shows "P a b"
proof -
  have "sorted_wrt P (take n xs @ drop n xs)" using assms(1) by simp
  then show ?thesis using assms(2,3) unfolding sorted_wrt_append by blast
qed

lemma tailoredItem_cases:
  assumes "it \<in> set (tailoredItem h rows t ident cap key m)"
  shows "take cap (selectedScoredBullets h rows t ident) \<noteq> [] \<and>
         it = AList.update key
                (Arr (map Prim (map (getBulletTextToUse h) (take cap (selectedScoredBullets h rows t ident))))) m"
  using assms by (auto simp: tailoredItem_def Let_def split: if_splits)

lemma tailoredItem_empty:
  "selectedScoredBullets h rows t ident = [] \<Longrightarrow> tailoredItem h rows t ident cap key m = []"
  by (simp add: tailoredItem_def)


section \<open>Properties of the text of a bullet\<close>

lemmas str_eval = trim_def isSpace_def toUpperCase_def toUpperCase_char_def toLowerCase_def
  toLowerCase_char_def startsWith_def endsWith_def

lemma toUpperCase_TAILOR_FAIL: "toUpperCase ''TAILOR_FAIL'' = ''TAILOR_FAIL''"
  by (simp add: toUpperCase_def toUpperCase_char_def)

lemma startsWith_toUpperCase_mono:
  "startsWith s p \<Longrightarrow> startsWith (toUpperCase s) (toUpperCase p)"
  unfolding startsWith_def toUpperCase_def
  by (metis length_map take_map)

lemma startsWith_TAILOR_FAIL_upper:
  "startsWith s ''TAILOR_FAIL'' \<Longrightarrow> startsWith (toUpperCase s) ''TAILOR_FAIL''"
  using startsWith_toUpperCase_mono [of s "''TAILOR_FAIL''"]
  by (simp only: toUpperCase_TAILOR_FAIL)

lemma truthy_iff:
  "truthy c \<longleftrightarrow> c \<notin> {CUndef, CNull, CStr [], CBool False, CNum (Fin 0), CNum NaN}"
  by (cases c) auto

text \<open>
  C4 (as amended).  The text used for a scored entry is the trimmed tailored text when
  the tailored cell is truthy (it is not missing, the empty string, \<open>false\<close>, \<open>0\<close> or
  \<open>NaN\<close>), its text is non-blank, is not the "not suitable" sentence in any letter case
  and does not begin with \<open>TAILOR_FAIL\<close> in any letter case; when the cell is falsy or
  blank, is that sentence, or begins with \<open>TAILOR_FAIL\<close>, it is the original text.
\<close>

theorem getBulletTextToUse_resolution:
  "(truthy (rget e ''TailoredBulletText(Stage2)'') \<and> trim (tailoredText h e) \<noteq> [] \<and>
    toLowerCase (tailoredText h e) \<noteq> NOT_SUITABLE \<and>
    \<not> startsWith (toUpperCase (tailoredText h e)) ''TAILOR_FAIL''
      \<longrightarrow> getBulletTextToUse h e = CStr (trim (tailoredText h e))) \<and>
   (\<not> truthy (rget e ''TailoredBulletText(Stage2)'') \<or> trim (tailoredText h e) = [] \<or>
    toLowerCase (tailoredText h e) = NOT_SUITABLE \<or>
    startsWith (toUpperCase (tailoredText h e)) ''TAILOR_FAIL'' \<or>
    startsWith (tailoredText h e) ''TAILOR_FAIL''
      \<longrightarrow> getBulletTextToUse h e = rget e ''OriginalBulletText'') \<and>
   (rget e ''TailoredBulletText(Stage2)'' \<in>
      {CUndef, CNull, CStr [], CBool False, CNum (Fin 0), CNum NaN}
      \<longrightarrow> getBulletTextToUse h e = rget e ''OriginalBulletText'') \<and>
   (rget e ''TailoredBulletText(Stage2)'' \<notin>
      {CUndef, CNull, CStr [], CBool False, CNum (Fin 0), CNum NaN}
      \<longrightarrow> truthy (rget e ''TailoredBulletText(Stage2)''))"
  using startsWith_TAILOR_FAIL_upper [of "tailoredText h e"]
    truthy_iff [of "rget e ''TailoredBulletText(Stage2)''"]
  by (auto simp: getBulletTextToUse_def Let_def)

theorem getBulletTextToUse_resolution_witness:
  "getBulletTextToUse sample_host
     [(''OriginalBulletText'', CStr ''Built X''),
      (''TailoredBulletText(Stage2)'', CStr ''Delivered X for 3 teams'')]
     = CStr ''Delivered X for 3 teams'' \<and>
   getBulletTextToUse sample_host
     [(''OriginalBulletText'', CStr ''Built X''),
      (''TailoredBulletText(Stage2)'', CStr ''TAILOR_FAIL/SKIP: ERROR: Invalid JD analysis.'')]
     = CStr ''Built X'' \<and>
   getBulletTextToUse sample_host
     [(''OriginalBulletText'', CStr ''Built X''), (''TailoredBulletText(Stage2)'', CNum (Fin 0))]
     = CStr ''Built X'' \<and>
   getBulletTextToUse sample_host
     [(''OriginalBulletText'', CStr ''Built X''), (''TailoredBulletText(Stage2)'', CNum (Fin 7))]
     = CStr ''7''"
proof -
  let ?e1 = "[(''OriginalBulletText'', CStr ''Built X''),
      (''TailoredBulletText(Stage2)'', CStr ''Delivered X for 3 teams'')]"
  let ?e2 = "[(''OriginalBulletText'', CStr ''Built X''),
      (''TailoredBulletText(Stage2)'', CStr ''TAILOR_FAIL/SKIP: ERROR: Invalid JD analysis.'')]"
  let ?e3 = "[(''OriginalBulletText'', CStr ''Built X''),
      (''TailoredBulletText(Stage2)'', CNum (Fin 0))]"
  let ?e4 = "[(''OriginalBulletText'', CStr ''Built X''),
      (''TailoredBulletText(Stage2)'', CNum (Fin 7))]"
  have a: "getBulletTextToUse sample_host ?e1 = CStr ''Delivered X for 3 teams''"
    using getBulletTextToUse_resolution [of ?e1 sample_host]
    by (simp add: rget_def str_eval NOT_SUITABLE_def)
  have b: "getBulletTextToUse sample_host ?e2 = CStr ''Built X''"
    using getBulletTextToUse_resolution [of ?e2 sample_host]
    by (simp add: rget_def str_eval NOT_SUITABLE_def)
  have c: "getBulletTextToUse sample_host ?e3 = CStr ''Built X''"
    using getBulletTextToUse_resolution [of ?e3 sample_host]
    by (simp add: rget_def)
  have t4: "truthy (rget ?e4 ''TailoredBulletText(Stage2)'')"
    using getBulletTextToUse_resolution [of ?e4 sample_host] by (simp add: rget_def)
  have s4: "trim (tailoredText sample_host ?e4) = ''7'' \<and>
            toLowerCase (tailoredText sample_host ?e4) \<noteq> NOT_SUITABLE \<and>
            \<not> startsWith (toUpperCase (tailoredText sample_host ?e4)) ''TAILOR_FAIL''"
    by code_simp
  have d: "getBulletTextToUse sample_host ?e4 = CStr ''7''"
    using getBulletTextToUse_resolution [of ?e4 sample_host] t4 s4 by simp
  from a b c d show ?thesis by (intro conjI)
qed

text \<open>
  The claim as stated fails: a tailored text that is non-blank, is not the sentence and
  does not begin with \<open>TAILOR_FAIL\<close> (it begins with \<open>tailor_fail\<close>) is not used;
  a tailored text with leading blanks is used without them; and a tailored cell that
  holds \<open>FALSE\<close>, whose text is non-blank, is not used.
\<close>

theorem getBulletTextToUse_counterexample:
  "trim ''tailor_fail: retry'' \<noteq> [] \<and>
   toLowerCase ''tailor_fail: retry'' \<noteq> NOT_SUITABLE \<and>
   \<not> startsWith ''tailor_fail: retry'' ''TAILOR_FAIL'' \<and>
   getBulletTextToUse sample_host
     [(''OriginalBulletText'', CStr ''Built X''),
      (''TailoredBulletText(Stage2)'', CStr ''tailor_fail: retry'')]
     = CStr ''Built X'' \<and>
   getBulletTextToUse sample_host
     [(''OriginalBulletText'', CStr ''Built X''),
      (''TailoredBulletText(Stage2)'', CStr ''  Led Y'')]
     = CStr ''Led Y'' \<and>
   trim (String_cell sample_host (CBool False)) = ''false'' \<and>
   getBulletTextToUse sample_host
     [(''OriginalBulletText'', CStr ''Built X''), (''TailoredBulletText(Stage2)'', CBool False)]
     = CStr ''Built X''"
  by (simp add: getBulletTextToUse_def rget_def str_eval NOT_SUITABLE_def)

section \<open>The structure of the final sections\<close>

lemma dynamicSections_cases:
  assumes "dynamicSections h M R = Inr d" and "s \<in> set d"
  shows "sectionHasContent s \<and>
         (s = tailoredExperienceSection h M R \<or> s = tailoredProjectsSection h M R \<or>
          s = tailoredLeadershipSection h M R \<or> tailoredTechSkillsSection h M R = Inr s)"
proof (cases "tailoredTechSkillsSection h M R")
  case (Inl e)
  with assms(1) show ?thesis by (simp add: dynamicSections_def)
next
  case (Inr x)
  with assms(1) have "d = filter sectionHasContent
      [tailoredExperienceSection h M R, tailoredProjectsSection h M R,
       tailoredLeadershipSection h M R, x]"
    by (simp add: dynamicSections_def)
  with assms(2) have "sectionHasContent s" and
    "s \<in> set [tailoredExperienceSection h M R, tailoredProjectsSection h M R,
       tailoredLeadershipSection h M R, x]"
    by (simp_all only: set_filter mem_Collect_eq)
  with Inr show ?thesis by auto
qed

lemma find_SomeD: "find P xs = Some x \<Longrightarrow> x \<in> set xs \<and> P x"
  by (auto simp: find_Some_iff)

lemma staticSections_cases:
  assumes "s \<in> set (staticSections h M d)"
  shows "\<exists>ms \<in> set (sections M). s = json_copy_section h ms \<and>
           \<not> isStaticSectionEffectivelyEmpty ms \<and>
           toUpperCase (title ms) \<notin> set (map (\<lambda>x. toUpperCase (title x)) d)"
proof -
  from assms obtain t where t: "toUpperCase t \<notin> set (map (\<lambda>x. toUpperCase (title x)) d)"
    and s: "s \<in> set (case find (\<lambda>s. title s \<noteq> [] \<and> toUpperCase (title s) = toUpperCase t) (sections M) of
                   None \<Rightarrow> []
                 | Some staticSectionData \<Rightarrow>
                     if \<not> isStaticSectionEffectivelyEmpty staticSectionData
                     then [json_copy_section h staticSectionData]
                     else [])"
    by (auto simp: staticSections_def Let_def split: if_splits)
  show ?thesis
  proof (cases "find (\<lambda>s. title s \<noteq> [] \<and> toUpperCase (title s) = toUpperCase t) (sections M)")
    case None
    with s show ?thesis by simp
  next
    case (Some ms)
    with s have e: "\<not> isStaticSectionEffectivelyEmpty ms" and eq: "s = json_copy_section h ms"
      by (auto split: if_splits)
    from find_SomeD [OF Some] have "ms \<in> set (sections M)" and "toUpperCase (title ms) = toUpperCase t"
      by auto
    with t have "toUpperCase (title ms) \<notin> set (map (\<lambda>x. toUpperCase (title x)) d)"
      by simp
    with \<open>ms \<in> set (sections M)\<close> e eq show ?thesis by blast
  qed
qed

lemma finalSections_cases:
  assumes "finalSections h M R = Inr final" and "s \<in> set final"
  shows "\<exists>d. dynamicSections h M R = Inr d \<and> (s \<in> set d \<or> s \<in> set (staticSections h M d))"
  using assms by (auto simp: finalSections_def set_js_sort split: sum.splits)

lemma oget_update: "oget (AList.update k v m) k' = (if k' = k then v else oget m k')"
  by (simp add: oget_def update_conv')

lemma masterItemsOf_mem:
  assumes "m \<in> set (masterItemsOf M t)"
  shows "\<exists>ms \<in> set (sections M). title ms = t \<and> m \<in> set (sectionItems ms)"
proof (cases "find (\<lambda>s. title s = t) (sections M)")
  case None
  with assms show ?thesis by (simp add: masterItemsOf_def)
next
  case (Some ms)
  from find_SomeD [OF Some] have ms: "ms \<in> set (sections M)" "title ms = t" by auto
  from assms Some have "m \<in> set (sectionItems ms)"
    by (cases "items ms") (auto simp: masterItemsOf_def sectionItems_def)
  with ms show ?thesis by auto
qed

lemma experience_item:
  assumes "it \<in> set (sectionItems (tailoredExperienceSection h M R))"
  shows "\<exists>m \<in> set (masterItemsOf M ''EXPERIENCE'').
           it \<in> set (tailoredItem h R ''EXPERIENCE'' (oget m ''company'')
                        STAGE3_MAX_BULLETS_PER_JOB ''responsibilities'' m)"
  using assms by (auto simp: sectionItems_def tailoredExperienceSection_def)

lemma leadership_item:
  assumes "it \<in> set (sectionItems (tailoredLeadershipSection h M R))"
  shows "\<exists>m \<in> set (masterItemsOf M ''LEADERSHIP & UNIVERSITY INVOLVEMENT'').
           it \<in> set (tailoredItem h R ''LEADERSHIP & UNIVERSITY INVOLVEMENT''
                        (vor (oget m ''organization'') (oget m ''role''))
                        STAGE3_MAX_BULLETS_PER_JOB ''responsibilities'' m)"
  using assms by (auto simp: sectionItems_def tailoredLeadershipSection_def)

lemma project_item:
  assumes "it \<in> set (sectionItems (tailoredProjectsSection h M R))"
  shows "\<exists>m \<in> set (masterProjectsOf M).
           it \<in> set (tailoredItem h R ''PROJECTS'' (oget m ''projectName'')
                        STAGE3_MAX_BULLETS_PER_PROJECT ''descriptionBullets'' m)"
proof (cases "find (\<lambda>s. title s = ''PROJECTS'') (sections M)")
  case None
  with assms show ?thesis
    by (simp add: sectionItems_def tailoredProjectsSection_def)
next
  case (Some p)
  show ?thesis
  proof (cases "subsections p")
    case None
    with assms Some show ?thesis
      by (simp add: sectionItems_def tailoredProjectsSection_def)
  next
    case (Some subs)
    with assms \<open>find (\<lambda>s. title s = ''PROJECTS'') (sections M) = Some p\<close>
    obtain sub where sub: "sub \<in> set subs"
      and it: "it \<in> set (tailoredProjectItems h R sub)"
      by (auto simp: sectionItems_def tailoredProjectsSection_def subsectionItems_def Let_def
          split: if_splits)
    from it obtain m where m: "m \<in> set (subsectionItems sub)"
      and t: "it \<in> set (tailoredItem h R ''PROJECTS'' (oget m ''projectName'')
                        STAGE3_MAX_BULLETS_PER_PROJECT ''descriptionBullets'' m)"
      by (auto simp: tailoredProjectItems_def subsectionItems_def)
    from sub m Some \<open>find (\<lambda>s. title s = ''PROJECTS'') (sections M) = Some p\<close>
    have "m \<in> set (masterProjectsOf M)"
      by (auto simp: masterProjectsOf_def)
    with t show ?thesis by blast
  qed
qed


lemma pushToCategory_items:
  "set (concat (map subsectionItems (pushToCategory c it subs))) =
     insert it (set (concat (map subsectionItems subs)))"
  by (induction subs) (auto simp: subsectionItems_def split: option.splits)

lemma groupTechItems_items:
  assumes "groupTechItems ms sel acc = Inr res"
    and "it \<in> set (concat (map subsectionItems res))"
  shows "it \<in> set (concat (map subsectionItems acc)) \<or>
         (\<exists>r \<in> set sel. \<exists>c. resolveTechItem ms r = Inr (c, it))"
  using assms
proof (induction sel arbitrary: acc)
  case Nil
  then show ?case by simp
next
  case (Cons r sel)
  from Cons.prems(1) obtain c x where r: "resolveTechItem ms r = Inr (c, x)"
    and g: "groupTechItems ms sel (pushToCategory c x acc) = Inr res"
    by (auto split: sum.splits)
  from Cons.IH [OF g Cons.prems(2)]
  have "it \<in> set (concat (map subsectionItems (pushToCategory c x acc))) \<or>
        (\<exists>r \<in> set sel. \<exists>c. resolveTechItem ms r = Inr (c, it))" .
  then show ?case
  proof
    assume "it \<in> set (concat (map subsectionItems (pushToCategory c x acc)))"
    then have "it = x \<or> it \<in> set (concat (map subsectionItems acc))"
      by (simp only: pushToCategory_items insert_iff)
    with r show ?thesis by auto
  next
    assume "\<exists>r \<in> set sel. \<exists>c. resolveTechItem ms r = Inr (c, it)"
    then show ?thesis by auto
  qed
qed

lemma tech_item:
  assumes "tailoredTechSkillsSection h M R = Inr s" and "it \<in> set (sectionItems s)"
  shows "\<exists>r \<in> set R.
           strict_eq (rget r ''Section'') (CStr ''TECHNICAL SKILLS & CERTIFICATES'') \<and>
           passesFilter h r \<and>
           (\<exists>c. resolveTechItem (masterTechSubsections M) r = Inr (c, it))"
proof -
  from assms(1) obtain subs where
    g: "groupTechItems (masterTechSubsections M) (selectedTechItemsFromSheet h R) [] = Inr subs"
    and s: "s = \<lparr> title = ''TECHNICAL SKILLS & CERTIFICATES'', items = None,
                subsections = Some (filter hasItems subs) \<rparr>"
    by (auto simp: tailoredTechSkillsSection_def split: sum.splits)
  from assms(2) s have "it \<in> set (concat (map subsectionItems (filter hasItems subs)))"
    by (simp add: sectionItems_def)
  then have "it \<in> set (concat (map subsectionItems subs))" by auto
  from groupTechItems_items [OF g this]
  obtain r c where "r \<in> set (selectedTechItemsFromSheet h R)"
    and "resolveTechItem (masterTechSubsections M) r = Inr (c, it)"
    by auto
  then show ?thesis by (auto simp: selectedTechItemsFromSheet_def)
qed


section \<open>Stage 3: filtering\<close>

lemma dynamic_item:
  assumes "s = tailoredExperienceSection h M R \<or> s = tailoredProjectsSection h M R \<or>
           s = tailoredLeadershipSection h M R"
    and "it \<in> set (sectionItems s)"
  shows "\<exists>m \<in> set (masterItemsFor M (title s)).
           it \<in> set (tailoredItem h R (title s) (naturalKey (title s) m)
                        (maxBulletsFor (title s)) (bulletsKeyFor (title s)) m)"
proof -
  consider (e) "s = tailoredExperienceSection h M R" | (p) "s = tailoredProjectsSection h M R"
    | (l) "s = tailoredLeadershipSection h M R" using assms(1) by blast
  then show ?thesis
  proof cases
    case e
    then have "title s = ''EXPERIENCE''" by (simp add: tailoredExperienceSection_def)
    with experience_item [of it h M R] assms(2) e show ?thesis
      by (simp add: masterItemsFor_def naturalKey_def maxBulletsFor_def bulletsKeyFor_def)
  next
    case p
    then have "title s = ''PROJECTS''" by (simp add: tailoredProjectsSection_def)
    with project_item [of it h M R] assms(2) p show ?thesis
      by (simp add: masterItemsFor_def naturalKey_def maxBulletsFor_def bulletsKeyFor_def)
  next
    case l
    then have "title s = ''LEADERSHIP & UNIVERSITY INVOLVEMENT''"
      by (simp add: tailoredLeadershipSection_def)
    with leadership_item [of it h M R] assms(2) l show ?thesis
      by (simp add: masterItemsFor_def naturalKey_def maxBulletsFor_def bulletsKeyFor_def)
  qed
qed

text \<open>
  C1 (as amended).  Every item of every section of the final resume is of one of three
  kinds.  Either its section was copied from the master resume, which happens only when
  the dynamic assembly pushed no section of that title; or the item was built from a
  master item and a non-empty list of rows of the scoring sheet, each of which belongs
  to that item, has a score of at least the threshold and a selection flag that is
  \<open>YES\<close>, \<open>TRUE\<close>, \<open>1\<close> or \<open>X\<close> once in upper case and trimmed, and the
  item's bullets are the texts of exactly these rows; or it is the skill or certificate
  resolved for such a row of TECHNICAL SKILLS & CERTIFICATES.
\<close>


theorem stage3_bullets_from_selected_rows:
  assumes "finalSections h M R = Inr final" and "s \<in> set final" and "it \<in> set (sectionItems s)"
  shows "(\<exists>ms \<in> set (sections M). s = json_copy_section h ms \<and>
            (\<forall>d. dynamicSections h M R = Inr d \<longrightarrow>
                 toUpperCase (title s) \<notin> set (map (\<lambda>x. toUpperCase (title x)) d))) \<or>
         (\<exists>m \<in> set (masterItemsFor M (title s)). \<exists>sel. sel \<noteq> [] \<and>
            (\<forall>r \<in> set sel. r \<in> set R \<and>
               strict_eq (rget r ''Section'') (CStr (title s)) \<and>
               strict_eq_val (rget r ''ItemIdentifier'') (naturalKey (title s) m) \<and>
               js_ge (parseFloat_cell h (rget r ''RelevanceScore''))
                     STAGE3_FINAL_INCLUSION_SCORE_THRESHOLD \<and>
               trim (toUpperCase (String_cell h (rget r ''SelectToTailor(Manual)'')))
                 \<in> {''YES'', ''TRUE'', ''1'', ''X''}) \<and>
            it = AList.update (bulletsKeyFor (title s))
                   (Arr (map (\<lambda>r. Prim (getBulletTextToUse h r)) sel)) m \<and>
            bulletsOf it (bulletsKeyFor (title s)) = map (\<lambda>r. Prim (getBulletTextToUse h r)) sel) \<or>
         (\<exists>r \<in> set R.
            strict_eq (rget r ''Section'') (CStr ''TECHNICAL SKILLS & CERTIFICATES'') \<and>
            js_ge (parseFloat_cell h (rget r ''RelevanceScore''))
                  STAGE3_FINAL_INCLUSION_SCORE_THRESHOLD \<and>
            trim (toUpperCase (String_cell h (rget r ''SelectToTailor(Manual)'')))
              \<in> {''YES'', ''TRUE'', ''1'', ''X''} \<and>
            (\<exists>c. resolveTechItem (masterTechSubsections M) r = Inr (c, it)))"
proof -
  from finalSections_cases [OF assms(1,2)] obtain d where d: "dynamicSections h M R = Inr d"
    and c: "s \<in> set d \<or> s \<in> set (staticSections h M d)" by blast
  from c show ?thesis
  proof
    assume "s \<in> set (staticSections h M d)"
    from staticSections_cases [OF this] obtain ms where "ms \<in> set (sections M)"
      and "s = json_copy_section h ms"
      and "toUpperCase (title ms) \<notin> set (map (\<lambda>x. toUpperCase (title x)) d)" by blast
    moreover have "title (json_copy_section h ms) = title ms"
      by (simp add: json_copy_section_def)
    ultimately show ?thesis using d by auto
  next
    assume "s \<in> set d"
    from dynamicSections_cases [OF d this]
    have "(s = tailoredExperienceSection h M R \<or> s = tailoredProjectsSection h M R \<or>
           s = tailoredLeadershipSection h M R) \<or> tailoredTechSkillsSection h M R = Inr s"
      by blast
    then show ?thesis
    proof
      assume "s = tailoredExperienceSection h M R \<or> s = tailoredProjectsSection h M R \<or>
           s = tailoredLeadershipSection h M R"
      from dynamic_item [OF this assms(3)] obtain m where m: "m \<in> set (masterItemsFor M (title s))"
        and "it \<in> set (tailoredItem h R (title s) (naturalKey (title s) m)
                        (maxBulletsFor (title s)) (bulletsKeyFor (title s)) m)" by blast
      from tailoredItem_cases [OF this(2)]
      have ne: "take (maxBulletsFor (title s))
                  (selectedScoredBullets h R (title s) (naturalKey (title s) m)) \<noteq> []"
        and it: "it = AList.update (bulletsKeyFor (title s))
                (Arr (map Prim (map (getBulletTextToUse h) (take (maxBulletsFor (title s))
                  (selectedScoredBullets h R (title s) (naturalKey (title s) m)))))) m"
        by auto
      let ?sel = "take (maxBulletsFor (title s))
                    (selectedScoredBullets h R (title s) (naturalKey (title s) m))"
      have q: "\<forall>r \<in> set ?sel. r \<in> set R \<and>
                 strict_eq (rget r ''Section'') (CStr (title s)) \<and>
                 strict_eq_val (rget r ''ItemIdentifier'') (naturalKey (title s) m) \<and>
                 passesFilter h r"
        using set_selectedScoredBullets [of h R "title s" "naturalKey (title s) m"]
        by (auto dest: in_set_takeD)
      have it': "it = AList.update (bulletsKeyFor (title s))
                        (Arr (map (\<lambda>r. Prim (getBulletTextToUse h r)) ?sel)) m"
        using it by (simp add: comp_def)
      then have "bulletsOf it (bulletsKeyFor (title s)) = map (\<lambda>r. Prim (getBulletTextToUse h r)) ?sel"
        by (simp add: bulletsOf_def oget_update)
      with ne q it' m show ?thesis
        unfolding passesFilter_def isSelected_def
        by (intro disjI2 disjI1 bexI [of _ m] exI [of _ ?sel]) simp_all
    next
      assume "tailoredTechSkillsSection h M R = Inr s"
      from tech_item [OF this assms(3)] show ?thesis
        unfolding passesFilter_def isSelected_def by auto
    qed
  qed
qed


theorem stage3_bullets_from_selected_rows_witness:
  "finalSections sample_host masterA rowsA = Inr [educationSection, experienceA] \<and>
   acmeTailored \<in> set (sectionItems experienceA) \<and>
   ((\<exists>ms \<in> set (sections masterA). experienceA = json_copy_section sample_host ms \<and>
            (\<forall>d. dynamicSections sample_host masterA rowsA = Inr d \<longrightarrow>
                 toUpperCase (title experienceA) \<notin> set (map (\<lambda>x. toUpperCase (title x)) d))) \<or>
         (\<exists>m \<in> set (masterItemsFor masterA (title experienceA)). \<exists>sel. sel \<noteq> [] \<and>
            (\<forall>r \<in> set sel. r \<in> set rowsA \<and>
               strict_eq (rget r ''Section'') (CStr (title experienceA)) \<and>
               strict_eq_val (rget r ''ItemIdentifier'') (naturalKey (title experienceA) m) \<and>
               js_ge (parseFloat_cell sample_host (rget r ''RelevanceScore''))
                     STAGE3_FINAL_INCLUSION_SCORE_THRESHOLD \<and>
               trim (toUpperCase (String_cell sample_host (rget r ''SelectToTailor(Manual)'')))
                 \<in> {''YES'', ''TRUE'', ''1'', ''X''}) \<and>
            acmeTailored = AList.update (bulletsKeyFor (title experienceA))
                   (Arr (map (\<lambda>r. Prim (getBulletTextToUse sample_host r)) sel)) m \<and>
            bulletsOf acmeTailored (bulletsKeyFor (title experienceA)) =
              map (\<lambda>r. Prim (getBulletTextToUse sample_host r)) sel) \<or>
         (\<exists>r \<in> set rowsA.
            strict_eq (rget r ''Section'') (CStr ''TECHNICAL SKILLS & CERTIFICATES'') \<and>
            js_ge (parseFloat_cell sample_host (rget r ''RelevanceScore''))
                  STAGE3_FINAL_INCLUSION_SCORE_THRESHOLD \<and>
            trim (toUpperCase (String_cell sample_host (rget r ''SelectToTailor(Manual)'')))
              \<in> {''YES'', ''TRUE'', ''1'', ''X''} \<and>
            (\<exists>c. resolveTechItem (masterTechSubsections masterA) r = Inr (c, acmeTailored))))"
proof -
  have fin: "finalSections sample_host masterA rowsA = Inr [educationSection, experienceA]"
    by code_simp
  have s: "experienceA \<in> set [educationSection, experienceA]" by simp
  have it: "acmeTailored \<in> set (sectionItems experienceA)"
    by (simp add: sectionItems_def experienceA_def)
  from fin it stage3_bullets_from_selected_rows [OF fin s it] show ?thesis
    by (intro conjI)
qed

text \<open>
  The claim as stated fails: when no row of the sheet passes the filter, the
  EXPERIENCE section of the final resume is the master's, with its bullet.
\<close>

theorem stage3_bullets_from_selected_rows_counterexample:
  "finalSections sample_host masterB rowsB =
     Inr [\<lparr> title = ''EXPERIENCE'', items = Some [globexJob], subsections = None \<rparr>] \<and>
   bulletsOf globexJob ''responsibilities'' = [Prim (CStr ''Filed reports'')] \<and>
   filter (passesFilter sample_host) rowsB = []"
  by code_simp


section \<open>Stage 3: the number of bullets\<close>

lemma bulletsOf_update:
  "bulletsOf (AList.update key (Arr xs) m) k = (if k = key then xs else bulletsOf m k)"
  by (simp add: bulletsOf_def oget_update)

lemma bounded_bulletsOf:
  assumes "list_all bulletArrayBounded m" and "k = ''responsibilities'' \<or> k = ''descriptionBullets''"
  shows "length (bulletsOf m k) \<le> NUM_DEDICATED_BULLET_COLUMNS"
proof (cases "map_of m k")
  case None
  then show ?thesis by (simp add: bulletsOf_def oget_def)
next
  case (Some v)
  then have "(k, v) \<in> set m" by (rule map_of_SomeD)
  with assms(1) have "bulletArrayBounded (k, v)" by (auto simp: list_all_iff)
  with assms(2) Some show ?thesis
    by (cases v) (auto simp: bulletArrayBounded_def bulletsOf_def oget_def)
qed

lemma json_copy_bounded:
  "bulletArrayBounded (k, v) \<Longrightarrow> bulletArrayBounded (k, json_copy h v)"
  by (cases v) (auto simp: bulletArrayBounded_def)

lemma json_copy_obj_bounded:
  assumes "list_all bulletArrayBounded m"
  shows "list_all bulletArrayBounded (json_copy_obj h m)"
  using assms json_copy_bounded
  by (auto simp: json_copy_obj_def list_all_iff map_prod_def split: prod.splits)

lemma sectionItems_json_copy:
  "sectionItems (json_copy_section h ms) = map (json_copy_obj h) (sectionItems ms)"
  by (cases "items ms"; cases "subsections ms")
     (auto simp: sectionItems_def json_copy_section_def json_copy_subsection_def subsectionItems_def
        map_concat comp_def split: option.splits intro!: arg_cong [where f = concat])

lemma masterBulletsBounded_item:
  assumes "masterBulletsBounded M" and "ms \<in> set (sections M)" and "m \<in> set (sectionItems ms)"
  shows "list_all bulletArrayBounded m"
  using assms by (auto simp: masterBulletsBounded_def list_all_iff)

lemma masterProjectsOf_mem:
  assumes "m \<in> set (masterProjectsOf M)"
  shows "\<exists>ms \<in> set (sections M). m \<in> set (sectionItems ms)"
proof (cases "find (\<lambda>s. title s = ''PROJECTS'') (sections M)")
  case None
  with assms show ?thesis by (simp add: masterProjectsOf_def)
next
  case (Some p)
  from find_SomeD [OF Some] have "p \<in> set (sections M)" by simp
  moreover from assms Some have "m \<in> set (sectionItems p)"
    by (auto simp: masterProjectsOf_def sectionItems_def)
  ultimately show ?thesis by blast
qed

lemma masterItemsFor_mem:
  assumes "m \<in> set (masterItemsFor M t)"
  shows "\<exists>ms \<in> set (sections M). m \<in> set (sectionItems ms)"
  using assms masterProjectsOf_mem [of m M] masterItemsOf_mem [of m M t]
  by (auto simp: masterItemsFor_def split: if_splits)

lemma findMasterItem_mem: "findMasterItem its ident = Inr (Some x) \<Longrightarrow> x \<in> set its"
  by (induction its) (auto split: sum.splits bool.splits if_splits)

lemma locateInMaster_mem:
  "locateInMaster subs ident = Inr (Some (c, x)) \<Longrightarrow> x \<in> set (concat (map subsectionItems subs))"
proof (induction subs)
  case Nil
  then show ?case by simp
next
  case (Cons sub subs)
  show ?case
  proof (cases "ss_items sub")
    case None
    with Cons.prems show ?thesis by simp
  next
    case (Some its)
    show ?thesis
    proof (cases "findMasterItem its ident")
      case (Inl e)
      with Cons.prems Some show ?thesis by simp
    next
      case (Inr r)
      show ?thesis
      proof (cases r)
        case None
        with Cons Some Inr show ?thesis by simp
      next
        case (Some y)
        with Cons.prems \<open>ss_items sub = Some its\<close> Inr have "x = y" by simp
        with findMasterItem_mem [of its ident y] Inr Some \<open>ss_items sub = Some its\<close>
        show ?thesis by (simp add: subsectionItems_def)
      qed
    qed
  qed
qed

lemma masterTechSubsections_mem:
  assumes "x \<in> set (concat (map subsectionItems (masterTechSubsections M)))"
  shows "\<exists>ms \<in> set (sections M). x \<in> set (sectionItems ms)"
proof (cases "find (\<lambda>s. title s = ''TECHNICAL SKILLS & CERTIFICATES'') (sections M)")
  case None
  with assms show ?thesis by (simp add: masterTechSubsections_def)
next
  case (Some p)
  from find_SomeD [OF Some] have "p \<in> set (sections M)" by simp
  moreover from assms Some have "x \<in> set (sectionItems p)"
    by (cases "subsections p") (auto simp: masterTechSubsections_def sectionItems_def)
  ultimately show ?thesis by blast
qed

lemma resolveTechItem_bounded:
  assumes "masterBulletsBounded M" and "resolveTechItem (masterTechSubsections M) r = Inr (c, it)"
  shows "list_all bulletArrayBounded it"
proof (cases "locateInMaster (masterTechSubsections M) (rget r ''ItemIdentifier'')")
  case (Inl e)
  with assms(2) show ?thesis by (simp add: resolveTechItem_def)
next
  case (Inr found)
  show ?thesis
  proof (cases found)
    case None
    with assms(2) Inr show ?thesis
      by (auto simp: resolveTechItem_def bulletArrayBounded_def)
  next
    case (Some cx)
    obtain c' x where cx: "cx = (c', x)" by (cases cx)
    with assms(2) Inr Some have "it = x" by (simp add: resolveTechItem_def)
    moreover from locateInMaster_mem [of "masterTechSubsections M" _ c' x] Inr Some cx
    have "x \<in> set (concat (map subsectionItems (masterTechSubsections M)))" by simp
    from masterTechSubsections_mem [OF this] obtain ms where "ms \<in> set (sections M)"
      and "x \<in> set (sectionItems ms)" by blast
    ultimately show ?thesis using masterBulletsBounded_item [OF assms(1)] by blast
  qed
qed


section \<open>Stage 3: which sections are built and which are copied\<close>

lemma hasItems_concat:
  "list_ex hasItems subs \<longleftrightarrow> concat (map subsectionItems subs) \<noteq> []"
  by (induction subs) (auto simp: hasItems_def subsectionItems_def split: option.splits)

lemma sectionHasContent_iff:
  assumes "items s = None \<or> subsections s = None"
  shows "sectionHasContent s \<longleftrightarrow> sectionItems s \<noteq> []"
proof (cases "items s")
  case None
  show ?thesis
  proof (cases "subsections s")
    case n: None
    with None show ?thesis by (simp add: sectionHasContent_def sectionItems_def)
  next
    case (Some subs)
    with None show ?thesis
      by (simp add: sectionHasContent_def sectionItems_def hasItems_concat)
  qed
next
  case (Some xs)
  with assms have "subsections s = None" by simp
  with Some show ?thesis by (simp add: sectionHasContent_def sectionItems_def)
qed

lemma passing_iff:
  "selectedScoredBullets h R t ident \<noteq> [] \<longleftrightarrow>
   filter (passesFilter h) (bulletsFromSheet R t ident) \<noteq> []"
proof -
  have "length (selectedScoredBullets h R t ident) =
        length (filter (passesFilter h) (bulletsFromSheet R t ident))"
    by (simp add: selectedScoredBullets_def length_js_sort)
  then show ?thesis by (metis length_0_conv)
qed

lemma tailoredItem_built:
  assumes "filter (passesFilter h) (bulletsFromSheet R t ident) \<noteq> []" and "0 < cap"
  shows "tailoredItem h R t ident cap key m =
           [AList.update key
              (Arr (map (\<lambda>r. Prim (getBulletTextToUse h r))
                      (take cap (selectedScoredBullets h R t ident)))) m]"
proof -
  from assms(1) have ne: "selectedScoredBullets h R t ident \<noteq> []" by (simp add: passing_iff)
  with assms(2) have "take cap (selectedScoredBullets h R t ident) \<noteq> []" by (simp add: take_eq_Nil)
  with ne show ?thesis by (simp add: tailoredItem_def Let_def comp_def)
qed

lemma tailoredItem_none:
  assumes "filter (passesFilter h) (bulletsFromSheet R t ident) = []"
  shows "tailoredItem h R t ident cap key m = []"
proof -
  from assms have "selectedScoredBullets h R t ident = []" using passing_iff [of h R t ident] by simp
  then show ?thesis by (rule tailoredItem_empty)
qed

lemma maxBulletsFor_pos: "0 < maxBulletsFor t"
  by (simp add: maxBulletsFor_def STAGE3_MAX_BULLETS_PER_JOB_def STAGE3_MAX_BULLETS_PER_PROJECT_def)

lemma project_subsections_items:
  "concat (map subsectionItems (concat (map (\<lambda>sub.
       if f sub \<noteq> [] then [\<lparr> name = g sub, ss_items = Some (f sub) \<rparr>] else []) subs))) =
   concat (map f subs)"
  by (induction subs) (simp_all add: subsectionItems_def)

lemma project_items_concat:
  "concat (map (tailoredProjectItems h R) subs) =
   concat (map (\<lambda>m. tailoredItem h R ''PROJECTS'' (oget m ''projectName'')
                        STAGE3_MAX_BULLETS_PER_PROJECT ''descriptionBullets'' m)
             (concat (map subsectionItems subs)))"
  by (induction subs) (simp_all add: tailoredProjectItems_def subsectionItems_def)

lemma sectionItems_tailored:
  assumes "t \<in> {''EXPERIENCE'', ''PROJECTS'', ''LEADERSHIP & UNIVERSITY INVOLVEMENT''}"
  shows "sectionItems (tailoredSectionFor h M R t) =
           concat (map (\<lambda>m. tailoredItem h R t (naturalKey t m) (maxBulletsFor t) (bulletsKeyFor t) m)
                     (masterItemsFor M t))"
proof -
  consider (e) "t = ''EXPERIENCE''" | (p) "t = ''PROJECTS''"
    | (l) "t = ''LEADERSHIP & UNIVERSITY INVOLVEMENT''" using assms by blast
  then show ?thesis
  proof cases
    case e
    then show ?thesis
      by (simp add: tailoredSectionFor_def tailoredExperienceSection_def sectionItems_def
          masterItemsFor_def naturalKey_def maxBulletsFor_def bulletsKeyFor_def)
  next
    case l
    then show ?thesis
      by (simp add: tailoredSectionFor_def tailoredLeadershipSection_def sectionItems_def
          masterItemsFor_def naturalKey_def maxBulletsFor_def bulletsKeyFor_def)
  next
    case p
    have "sectionItems (tailoredProjectsSection h M R) =
          concat (map (\<lambda>m. tailoredItem h R ''PROJECTS'' (oget m ''projectName'')
                        STAGE3_MAX_BULLETS_PER_PROJECT ''descriptionBullets'' m)
                    (masterProjectsOf M))"
    proof (cases "find (\<lambda>s. title s = ''PROJECTS'') (sections M)")
      case None
      then show ?thesis
        by (simp add: tailoredProjectsSection_def sectionItems_def masterProjectsOf_def)
    next
      case (Some q)
      show ?thesis
      proof (cases "subsections q")
        case None
        with Some show ?thesis
          by (simp add: tailoredProjectsSection_def sectionItems_def masterProjectsOf_def)
      next
        case s: (Some subs)
        with Some show ?thesis
          by (simp add: tailoredProjectsSection_def sectionItems_def masterProjectsOf_def Let_def
              project_subsections_items project_items_concat)
      qed
    qed
    with p show ?thesis
      by (simp add: tailoredSectionFor_def masterItemsFor_def naturalKey_def maxBulletsFor_def
          bulletsKeyFor_def)
  qed
qed

lemma tailoredSectionFor_shape:
  assumes "t \<in> {''EXPERIENCE'', ''PROJECTS'', ''LEADERSHIP & UNIVERSITY INVOLVEMENT''}"
  shows "title (tailoredSectionFor h M R t) = t \<and>
         (items (tailoredSectionFor h M R t) = None \<or> subsections (tailoredSectionFor h M R t) = None)"
  using assms
  by (auto simp: tailoredSectionFor_def tailoredExperienceSection_def tailoredProjectsSection_def
      tailoredLeadershipSection_def)

lemma tailoredSectionFor_cases:
  "s = tailoredExperienceSection h M R \<or> s = tailoredProjectsSection h M R \<or>
   s = tailoredLeadershipSection h M R \<longleftrightarrow>
   (\<exists>t \<in> {''EXPERIENCE'', ''PROJECTS'', ''LEADERSHIP & UNIVERSITY INVOLVEMENT''}.
      s = tailoredSectionFor h M R t)"
  by (auto simp: tailoredSectionFor_def)

lemma upper_titles:
  "distinct (map toUpperCase [''EXPERIENCE'', ''PROJECTS'', ''LEADERSHIP & UNIVERSITY INVOLVEMENT'',
                              ''TECHNICAL SKILLS & CERTIFICATES''])"
  by code_simp

lemma upper_title_eq:
  assumes "a \<in> {''EXPERIENCE'', ''PROJECTS'', ''LEADERSHIP & UNIVERSITY INVOLVEMENT'',
                 ''TECHNICAL SKILLS & CERTIFICATES''}"
    and "b \<in> {''EXPERIENCE'', ''PROJECTS'', ''LEADERSHIP & UNIVERSITY INVOLVEMENT'',
               ''TECHNICAL SKILLS & CERTIFICATES''}"
    and "toUpperCase a = toUpperCase b"
  shows "a = b"
proof -
  let ?ts = "[''EXPERIENCE'', ''PROJECTS'', ''LEADERSHIP & UNIVERSITY INVOLVEMENT'',
              ''TECHNICAL SKILLS & CERTIFICATES'']"
  from upper_titles have "inj_on toUpperCase (set ?ts)" by (simp only: distinct_map)
  moreover from assms(1,2) have "a \<in> set ?ts" "b \<in> set ?ts" by simp_all
  ultimately show ?thesis using assms(3) by (metis inj_onD)
qed

lemma tech_title:
  "tailoredTechSkillsSection h M R = Inr s \<Longrightarrow> title s = ''TECHNICAL SKILLS & CERTIFICATES''"
  by (auto simp: tailoredTechSkillsSection_def split: sum.splits)

lemma dynamic_titles:
  assumes "dynamicSections h M R = Inr d" and "s \<in> set d"
  shows "title s \<in> {''EXPERIENCE'', ''PROJECTS'', ''LEADERSHIP & UNIVERSITY INVOLVEMENT'',
                    ''TECHNICAL SKILLS & CERTIFICATES''} \<and>
         (title s \<in> {''EXPERIENCE'', ''PROJECTS'', ''LEADERSHIP & UNIVERSITY INVOLVEMENT''} \<longrightarrow>
            s = tailoredSectionFor h M R (title s))"
proof -
  from dynamicSections_cases [OF assms]
  have "(s = tailoredExperienceSection h M R \<or> s = tailoredProjectsSection h M R \<or>
          s = tailoredLeadershipSection h M R) \<or> tailoredTechSkillsSection h M R = Inr s" by blast
  then show ?thesis
  proof
    assume "s = tailoredExperienceSection h M R \<or> s = tailoredProjectsSection h M R \<or>
          s = tailoredLeadershipSection h M R"
    then obtain t where t: "t \<in> {''EXPERIENCE'', ''PROJECTS'', ''LEADERSHIP & UNIVERSITY INVOLVEMENT''}"
      and s: "s = tailoredSectionFor h M R t" unfolding tailoredSectionFor_cases by blast
    from tailoredSectionFor_shape [OF t, of h M R] s have "title s = t" by simp
    with t s show ?thesis by auto
  next
    assume "tailoredTechSkillsSection h M R = Inr s"
    from tech_title [OF this] show ?thesis by simp
  qed
qed

lemma dynamic_mem:
  assumes "dynamicSections h M R = Inr d"
    and "t \<in> {''EXPERIENCE'', ''PROJECTS'', ''LEADERSHIP & UNIVERSITY INVOLVEMENT''}"
  shows "tailoredSectionFor h M R t \<in> set d \<longleftrightarrow> sectionItems (tailoredSectionFor h M R t) \<noteq> []"
proof -
  from assms(1) obtain x where x: "tailoredTechSkillsSection h M R = Inr x"
    and d: "d = filter sectionHasContent
          [tailoredExperienceSection h M R, tailoredProjectsSection h M R,
           tailoredLeadershipSection h M R, x]"
    by (auto simp: dynamicSections_def split: sum.splits)
  from assms(2) have "tailoredSectionFor h M R t \<in>
      set [tailoredExperienceSection h M R, tailoredProjectsSection h M R,
           tailoredLeadershipSection h M R, x]"
    by (auto simp: tailoredSectionFor_def)
  with d have "tailoredSectionFor h M R t \<in> set d \<longleftrightarrow> sectionHasContent (tailoredSectionFor h M R t)"
    by (simp only: set_filter mem_Collect_eq) simp
  also have "\<dots> \<longleftrightarrow> sectionItems (tailoredSectionFor h M R t) \<noteq> []"
    using tailoredSectionFor_shape [OF assms(2), of h M R] by (intro sectionHasContent_iff) simp
  finally show ?thesis .
qed

lemma final_set:
  assumes "finalSections h M R = Inr final"
  shows "\<exists>d. dynamicSections h M R = Inr d \<and> set final = set d \<union> set (staticSections h M d)"
  using assms by (auto simp: finalSections_def set_js_sort split: sum.splits)

lemma title_json_copy [simp]: "title (json_copy_section h ms) = title ms"
  by (simp add: json_copy_section_def)

lemma built_section:
  assumes fin: "finalSections h M R = Inr final"
    and t: "t \<in> {''EXPERIENCE'', ''PROJECTS'', ''LEADERSHIP & UNIVERSITY INVOLVEMENT''}"
    and c: "sectionItems (tailoredSectionFor h M R t) \<noteq> []"
  shows "tailoredSectionFor h M R t \<in> set final \<and>
         (\<forall>s \<in> set final. title s = t \<longrightarrow> s = tailoredSectionFor h M R t)"
proof -
  from final_set [OF fin] obtain d where d: "dynamicSections h M R = Inr d"
    and f: "set final = set d \<union> set (staticSections h M d)" by blast
  from dynamic_mem [OF d t] c have m: "tailoredSectionFor h M R t \<in> set d" by simp
  have "s = tailoredSectionFor h M R t" if s: "s \<in> set final" and ts: "title s = t" for s
  proof -
    from s f consider "s \<in> set d" | "s \<in> set (staticSections h M d)" by blast
    then show ?thesis
    proof cases
      case 1
      from dynamic_titles [OF d 1]
      have "title s \<in> {''EXPERIENCE'', ''PROJECTS'', ''LEADERSHIP & UNIVERSITY INVOLVEMENT''} \<longrightarrow>
            s = tailoredSectionFor h M R (title s)" by (rule conjunct2)
      then have "t \<in> {''EXPERIENCE'', ''PROJECTS'', ''LEADERSHIP & UNIVERSITY INVOLVEMENT''} \<longrightarrow>
            s = tailoredSectionFor h M R t" by (simp only: ts)
      with t show ?thesis by (rule rev_mp)
    next
      case 2
      from staticSections_cases [OF 2] obtain ms where "s = json_copy_section h ms"
        and n: "toUpperCase (title ms) \<notin> set (map (\<lambda>x. toUpperCase (title x)) d)" by blast
      with ts have "title ms = t" by simp
      moreover from tailoredSectionFor_shape [OF t, of h M R] m
      have "toUpperCase t \<in> set (map (\<lambda>x. toUpperCase (title x)) d)" by force
      ultimately show ?thesis using n by simp
    qed
  qed
  with m f show ?thesis by blast
qed

lemma no_dynamic_title:
  assumes d: "dynamicSections h M R = Inr d"
    and t: "t \<in> {''EXPERIENCE'', ''PROJECTS'', ''LEADERSHIP & UNIVERSITY INVOLVEMENT''}"
    and c: "sectionItems (tailoredSectionFor h M R t) = []"
  shows "toUpperCase t \<notin> set (map (\<lambda>s. toUpperCase (title s)) d)"
proof
  assume "toUpperCase t \<in> set (map (\<lambda>s. toUpperCase (title s)) d)"
  then obtain s where s: "s \<in> set d" and u: "toUpperCase (title s) = toUpperCase t" by auto
  from dynamic_titles [OF d s] have
    ts: "title s \<in> {''EXPERIENCE'', ''PROJECTS'', ''LEADERSHIP & UNIVERSITY INVOLVEMENT'',
                    ''TECHNICAL SKILLS & CERTIFICATES''}"
    and eq: "title s \<in> {''EXPERIENCE'', ''PROJECTS'', ''LEADERSHIP & UNIVERSITY INVOLVEMENT''} \<longrightarrow>
            s = tailoredSectionFor h M R (title s)" by simp_all
  from t have "t \<in> {''EXPERIENCE'', ''PROJECTS'', ''LEADERSHIP & UNIVERSITY INVOLVEMENT'',
                    ''TECHNICAL SKILLS & CERTIFICATES''}" by auto
  from upper_title_eq [OF ts this u] have tt: "title s = t" .
  from eq have "t \<in> {''EXPERIENCE'', ''PROJECTS'', ''LEADERSHIP & UNIVERSITY INVOLVEMENT''} \<longrightarrow>
            s = tailoredSectionFor h M R t" by (simp only: tt)
  with t have "s = tailoredSectionFor h M R t" by (rule rev_mp)
  with s dynamic_mem [OF d t] c show False by simp
qed

lemma static_mem:
  assumes "t \<in> set desiredFinalSectionOrder"
    and "toUpperCase t \<notin> set (map (\<lambda>s. toUpperCase (title s)) d)"
    and "find (\<lambda>s. title s \<noteq> [] \<and> toUpperCase (title s) = toUpperCase t) (sections M) = Some ms"
    and "\<not> isStaticSectionEffectivelyEmpty ms"
  shows "json_copy_section h ms \<in> set (staticSections h M d)"
  using assms by (auto simp: staticSections_def Let_def intro!: bexI [of _ t])

lemma copied_section:
  assumes fin: "finalSections h M R = Inr final"
    and t: "t \<in> {''EXPERIENCE'', ''PROJECTS'', ''LEADERSHIP & UNIVERSITY INVOLVEMENT''}"
    and c: "sectionItems (tailoredSectionFor h M R t) = []"
  shows "(\<forall>s \<in> set final. title s = t \<longrightarrow> (\<exists>ms \<in> set (sections M). s = json_copy_section h ms)) \<and>
         (\<forall>ms. find (\<lambda>s. title s \<noteq> [] \<and> toUpperCase (title s) = toUpperCase t) (sections M) = Some ms \<and>
               \<not> isStaticSectionEffectivelyEmpty ms \<longrightarrow> json_copy_section h ms \<in> set final)"
proof -
  from final_set [OF fin] obtain d where d: "dynamicSections h M R = Inr d"
    and f: "set final = set d \<union> set (staticSections h M d)" by blast
  note n = no_dynamic_title [OF d t c]
  have a: "\<exists>ms \<in> set (sections M). s = json_copy_section h ms"
    if s: "s \<in> set final" and ts: "title s = t" for s
  proof -
    from n ts have "s \<notin> set d" by force
    with s f have "s \<in> set (staticSections h M d)" by blast
    from staticSections_cases [OF this] show ?thesis by blast
  qed
  have td: "t \<in> set desiredFinalSectionOrder" using t by (auto simp: desiredFinalSectionOrder_def)
  have b: "json_copy_section h ms \<in> set final"
    if "find (\<lambda>s. title s \<noteq> [] \<and> toUpperCase (title s) = toUpperCase t) (sections M) = Some ms"
      and "\<not> isStaticSectionEffectivelyEmpty ms" for ms
    using static_mem [OF td n that] f by blast
  from a b show ?thesis by blast
qed

lemma nonempty_not_effectively_empty:
  assumes "sectionItems ms \<noteq> []"
  shows "\<not> isStaticSectionEffectivelyEmpty ms"
proof (cases "items ms")
  case None
  with assms obtain subs where s: "subsections ms = Some subs"
    and c: "concat (map subsectionItems subs) \<noteq> []"
    by (cases "subsections ms") (auto simp: sectionItems_def)
  from c have "list_ex hasItems subs" by (simp add: hasItems_concat)
  then have "\<not> noItemsInSubsections subs"
    by (auto simp: noItemsInSubsections_def list_ex_iff list_all_iff)
  with None s show ?thesis by (simp add: isStaticSectionEffectivelyEmpty_def)
next
  case (Some xs)
  show ?thesis
  proof (cases xs)
    case Nil
    with Some assms obtain subs where s: "subsections ms = Some subs"
      and c: "concat (map subsectionItems subs) \<noteq> []"
      by (cases "subsections ms") (auto simp: sectionItems_def)
    from c have "list_ex hasItems subs" by (simp add: hasItems_concat)
    then have n: "\<not> noItemsInSubsections subs"
      by (auto simp: noItemsInSubsections_def list_ex_iff list_all_iff)
    from c have "subs \<noteq> []" by auto
    with Some Nil s n show ?thesis by (simp add: isStaticSectionEffectivelyEmpty_def)
  next
    case (Cons x xs')
    with Some show ?thesis by (simp add: isStaticSectionEffectivelyEmpty_def)
  qed
qed

lemma naturalKey_update:
  "naturalKey t (AList.update (bulletsKeyFor t) v m) = naturalKey t m"
  by (simp add: naturalKey_def bulletsKeyFor_def oget_update)

lemma masterItemsFor_section:
  assumes "m \<in> set (masterItemsFor M t)"
  shows "\<exists>ms. find (\<lambda>s. title s = t) (sections M) = Some ms \<and> m \<in> set (sectionItems ms)"
proof (cases "find (\<lambda>s. title s = t) (sections M)")
  case None
  with assms show ?thesis
    by (auto simp: masterItemsFor_def masterItemsOf_def masterProjectsOf_def split: if_splits)
next
  case (Some ms)
  with assms have "m \<in> set (sectionItems ms)"
    by (cases "items ms"; cases "subsections ms")
       (auto simp: masterItemsFor_def masterItemsOf_def masterProjectsOf_def sectionItems_def
          split: if_splits)
  with Some show ?thesis by blast
qed

lemma find_canonical:
  assumes "t \<noteq> []"
    and "\<forall>s \<in> set (sections M). toUpperCase (title s) = toUpperCase t \<longrightarrow> title s = t"
  shows "find (\<lambda>s. title s \<noteq> [] \<and> toUpperCase (title s) = toUpperCase t) (sections M) =
         find (\<lambda>s. title s = t) (sections M)"
  using assms by (intro find_cong refl) auto


section \<open>Stage 3: items without a selected bullet\<close>

lemma built_items:
  assumes fin: "finalSections h M R = Inr final"
    and t: "t \<in> {''EXPERIENCE'', ''PROJECTS'', ''LEADERSHIP & UNIVERSITY INVOLVEMENT''}"
    and some: "\<exists>m' \<in> set (masterItemsFor M t).
                 filter (passesFilter h) (bulletsFromSheet R t (naturalKey t m')) \<noteq> []"
  shows "(\<forall>m \<in> set (masterItemsFor M t).
            filter (passesFilter h) (bulletsFromSheet R t (naturalKey t m)) \<noteq> [] \<longrightarrow>
            (\<exists>s \<in> set final. title s = t \<and>
               AList.update (bulletsKeyFor t)
                 (Arr (map (\<lambda>r. Prim (getBulletTextToUse h r))
                         (take (maxBulletsFor t) (selectedScoredBullets h R t (naturalKey t m))))) m
               \<in> set (sectionItems s))) \<and>
         (\<forall>s \<in> set final. title s = t \<longrightarrow>
            (\<forall>it \<in> set (sectionItems s). \<exists>m \<in> set (masterItemsFor M t).
               filter (passesFilter h) (bulletsFromSheet R t (naturalKey t m)) \<noteq> [] \<and>
               it = AList.update (bulletsKeyFor t)
                      (Arr (map (\<lambda>r. Prim (getBulletTextToUse h r))
                              (take (maxBulletsFor t)
                                 (selectedScoredBullets h R t (naturalKey t m))))) m))"
proof -
  let ?S = "tailoredSectionFor h M R t"
  let ?built = "\<lambda>m. AList.update (bulletsKeyFor t)
                 (Arr (map (\<lambda>r. Prim (getBulletTextToUse h r))
                         (take (maxBulletsFor t) (selectedScoredBullets h R t (naturalKey t m))))) m"
  note items = sectionItems_tailored [OF t, of h M R]
  have mem: "?built m \<in> set (sectionItems ?S)"
    if "m \<in> set (masterItemsFor M t)"
      and "filter (passesFilter h) (bulletsFromSheet R t (naturalKey t m)) \<noteq> []" for m
    using that tailoredItem_built [OF that(2) maxBulletsFor_pos [of t], where key = "bulletsKeyFor t" and m = m]
    by (auto simp: items intro!: bexI [of _ m])
  from some mem have "sectionItems ?S \<noteq> []" by fastforce
  from built_section [OF fin t this] have inF: "?S \<in> set final"
    and uniq: "\<forall>s \<in> set final. title s = t \<longrightarrow> s = ?S" by simp_all
  from tailoredSectionFor_shape [OF t, of h M R] have ttl: "title ?S = t" by simp
  have a: "\<exists>s \<in> set final. title s = t \<and> ?built m \<in> set (sectionItems s)"
    if "m \<in> set (masterItemsFor M t)"
      and "filter (passesFilter h) (bulletsFromSheet R t (naturalKey t m)) \<noteq> []" for m
    using mem [OF that] inF ttl by blast
  have b: "\<exists>m \<in> set (masterItemsFor M t).
               filter (passesFilter h) (bulletsFromSheet R t (naturalKey t m)) \<noteq> [] \<and> it = ?built m"
    if s: "s \<in> set final" and ts: "title s = t" and it: "it \<in> set (sectionItems s)" for s it
  proof -
    from uniq s ts have "s = ?S" by simp
    with it items obtain m where m: "m \<in> set (masterItemsFor M t)"
      and ti: "it \<in> set (tailoredItem h R t (naturalKey t m) (maxBulletsFor t) (bulletsKeyFor t) m)"
      by auto
    have p: "filter (passesFilter h) (bulletsFromSheet R t (naturalKey t m)) \<noteq> []"
    proof
      assume "filter (passesFilter h) (bulletsFromSheet R t (naturalKey t m)) = []"
      from tailoredItem_none [OF this] ti show False by simp
    qed
    from ti tailoredItem_built [OF p maxBulletsFor_pos [of t], where key = "bulletsKeyFor t" and m = m]
    have "it = ?built m" by simp
    with m p show ?thesis by blast
  qed
  from a b show ?thesis by blast
qed

lemma copied_items:
  assumes fin: "finalSections h M R = Inr final"
    and t: "t \<in> {''EXPERIENCE'', ''PROJECTS'', ''LEADERSHIP & UNIVERSITY INVOLVEMENT''}"
    and none: "\<forall>m' \<in> set (masterItemsFor M t).
                 filter (passesFilter h) (bulletsFromSheet R t (naturalKey t m')) = []"
  shows "sectionItems (tailoredSectionFor h M R t) = []"
  using none by (auto simp: sectionItems_tailored [OF t] tailoredItem_none)

text \<open>
  C3 (as amended).  A master item of EXPERIENCE, PROJECTS or LEADERSHIP none of whose
  rows passes the filter is not pushed by the dynamic assembly.  When another item of
  its section has a row that passes, the final resume has the section that the assembly
  built, and no other section of that title: each of its items was built from a master
  item with a passing row, and none has the identifier of the item without one.  When no
  item of the section has a passing row, every section of that title in the final
  resume is a copy of a master section; the master section of that title is copied when
  it is not empty, and then the item is in the final resume as the master has it (the
  titles of the master's sections being the canonical ones).
\<close>

theorem stage3_item_dropped_without_selected_bullets:
  assumes "finalSections h M R = Inr final"
    and "t \<in> {''EXPERIENCE'', ''PROJECTS'', ''LEADERSHIP & UNIVERSITY INVOLVEMENT''}"
    and "m \<in> set (masterItemsFor M t)"
    and "filter (passesFilter h) (bulletsFromSheet R t (naturalKey t m)) = []"
  shows "tailoredItem h R t (naturalKey t m) (maxBulletsFor t) (bulletsKeyFor t) m = [] \<and>
         ((\<exists>m' \<in> set (masterItemsFor M t).
              filter (passesFilter h) (bulletsFromSheet R t (naturalKey t m')) \<noteq> []) \<longrightarrow>
            (\<exists>s \<in> set final. title s = t) \<and>
            (\<forall>s \<in> set final. title s = t \<longrightarrow>
               (\<forall>it \<in> set (sectionItems s).
                  naturalKey t it \<noteq> naturalKey t m \<and>
                  (\<exists>m' \<in> set (masterItemsFor M t).
                     filter (passesFilter h) (bulletsFromSheet R t (naturalKey t m')) \<noteq> [] \<and>
                     it = AList.update (bulletsKeyFor t)
                            (Arr (map (\<lambda>r. Prim (getBulletTextToUse h r))
                                    (take (maxBulletsFor t)
                                       (selectedScoredBullets h R t (naturalKey t m'))))) m')))) \<and>
         ((\<forall>m' \<in> set (masterItemsFor M t).
              filter (passesFilter h) (bulletsFromSheet R t (naturalKey t m')) = []) \<longrightarrow>
            (\<forall>s \<in> set final. title s = t \<longrightarrow>
               (\<exists>ms \<in> set (sections M). s = json_copy_section h ms)) \<and>
            (\<forall>ms. find (\<lambda>s. title s \<noteq> [] \<and> toUpperCase (title s) = toUpperCase t) (sections M)
                     = Some ms \<and>
                  \<not> isStaticSectionEffectivelyEmpty ms \<longrightarrow> json_copy_section h ms \<in> set final) \<and>
            ((\<forall>s \<in> set (sections M). toUpperCase (title s) = toUpperCase t \<longrightarrow> title s = t) \<longrightarrow>
               (\<exists>ms \<in> set (sections M). title ms = t \<and> m \<in> set (sectionItems ms) \<and>
                  json_copy_section h ms \<in> set final \<and>
                  json_copy_obj h m \<in> set (sectionItems (json_copy_section h ms)))))"
proof -
  note fin = assms(1) and t = assms(2) and m = assms(3) and none = assms(4)
  have dropped: "tailoredItem h R t (naturalKey t m) (maxBulletsFor t) (bulletsKeyFor t) m = []"
    using none by (rule tailoredItem_none)
  have built: "(\<exists>s \<in> set final. title s = t) \<and>
            (\<forall>s \<in> set final. title s = t \<longrightarrow>
               (\<forall>it \<in> set (sectionItems s).
                  naturalKey t it \<noteq> naturalKey t m \<and>
                  (\<exists>m' \<in> set (masterItemsFor M t).
                     filter (passesFilter h) (bulletsFromSheet R t (naturalKey t m')) \<noteq> [] \<and>
                     it = AList.update (bulletsKeyFor t)
                            (Arr (map (\<lambda>r. Prim (getBulletTextToUse h r))
                                    (take (maxBulletsFor t)
                                       (selectedScoredBullets h R t (naturalKey t m'))))) m')))"
    if some: "\<exists>m' \<in> set (masterItemsFor M t).
              filter (passesFilter h) (bulletsFromSheet R t (naturalKey t m')) \<noteq> []"
  proof -
    note B = built_items [OF fin t some]
    from some B have ex: "\<exists>s \<in> set final. title s = t" by blast
    have "naturalKey t it \<noteq> naturalKey t m \<and>
          (\<exists>m' \<in> set (masterItemsFor M t).
             filter (passesFilter h) (bulletsFromSheet R t (naturalKey t m')) \<noteq> [] \<and>
             it = AList.update (bulletsKeyFor t)
                    (Arr (map (\<lambda>r. Prim (getBulletTextToUse h r))
                            (take (maxBulletsFor t)
                               (selectedScoredBullets h R t (naturalKey t m'))))) m')"
      if "s \<in> set final" "title s = t" "it \<in> set (sectionItems s)" for s it
    proof -
      from B that obtain m' where m': "m' \<in> set (masterItemsFor M t)"
        and p: "filter (passesFilter h) (bulletsFromSheet R t (naturalKey t m')) \<noteq> []"
        and it: "it = AList.update (bulletsKeyFor t)
                    (Arr (map (\<lambda>r. Prim (getBulletTextToUse h r))
                            (take (maxBulletsFor t)
                               (selectedScoredBullets h R t (naturalKey t m'))))) m'"
        by blast
      from it have "naturalKey t it = naturalKey t m'" by (simp only: naturalKey_update)
      with p none have "naturalKey t it \<noteq> naturalKey t m" by auto
      with m' p it show ?thesis by blast
    qed
    with ex show ?thesis by blast
  qed
  have copied: "(\<forall>s \<in> set final. title s = t \<longrightarrow>
               (\<exists>ms \<in> set (sections M). s = json_copy_section h ms)) \<and>
            (\<forall>ms. find (\<lambda>s. title s \<noteq> [] \<and> toUpperCase (title s) = toUpperCase t) (sections M)
                     = Some ms \<and>
                  \<not> isStaticSectionEffectivelyEmpty ms \<longrightarrow> json_copy_section h ms \<in> set final) \<and>
            ((\<forall>s \<in> set (sections M). toUpperCase (title s) = toUpperCase t \<longrightarrow> title s = t) \<longrightarrow>
               (\<exists>ms \<in> set (sections M). title ms = t \<and> m \<in> set (sectionItems ms) \<and>
                  json_copy_section h ms \<in> set final \<and>
                  json_copy_obj h m \<in> set (sectionItems (json_copy_section h ms))))"
    if all: "\<forall>m' \<in> set (masterItemsFor M t).
              filter (passesFilter h) (bulletsFromSheet R t (naturalKey t m')) = []"
  proof -
    note C = copied_section [OF fin t copied_items [OF fin t all]]
    have canon: "\<exists>ms \<in> set (sections M). title ms = t \<and> m \<in> set (sectionItems ms) \<and>
                  json_copy_section h ms \<in> set final \<and>
                  json_copy_obj h m \<in> set (sectionItems (json_copy_section h ms))"
      if c: "\<forall>s \<in> set (sections M). toUpperCase (title s) = toUpperCase t \<longrightarrow> title s = t"
    proof -
      from masterItemsFor_section [OF m] obtain ms where
        f: "find (\<lambda>s. title s = t) (sections M) = Some ms" and mi: "m \<in> set (sectionItems ms)"
        by blast
      from find_SomeD [OF f] have ms: "ms \<in> set (sections M)" and tt: "title ms = t" by simp_all
      from t have "t \<noteq> []" by auto
      from find_canonical [OF this c] f
      have "find (\<lambda>s. title s \<noteq> [] \<and> toUpperCase (title s) = toUpperCase t) (sections M) = Some ms"
        by simp
      moreover from mi have "\<not> isStaticSectionEffectivelyEmpty ms"
        by (intro nonempty_not_effectively_empty) auto
      ultimately have "json_copy_section h ms \<in> set final" using C by blast
      moreover from mi have "json_copy_obj h m \<in> set (sectionItems (json_copy_section h ms))"
        by (simp add: sectionItems_json_copy)
      ultimately show ?thesis using ms tt mi by blast
    qed
    with C show ?thesis by blast
  qed
  from dropped built copied show ?thesis by blast
qed


theorem stage3_item_dropped_without_selected_bullets_witness:
  "finalSections sample_host masterA rowsA = Inr [educationSection, experienceA] \<and>
   globexJob \<in> set (masterItemsFor masterA ''EXPERIENCE'') \<and>
   filter (passesFilter sample_host)
     (bulletsFromSheet rowsA ''EXPERIENCE'' (naturalKey ''EXPERIENCE'' globexJob)) = [] \<and>
   tailoredItem sample_host rowsA ''EXPERIENCE'' (naturalKey ''EXPERIENCE'' globexJob)
     (maxBulletsFor ''EXPERIENCE'') (bulletsKeyFor ''EXPERIENCE'') globexJob = [] \<and>
   acmeTailored \<in> set (sectionItems experienceA) \<and>
   naturalKey ''EXPERIENCE'' acmeTailored \<noteq> naturalKey ''EXPERIENCE'' globexJob \<and>
   sectionItems experienceA = [acmeTailored] \<and>
   (\<exists>ms \<in> set (sections masterC).
      title ms = ''LEADERSHIP & UNIVERSITY INVOLVEMENT'' \<and> chessClub \<in> set (sectionItems ms) \<and>
      json_copy_section sample_host ms \<in> set [leadershipC] \<and>
      json_copy_obj sample_host chessClub \<in> set (sectionItems (json_copy_section sample_host ms)))"
proof -
  let ?L = "''LEADERSHIP & UNIVERSITY INVOLVEMENT''"
  have finA: "finalSections sample_host masterA rowsA = Inr [educationSection, experienceA]"
    by code_simp
  have tE: "''EXPERIENCE'' \<in> {''EXPERIENCE'', ''PROJECTS'', ''LEADERSHIP & UNIVERSITY INVOLVEMENT''}"
    by simp
  have mG: "globexJob \<in> set (masterItemsFor masterA ''EXPERIENCE'')" by code_simp
  have noneG: "filter (passesFilter sample_host)
     (bulletsFromSheet rowsA ''EXPERIENCE'' (naturalKey ''EXPERIENCE'' globexJob)) = []"
    by code_simp
  note A = stage3_item_dropped_without_selected_bullets [OF finA tE mG noneG]
  have some: "\<exists>m' \<in> set (masterItemsFor masterA ''EXPERIENCE'').
      filter (passesFilter sample_host)
        (bulletsFromSheet rowsA ''EXPERIENCE'' (naturalKey ''EXPERIENCE'' m')) \<noteq> []"
    by code_simp
  have sIn: "experienceA \<in> set [educationSection, experienceA]" by simp
  have ttl: "title experienceA = ''EXPERIENCE''" by (simp add: experienceA_def)
  have its: "sectionItems experienceA = [acmeTailored]" by (simp add: sectionItems_def experienceA_def)
  then have itIn: "acmeTailored \<in> set (sectionItems experienceA)" by simp
  note dropped = A [THEN conjunct1]
  note key = A [THEN conjunct2, THEN conjunct1, THEN mp, OF some, THEN conjunct2, THEN bspec,
      OF sIn, THEN mp, OF ttl, THEN bspec, OF itIn, THEN conjunct1]
  have finC: "finalSections sample_host masterC rowsC = Inr [leadershipC]" by code_simp
  have tL: "?L \<in> {''EXPERIENCE'', ''PROJECTS'', ''LEADERSHIP & UNIVERSITY INVOLVEMENT''}" by simp
  have mC: "chessClub \<in> set (masterItemsFor masterC ?L)" by code_simp
  have noneC: "filter (passesFilter sample_host) (bulletsFromSheet rowsC ?L (naturalKey ?L chessClub)) = []"
    by code_simp
  note C = stage3_item_dropped_without_selected_bullets [OF finC tL mC noneC]
  have all: "\<forall>m' \<in> set (masterItemsFor masterC ?L).
      filter (passesFilter sample_host) (bulletsFromSheet rowsC ?L (naturalKey ?L m')) = []"
    by code_simp
  have canon: "\<forall>s \<in> set (sections masterC). toUpperCase (title s) = toUpperCase ?L \<longrightarrow> title s = ?L"
    by code_simp
  note copied = C [THEN conjunct2, THEN conjunct2, THEN mp, OF all, THEN conjunct2, THEN conjunct2,
      THEN mp, OF canon]
  from finA mG noneG dropped itIn key its copied show ?thesis by (intro conjI)
qed

text \<open>
  The claim as stated fails: the only row of the leadership item has a score below the
  threshold, so no row of the item passes the filter, and the item is in the final
  resume all the same, in the section copied from the master resume.
\<close>

theorem stage3_item_dropped_counterexample:
  "filter (passesFilter sample_host)
     (bulletsFromSheet rowsC ''LEADERSHIP & UNIVERSITY INVOLVEMENT''
        (naturalKey ''LEADERSHIP & UNIVERSITY INVOLVEMENT'' chessClub)) = [] \<and>
   finalSections sample_host masterC rowsC =
     Inr [\<lparr> title = ''LEADERSHIP & UNIVERSITY INVOLVEMENT'', items = Some [chessClub],
            subsections = None \<rparr>]"
  by code_simp

section \<open>Stage 3: the number of bullets and the bullets kept\<close>

lemma final_bullets_bounded:
  assumes wf: "masterBulletsBounded M" and fin: "finalSections h M R = Inr final"
    and s: "s \<in> set final" and it: "it \<in> set (sectionItems s)"
  shows "length (bulletsOf it ''responsibilities'') \<le> STAGE3_MAX_BULLETS_PER_JOB \<and>
         length (bulletsOf it ''descriptionBullets'') \<le> STAGE3_MAX_BULLETS_PER_PROJECT"
proof -
  have n: "NUM_DEDICATED_BULLET_COLUMNS \<le> STAGE3_MAX_BULLETS_PER_JOB"
    "NUM_DEDICATED_BULLET_COLUMNS \<le> STAGE3_MAX_BULLETS_PER_PROJECT"
    by (simp_all add: NUM_DEDICATED_BULLET_COLUMNS_def STAGE3_MAX_BULLETS_PER_JOB_def
        STAGE3_MAX_BULLETS_PER_PROJECT_def)
  have bounded: "length (bulletsOf x ''responsibilities'') \<le> STAGE3_MAX_BULLETS_PER_JOB \<and>
         length (bulletsOf x ''descriptionBullets'') \<le> STAGE3_MAX_BULLETS_PER_PROJECT"
    if "list_all bulletArrayBounded x" for x
    using bounded_bulletsOf [OF that, of "''responsibilities''"]
      bounded_bulletsOf [OF that, of "''descriptionBullets''"] n by simp
  from finalSections_cases [OF fin s] obtain d where d: "dynamicSections h M R = Inr d"
    and c: "s \<in> set d \<or> s \<in> set (staticSections h M d)" by blast
  from c show ?thesis
  proof
    assume "s \<in> set (staticSections h M d)"
    from staticSections_cases [OF this] obtain ms where ms: "ms \<in> set (sections M)"
      and eq: "s = json_copy_section h ms" by blast
    from it eq obtain x where x: "x \<in> set (sectionItems ms)" and "it = json_copy_obj h x"
      by (auto simp: sectionItems_json_copy)
    with masterBulletsBounded_item [OF wf ms x] have "list_all bulletArrayBounded it"
      by (simp add: json_copy_obj_bounded)
    then show ?thesis by (rule bounded)
  next
    assume "s \<in> set d"
    from dynamicSections_cases [OF d this]
    have "(s = tailoredExperienceSection h M R \<or> s = tailoredProjectsSection h M R \<or>
           s = tailoredLeadershipSection h M R) \<or> tailoredTechSkillsSection h M R = Inr s"
      by blast
    then show ?thesis
    proof
      assume dyn: "s = tailoredExperienceSection h M R \<or> s = tailoredProjectsSection h M R \<or>
           s = tailoredLeadershipSection h M R"
      from dynamic_item [OF this it] obtain m where m: "m \<in> set (masterItemsFor M (title s))"
        and ti: "it \<in> set (tailoredItem h R (title s) (naturalKey (title s) m)
                        (maxBulletsFor (title s)) (bulletsKeyFor (title s)) m)" by blast
      from masterItemsFor_mem [OF m] masterBulletsBounded_item [OF wf]
      have "list_all bulletArrayBounded m" by blast
      then have bm: "length (bulletsOf m ''responsibilities'') \<le> STAGE3_MAX_BULLETS_PER_JOB \<and>
         length (bulletsOf m ''descriptionBullets'') \<le> STAGE3_MAX_BULLETS_PER_PROJECT"
        by (rule bounded)
      from tailoredItem_cases [OF ti]
      have "it = AList.update (bulletsKeyFor (title s))
                (Arr (map Prim (map (getBulletTextToUse h) (take (maxBulletsFor (title s))
                  (selectedScoredBullets h R (title s) (naturalKey (title s) m)))))) m"
        by simp
      then show ?thesis using bm
        by (auto simp: bulletsOf_update bulletsKeyFor_def maxBulletsFor_def)
    next
      assume "tailoredTechSkillsSection h M R = Inr s"
      from tech_item [OF this it] obtain r c where
        "resolveTechItem (masterTechSubsections M) r = Inr (c, it)" by blast
      from resolveTechItem_bounded [OF wf this] show ?thesis by (rule bounded)
    qed
  qed
qed

lemma length_selected:
  "length (take cap (selectedScoredBullets h R t ident)) =
     min cap (length (filter (passesFilter h) (bulletsFromSheet R t ident)))"
  by (simp add: selectedScoredBullets_def length_js_sort min.commute)

text \<open>
  C2.  Given a master resume as the normaliser builds it, every item of the final resume
  has at most \<open>STAGE3_MAX_BULLETS_PER_JOB\<close> responsibilities and at most
  \<open>STAGE3_MAX_BULLETS_PER_PROJECT\<close> description bullets.  For each of EXPERIENCE,
  PROJECTS and LEADERSHIP: a master item with a row that passes the filter is in the
  section of that title of the final resume, and its bullets are the texts of the first
  \<open>cap\<close> of its passing rows in descending order of score, as many as the cap when
  more rows pass than the cap; and when some item of the section has a passing row, every
  item of a section of that title in the final resume is such an item.  The rows kept
  and the rows left out are together the passing rows, in descending order of score:
  every row kept has a score at least as high as every row left out.
\<close>

theorem stage3_bullet_cap:
  assumes "finalSections h M R = Inr final"
    and "t \<in> {''EXPERIENCE'', ''PROJECTS'', ''LEADERSHIP & UNIVERSITY INVOLVEMENT''}"
  shows "(masterBulletsBounded M \<longrightarrow>
           (\<forall>s \<in> set final. \<forall>it \<in> set (sectionItems s).
              length (bulletsOf it ''responsibilities'') \<le> STAGE3_MAX_BULLETS_PER_JOB \<and>
              length (bulletsOf it ''descriptionBullets'') \<le> STAGE3_MAX_BULLETS_PER_PROJECT)) \<and>
         (\<forall>m \<in> set (masterItemsFor M t).
            filter (passesFilter h) (bulletsFromSheet R t (naturalKey t m)) \<noteq> [] \<longrightarrow>
            (\<exists>s \<in> set final. title s = t \<and>
               (\<exists>it \<in> set (sectionItems s).
                  it = AList.update (bulletsKeyFor t)
                         (Arr (map (\<lambda>r. Prim (getBulletTextToUse h r))
                                 (take (maxBulletsFor t)
                                    (selectedScoredBullets h R t (naturalKey t m))))) m \<and>
                  bulletsOf it (bulletsKeyFor t) =
                    map (\<lambda>r. Prim (getBulletTextToUse h r))
                      (take (maxBulletsFor t) (selectedScoredBullets h R t (naturalKey t m))) \<and>
                  length (bulletsOf it (bulletsKeyFor t)) =
                    min (maxBulletsFor t)
                      (length (filter (passesFilter h) (bulletsFromSheet R t (naturalKey t m))))))) \<and>
         ((\<exists>m \<in> set (masterItemsFor M t).
              filter (passesFilter h) (bulletsFromSheet R t (naturalKey t m)) \<noteq> []) \<longrightarrow>
            (\<forall>s \<in> set final. title s = t \<longrightarrow>
               (\<forall>it \<in> set (sectionItems s).
                  length (bulletsOf it (bulletsKeyFor t)) \<le> maxBulletsFor t \<and>
                  (\<exists>m \<in> set (masterItemsFor M t).
                     filter (passesFilter h) (bulletsFromSheet R t (naturalKey t m)) \<noteq> [] \<and>
                     bulletsOf it (bulletsKeyFor t) =
                       map (\<lambda>r. Prim (getBulletTextToUse h r))
                         (take (maxBulletsFor t)
                            (selectedScoredBullets h R t (naturalKey t m))))))) \<and>
         mset (take cap (selectedScoredBullets h R t ident) @
               drop cap (selectedScoredBullets h R t ident)) =
           mset (filter (passesFilter h) (bulletsFromSheet R t ident)) \<and>
         sorted_wrt (\<lambda>a b. js_ge (parseFloat_cell h (rget a ''RelevanceScore''))
                             (parseFloat_cell h (rget b ''RelevanceScore'')))
           (selectedScoredBullets h R t ident) \<and>
         (\<forall>kept \<in> set (take cap (selectedScoredBullets h R t ident)).
          \<forall>dropped \<in> set (drop cap (selectedScoredBullets h R t ident)).
            js_ge (parseFloat_cell h (rget kept ''RelevanceScore''))
                  (parseFloat_cell h (rget dropped ''RelevanceScore'')))"
proof -
  note fin = assms(1) and t = assms(2)
  let ?sel = "\<lambda>m. take (maxBulletsFor t) (selectedScoredBullets h R t (naturalKey t m))"
  let ?texts = "\<lambda>m. map (\<lambda>r. Prim (getBulletTextToUse h r)) (?sel m)"
  let ?built = "\<lambda>m. AList.update (bulletsKeyFor t) (Arr (?texts m)) m"
  have b: "bulletsOf (?built m) (bulletsKeyFor t) = ?texts m" for m
    by (simp add: bulletsOf_update)
  have l: "length (?texts m) =
      min (maxBulletsFor t) (length (filter (passesFilter h) (bulletsFromSheet R t (naturalKey t m))))"
    for m by (simp only: length_map length_selected)
  have c1: "\<forall>s \<in> set final. \<forall>it \<in> set (sectionItems s).
              length (bulletsOf it ''responsibilities'') \<le> STAGE3_MAX_BULLETS_PER_JOB \<and>
              length (bulletsOf it ''descriptionBullets'') \<le> STAGE3_MAX_BULLETS_PER_PROJECT"
    if "masterBulletsBounded M"
    using final_bullets_bounded [OF that fin] by blast
  have c2: "\<exists>s \<in> set final. title s = t \<and>
               (\<exists>it \<in> set (sectionItems s). it = ?built m \<and>
                  bulletsOf it (bulletsKeyFor t) = ?texts m \<and>
                  length (bulletsOf it (bulletsKeyFor t)) =
                    min (maxBulletsFor t)
                      (length (filter (passesFilter h) (bulletsFromSheet R t (naturalKey t m)))))"
    if m: "m \<in> set (masterItemsFor M t)"
      and p: "filter (passesFilter h) (bulletsFromSheet R t (naturalKey t m)) \<noteq> []" for m
  proof -
    from m p have "\<exists>m' \<in> set (masterItemsFor M t).
        filter (passesFilter h) (bulletsFromSheet R t (naturalKey t m')) \<noteq> []" by blast
    from built_items [OF fin t this] m p obtain s where "s \<in> set final" "title s = t"
      "?built m \<in> set (sectionItems s)" by blast
    with b [of m] l [of m] show ?thesis by (intro bexI [of _ s] conjI bexI [of _ "?built m"]) simp_all
  qed
  have c3: "length (bulletsOf it (bulletsKeyFor t)) \<le> maxBulletsFor t \<and>
            (\<exists>m \<in> set (masterItemsFor M t).
               filter (passesFilter h) (bulletsFromSheet R t (naturalKey t m)) \<noteq> [] \<and>
               bulletsOf it (bulletsKeyFor t) = ?texts m)"
    if some: "\<exists>m \<in> set (masterItemsFor M t).
              filter (passesFilter h) (bulletsFromSheet R t (naturalKey t m)) \<noteq> []"
      and s: "s \<in> set final" "title s = t" and it: "it \<in> set (sectionItems s)" for s it
  proof -
    from built_items [OF fin t some] s it obtain m where m: "m \<in> set (masterItemsFor M t)"
      and p: "filter (passesFilter h) (bulletsFromSheet R t (naturalKey t m)) \<noteq> []"
      and eq: "it = ?built m" by blast
    from eq b [of m] have bo: "bulletsOf it (bulletsKeyFor t) = ?texts m" by simp
    then have "length (bulletsOf it (bulletsKeyFor t)) \<le> maxBulletsFor t" by (simp add: l)
    with m p bo show ?thesis by blast
  qed
  have c4: "mset (take cap (selectedScoredBullets h R t ident) @
               drop cap (selectedScoredBullets h R t ident)) =
           mset (filter (passesFilter h) (bulletsFromSheet R t ident))"
    by (simp add: selectedScoredBullets_def mset_js_sort)
  have c5: "sorted_wrt (\<lambda>a b. js_ge (parseFloat_cell h (rget a ''RelevanceScore''))
                             (parseFloat_cell h (rget b ''RelevanceScore'')))
           (selectedScoredBullets h R t ident)"
    using sorted_selectedScoredBullets [of h R t ident] by (simp add: scoreOf_def)
  have c6: "js_ge (parseFloat_cell h (rget kept ''RelevanceScore''))
                  (parseFloat_cell h (rget dropped ''RelevanceScore''))"
    if "kept \<in> set (take cap (selectedScoredBullets h R t ident))"
      and "dropped \<in> set (drop cap (selectedScoredBullets h R t ident))" for kept dropped
    using take_drop_sorted [OF sorted_selectedScoredBullets that] by (simp add: scoreOf_def)
  from c1 c2 c3 c4 c5 c6 show ?thesis by blast
qed

theorem stage3_bullet_cap_witness:
  "masterBulletsBounded masterA \<and>
   finalSections sample_host masterA rowsD =
     Inr [educationSection,
          \<lparr> title = ''EXPERIENCE'', items = Some [acmeTop5], subsections = None \<rparr>] \<and>
   length (bulletsOf acmeTop5 ''responsibilities'') \<le> STAGE3_MAX_BULLETS_PER_JOB \<and>
   acmeJob \<in> set (masterItemsFor masterA ''EXPERIENCE'') \<and>
   length (filter (passesFilter sample_host)
             (bulletsFromSheet rowsD ''EXPERIENCE'' (naturalKey ''EXPERIENCE'' acmeJob))) = 6 \<and>
   (\<exists>s \<in> set [educationSection,
               \<lparr> title = ''EXPERIENCE'', items = Some [acmeTop5], subsections = None \<rparr>].
      title s = ''EXPERIENCE'' \<and>
      (\<exists>it \<in> set (sectionItems s).
         it = acmeTop5 \<and>
         bulletsOf it ''responsibilities'' =
           map (\<lambda>r. Prim (getBulletTextToUse sample_host r))
             (take 5 (selectedScoredBullets sample_host rowsD ''EXPERIENCE''
                        (naturalKey ''EXPERIENCE'' acmeJob))) \<and>
         length (bulletsOf it ''responsibilities'') = 5)) \<and>
   js_ge (parseFloat_cell sample_host (rget (rowsD ! 5) ''RelevanceScore''))
         (parseFloat_cell sample_host (rget (rowsD ! 2) ''RelevanceScore''))"
proof -
  let ?F = "[educationSection,
          \<lparr> title = ''EXPERIENCE'', items = Some [acmeTop5], subsections = None \<rparr>]"
  let ?E = "''EXPERIENCE''"
  let ?sel = "selectedScoredBullets sample_host rowsD ?E (naturalKey ?E acmeJob)"
  have fin: "finalSections sample_host masterA rowsD = Inr ?F" by code_simp
  have tE: "?E \<in> {''EXPERIENCE'', ''PROJECTS'', ''LEADERSHIP & UNIVERSITY INVOLVEMENT''}" by simp
  note T = stage3_bullet_cap [OF fin tE, where cap = STAGE3_MAX_BULLETS_PER_JOB
      and ident = "naturalKey ?E acmeJob"]
  have wf: "masterBulletsBounded masterA" by code_simp
  have sIn: "\<lparr> title = ''EXPERIENCE'', items = Some [acmeTop5], subsections = None \<rparr> \<in> set ?F"
    by simp
  have it: "acmeTop5 \<in> set (sectionItems \<lparr> title = ''EXPERIENCE'', items = Some [acmeTop5], subsections = None \<rparr>)"
    by (simp add: sectionItems_def)
  note cap = T [THEN conjunct1, THEN mp, OF wf, THEN bspec, OF sIn, THEN bspec, OF it, THEN conjunct1]
  have m: "acmeJob \<in> set (masterItemsFor masterA ?E)" by code_simp
  have six: "length (filter (passesFilter sample_host)
      (bulletsFromSheet rowsD ?E (naturalKey ?E acmeJob))) = 6"
    by code_simp
  then have p: "filter (passesFilter sample_host)
      (bulletsFromSheet rowsD ?E (naturalKey ?E acmeJob)) \<noteq> []" by auto
  note built = T [THEN conjunct2, THEN conjunct1, THEN bspec, OF m, THEN mp, OF p]
  have k: "bulletsKeyFor ?E = ''responsibilities''" and c: "maxBulletsFor ?E = 5"
    and mn: "min (5::nat) 6 = 5" by code_simp+
  have e: "AList.update ''responsibilities''
             (Arr (map (\<lambda>r. Prim (getBulletTextToUse sample_host r)) (take 5 ?sel))) acmeJob =
           acmeTop5"
    by code_simp
  have shown: "\<exists>s \<in> set ?F. title s = ''EXPERIENCE'' \<and>
      (\<exists>it \<in> set (sectionItems s).
         it = acmeTop5 \<and>
         bulletsOf it ''responsibilities'' =
           map (\<lambda>r. Prim (getBulletTextToUse sample_host r)) (take 5 ?sel) \<and>
         length (bulletsOf it ''responsibilities'') = 5)"
    by (rule built [unfolded k c six mn e])
  have kd: "rowsD ! 5 \<in> set (take STAGE3_MAX_BULLETS_PER_JOB ?sel)"
    "rowsD ! 2 \<in> set (drop STAGE3_MAX_BULLETS_PER_JOB ?sel)" by code_simp+
  note ge = T [THEN conjunct2, THEN conjunct2, THEN conjunct2, THEN conjunct2, THEN conjunct2,
      THEN bspec, OF kd(1), THEN bspec, OF kd(2)]
  from wf fin cap m six shown ge show ?thesis by (intro conjI)
qed

section \<open>Tailoring a bullet\<close>

lemma vget_string_truthy:
  assumes "vget parsed k = Prim (CStr b)" and "b \<noteq> []"
  shows "vtruthy parsed \<and> vtruthy (vget parsed k) \<and> isString (vget parsed k)"
  using assms by (cases parsed) auto

lemma isString_truthy:
  assumes "vtruthy v" and "isString v"
  shows "\<exists>b. v = Prim (CStr b) \<and> b \<noteq> []"
  using assms by (cases v rule: isString.cases) auto

lemma nonBlankText_string:
  "trim s \<noteq> [] \<Longrightarrow> nonBlankText (Prim (CStr s)) = Inr (Some s)"
  by (auto simp: nonBlankText_def trim_def)

lemma sequence_strings:
  assumes "list_all isString xs"
  shows "sequence (map (\<lambda>v. if v = Prim CUndef \<or> v = Prim CNull then Inr []
                            else String_val h v) xs) = Inr (map stringOf xs)"
  using assms
proof (induction xs)
  case Nil
  then show ?case by simp
next
  case (Cons x xs)
  from Cons.prems obtain s where "x = Prim (CStr s)" by (cases x rule: isString.cases) auto
  with Cons show ?case by simp
qed

lemma join_method_strings:
  "list_all isString xs \<Longrightarrow> join_method h sep (Arr xs) = Inr (join sep (map stringOf xs))"
  by (simp add: sequence_strings)

lemma join_method_not_array:
  "\<not> isArray v \<Longrightarrow> join_method h sep v = Inl TypeError"
  by (cases v) auto

lemma slice3_join_not_array:
  assumes "\<not> isArray v"
  shows "slice3 v = Inl TypeError \<or> (\<exists>w. slice3 v = Inr w \<and> join_method h sep w = Inl TypeError)"
  using assms by (cases v rule: slice3.cases) auto

lemma error_is_TypeError: "(e :: error) = TypeError"
  by (cases e) simp

lemma jdContextString_arrays:
  assumes "\<forall>k \<in> {''keyResponsibilities'', ''primaryKeywords'', ''requiredTechnicalSkills''}.
             \<not> vtruthy (vget jd k) \<or> (\<exists>xs. vget jd k = Arr xs \<and> list_all isString xs)"
  shows "\<exists>context. jdContextString h jd role = Inr context"
proof -
  have a: "\<exists>xs. vor (vget jd k) (Arr []) = Arr xs \<and> list_all isString xs"
    if "k \<in> {''keyResponsibilities'', ''primaryKeywords'', ''requiredTechnicalSkills''}" for k
    using assms that by (auto simp: vor_def)
  from a [of "''keyResponsibilities''"] obtain kr where
    kr: "vor (vget jd ''keyResponsibilities'') (Arr []) = Arr kr" "list_all isString kr" by auto
  from a [of "''primaryKeywords''"] obtain pk where
    pk: "vor (vget jd ''primaryKeywords'') (Arr []) = Arr pk" "list_all isString pk" by auto
  from a [of "''requiredTechnicalSkills''"] obtain ts where
    ts: "vor (vget jd ''requiredTechnicalSkills'') (Arr []) = Arr ts" "list_all isString ts" by auto
  from kr(2) have k3: "list_all isString (take 3 kr)"
    by (auto simp: list_all_iff dest: in_set_takeD)
  show ?thesis
    unfolding jdContextString_def kr(1) pk(1) ts(1)
    by (simp add: join_method_strings [OF k3] join_method_strings [OF pk(2)]
        join_method_strings [OF ts(2)] del: join_method.simps)
qed

lemma jdContextString_not_array:
  assumes "k \<in> {''keyResponsibilities'', ''primaryKeywords'', ''requiredTechnicalSkills''}"
    and "vtruthy (vget jd k)" and "\<not> isArray (vget jd k)"
  shows "jdContextString h jd role = Inl TypeError"
proof -
  from assms(2,3) have n: "\<not> isArray (vor (vget jd k) (Arr []))" by (simp add: vor_def)
  have e: "(case x of Inl e \<Rightarrow> Inl e | Inr y \<Rightarrow> f y) = Inl TypeError \<or>
           (\<exists>y. x = Inr y \<and> (case x of Inl e \<Rightarrow> Inl e | Inr y \<Rightarrow> f y) = f y)"
    for x :: "error + 'b" and f :: "'b \<Rightarrow> error + 'c"
    by (cases x) (auto simp: error_is_TypeError)
  consider (kr) "k = ''keyResponsibilities''" | (pk) "k = ''primaryKeywords''"
    | (ts) "k = ''requiredTechnicalSkills''" using assms(1) by blast
  then show ?thesis
  proof cases
    case kr
    with slice3_join_not_array [OF n, of h "''; ''"] show ?thesis
      by (auto simp: jdContextString_def)
  next
    case pk
    with n have "join_method h '', '' (vor (vget jd ''primaryKeywords'') (Arr [])) = Inl TypeError"
      by (simp add: join_method_not_array)
    then show ?thesis
      by (auto simp: jdContextString_def error_is_TypeError split: sum.splits)
  next
    case ts
    with n have "join_method h '', '' (vor (vget jd ''requiredTechnicalSkills'') (Arr [])) = Inl TypeError"
      by (simp add: join_method_not_array)
    then show ?thesis
      by (auto simp: jdContextString_def error_is_TypeError split: sum.splits)
  qed
qed

text \<open>
  C6 (as amended).  For a non-blank bullet, a valid analysis and a non-blank role, the
  context string of the prompt is built first; building it raises no exception when
  the three lists of the analysis are arrays of strings (or missing), and raises a
  \<open>TypeError\<close>, which is the outcome of the call, when one of them is truthy and not
  an array.  Once it is built, for a response that is not empty and does not start with
  \<open>ERROR:\<close>: when \<open>JSON.parse\<close> accepts the trimmed response with its code fence
  removed and the result has a non-empty string \<open>rewritten_bullet\<close>, the result is
  that string, trimmed; when \<open>JSON.parse\<close> rejects it, or the result has no such
  property, the result is the trimmed response itself, with its code fence if it has
  one.
\<close>

theorem tailorBulletPoint_response:
  assumes "trim originalBullet \<noteq> []"
    and "validJdAnalysis jd"
    and "trim targetRoleTitle \<noteq> []"
    and "resp \<noteq> [] \<and> \<not> startsWith resp ''ERROR:''"
  shows "(jdContextString h jd targetRoleTitle = Inr context \<longrightarrow>
           (\<forall>parsed b.
              JSON_parse h (stripCodeFences (trim resp)) = Some parsed \<and>
              vget parsed ''rewritten_bullet'' = Prim (CStr b) \<and> b \<noteq> [] \<longrightarrow>
              tailorBulletPoint h (Prim (CStr originalBullet)) jd (Prim (CStr targetRoleTitle)) resp
                = Inr (trim b)) \<and>
           (JSON_parse h (stripCodeFences (trim resp)) = None \<or>
            (\<exists>parsed. JSON_parse h (stripCodeFences (trim resp)) = Some parsed \<and>
               \<not> (\<exists>b. vget parsed ''rewritten_bullet'' = Prim (CStr b) \<and> b \<noteq> [])) \<longrightarrow>
              tailorBulletPoint h (Prim (CStr originalBullet)) jd (Prim (CStr targetRoleTitle)) resp
                = Inr (trim resp))) \<and>
         (jdContextString h jd targetRoleTitle = Inl e \<longrightarrow>
            tailorBulletPoint h (Prim (CStr originalBullet)) jd (Prim (CStr targetRoleTitle)) resp
              = Inl e) \<and>
         ((\<forall>k \<in> {''keyResponsibilities'', ''primaryKeywords'', ''requiredTechnicalSkills''}.
             \<not> vtruthy (vget jd k) \<or> (\<exists>xs. vget jd k = Arr xs \<and> list_all isString xs)) \<longrightarrow>
            (\<exists>context. jdContextString h jd targetRoleTitle = Inr context)) \<and>
         ((\<exists>k \<in> {''keyResponsibilities'', ''primaryKeywords'', ''requiredTechnicalSkills''}.
             vtruthy (vget jd k) \<and> \<not> isArray (vget jd k)) \<longrightarrow>
            tailorBulletPoint h (Prim (CStr originalBullet)) jd (Prim (CStr targetRoleTitle)) resp
              = Inl TypeError)"
proof -
  let ?call = "tailorBulletPoint h (Prim (CStr originalBullet)) jd (Prim (CStr targetRoleTitle)) resp"
  note args = nonBlankText_string [OF assms(1)] nonBlankText_string [OF assms(3)]
  have built: "?call = Inr (trim b)"
    if "jdContextString h jd targetRoleTitle = Inr context"
      and "JSON_parse h (stripCodeFences (trim resp)) = Some parsed"
      and "vget parsed ''rewritten_bullet'' = Prim (CStr b)" and "b \<noteq> []" for parsed b
    using that vget_string_truthy [of parsed "''rewritten_bullet''" b] assms(2,4) args
    by (simp add: tailorBulletPoint_def Let_def)
  have plain: "?call = Inr (trim resp)"
    if c: "jdContextString h jd targetRoleTitle = Inr context"
      and r: "JSON_parse h (stripCodeFences (trim resp)) = None \<or>
            (\<exists>parsed. JSON_parse h (stripCodeFences (trim resp)) = Some parsed \<and>
               \<not> (\<exists>b. vget parsed ''rewritten_bullet'' = Prim (CStr b) \<and> b \<noteq> []))"
    using r
  proof
    assume "JSON_parse h (stripCodeFences (trim resp)) = None"
    then show ?thesis using c assms(2,4) args by (simp add: tailorBulletPoint_def Let_def)
  next
    assume "\<exists>parsed. JSON_parse h (stripCodeFences (trim resp)) = Some parsed \<and>
               \<not> (\<exists>b. vget parsed ''rewritten_bullet'' = Prim (CStr b) \<and> b \<noteq> [])"
    then obtain parsed where p: "JSON_parse h (stripCodeFences (trim resp)) = Some parsed"
      and n: "\<not> (\<exists>b. vget parsed ''rewritten_bullet'' = Prim (CStr b) \<and> b \<noteq> [])" by blast
    from n isString_truthy [of "vget parsed ''rewritten_bullet''"]
    have "\<not> (vtruthy (vget parsed ''rewritten_bullet'') \<and> isString (vget parsed ''rewritten_bullet''))"
      by blast
    with p show ?thesis using c assms(2,4) args by (auto simp: tailorBulletPoint_def Let_def)
  qed
  have failed: "?call = Inl x" if "jdContextString h jd targetRoleTitle = Inl x" for x
    using that assms(2) args by (simp add: tailorBulletPoint_def)
  have total: "\<exists>context. jdContextString h jd targetRoleTitle = Inr context"
    if "\<forall>k \<in> {''keyResponsibilities'', ''primaryKeywords'', ''requiredTechnicalSkills''}.
             \<not> vtruthy (vget jd k) \<or> (\<exists>xs. vget jd k = Arr xs \<and> list_all isString xs)"
    using that by (rule jdContextString_arrays)
  have raises: "?call = Inl TypeError"
    if "\<exists>k \<in> {''keyResponsibilities'', ''primaryKeywords'', ''requiredTechnicalSkills''}.
             vtruthy (vget jd k) \<and> \<not> isArray (vget jd k)"
  proof -
    from that obtain k where
      "k \<in> {''keyResponsibilities'', ''primaryKeywords'', ''requiredTechnicalSkills''}"
      "vtruthy (vget jd k)" "\<not> isArray (vget jd k)" by blast
    then have "jdContextString h jd targetRoleTitle = Inl TypeError"
      by (rule jdContextString_not_array)
    then show ?thesis by (rule failed)
  qed
  from built plain failed total raises show ?thesis by blast
qed

theorem tailorBulletPoint_response_witness:
  "tailorBulletPoint sample_host (Prim (CStr ''Built X'')) jdA (Prim (CStr ''Engineer'')) fencedJson
     = Inr ''Led X'' \<and>
   tailorBulletPoint sample_host (Prim (CStr ''Built X'')) jdA (Prim (CStr ''Engineer''))
     ''  Rebuilt X in Python '' = Inr ''Rebuilt X in Python'' \<and>
   tailorBulletPoint sample_host (Prim (CStr ''Built X'')) jdKeywordsText (Prim (CStr ''Engineer''))
     fencedJson = Inl TypeError"
proof -
  have b: "trim ''Built X'' \<noteq> []" and j: "validJdAnalysis jdA" and j': "validJdAnalysis jdKeywordsText"
    and t: "trim ''Engineer'' \<noteq> []"
    by code_simp+
  have r1: "fencedJson \<noteq> [] \<and> \<not> startsWith fencedJson ''ERROR:''" by code_simp
  have r2: "''  Rebuilt X in Python '' \<noteq> [] \<and> \<not> startsWith ''  Rebuilt X in Python '' ''ERROR:''"
    by code_simp
  have arrays: "\<forall>k \<in> {''keyResponsibilities'', ''primaryKeywords'', ''requiredTechnicalSkills''}.
             \<not> vtruthy (vget jdA k) \<or> (\<exists>xs. vget jdA k = Arr xs \<and> list_all isString xs)"
    by (simp add: jdA_def oget_def)
  from tailorBulletPoint_response [OF b j t r1, of sample_host] arrays
  obtain ctx where c: "jdContextString sample_host jdA ''Engineer'' = Inr ctx" by blast
  have p1: "JSON_parse sample_host (stripCodeFences (trim fencedJson)) =
              Some (Obj [(''rewritten_bullet'', Prim (CStr ''Led X''))]) \<and>
            vget (Obj [(''rewritten_bullet'', Prim (CStr ''Led X''))]) ''rewritten_bullet'' =
              Prim (CStr ''Led X'') \<and> ''Led X'' \<noteq> []"
    by code_simp
  have p2: "JSON_parse sample_host (stripCodeFences (trim ''  Rebuilt X in Python '')) = None"
    by code_simp
  have t1: "trim ''Led X'' = ''Led X''" by code_simp
  have t2: "trim ''  Rebuilt X in Python '' = ''Rebuilt X in Python''" by code_simp
  from tailorBulletPoint_response [OF b j t r1, of sample_host ctx] c p1
  have "tailorBulletPoint sample_host (Prim (CStr ''Built X'')) jdA (Prim (CStr ''Engineer''))
          fencedJson = Inr (trim ''Led X'')" by blast
  then have a1: "tailorBulletPoint sample_host (Prim (CStr ''Built X'')) jdA (Prim (CStr ''Engineer''))
          fencedJson = Inr ''Led X''" by (simp only: t1)
  from tailorBulletPoint_response [OF b j t r2, of sample_host ctx] c p2
  have "tailorBulletPoint sample_host (Prim (CStr ''Built X'')) jdA (Prim (CStr ''Engineer''))
          ''  Rebuilt X in Python '' = Inr (trim ''  Rebuilt X in Python '')" by blast
  then have a2: "tailorBulletPoint sample_host (Prim (CStr ''Built X'')) jdA (Prim (CStr ''Engineer''))
          ''  Rebuilt X in Python '' = Inr ''Rebuilt X in Python''" by (simp only: t2)
  have bad: "\<exists>k \<in> {''keyResponsibilities'', ''primaryKeywords'', ''requiredTechnicalSkills''}.
             vtruthy (vget jdKeywordsText k) \<and> \<not> isArray (vget jdKeywordsText k)"
    by (simp add: jdKeywordsText_def oget_def)
  from tailorBulletPoint_response [OF b j' t r1, of sample_host] bad
  have a3: "tailorBulletPoint sample_host (Prim (CStr ''Built X'')) jdKeywordsText
              (Prim (CStr ''Engineer'')) fencedJson = Inl TypeError" by blast
  from a1 a2 a3 show ?thesis by (intro conjI)
qed

text \<open>
  The claim as stated fails: a plain-text answer inside a code fence is not JSON once
  the fence is removed, and the result is the response with its fence.
\<close>

theorem tailorBulletPoint_response_counterexample:
  "fencedText \<noteq> [] \<and> \<not> startsWith fencedText ''ERROR:'' \<and>
   stripCodeFences (trim fencedText) = ''Rebuilt X in Python'' \<and>
   JSON_parse sample_host (stripCodeFences (trim fencedText)) = None \<and>
   tailorBulletPoint sample_host (Prim (CStr ''Built X'')) jdA (Prim (CStr ''Engineer'')) fencedText
     = Inr fencedText \<and>
   startsWith fencedText ''```'' \<and> endsWith fencedText ''```''"
  by code_simp


section \<open>Stage 1: the rows recorded\<close>

lemma toFixed2_zero: "toFixed2 h (Fin 0) = ''0.00''"
  by (simp add: hundredths_def renderFixed2_def showNat.simps)

lemma hundredths_unit:
  assumes "0 \<le> x" and "x \<le> 1"
  shows "hundredths x \<le> 100"
proof -
  from assms have "\<bar>x\<bar> * 100 + 1 / 2 < 101" by simp
  then show ?thesis by (simp add: hundredths_def nat_le_iff floor_le_iff)
qed

lemma toFixed2_unit:
  assumes "0 \<le> x" and "x \<le> 1"
  shows "toFixed2 h (Fin x) = renderFixed2 False (hundredths x)"
proof -
  from assms have "\<bar>x\<bar> \<le> 1" by simp
  also have "(1::rat) < 10 ^ 21" by simp
  finally show ?thesis using assms by simp
qed

lemma experienceRow_score:
  assumes "experienceRow h job j bi t0 mr = Inr newRow"
  shows "newRow ! 4 = Prim (CStr (toFixed2 h (scoreOfMatch mr)))"
  using assms by (auto simp: experienceRow_def scoredBulletRow_def split: sum.splits)

lemma scoreOfMatch_parsed:
  assumes "t0 \<noteq> [] \<and> trim t0 \<noteq> []" and "validJdAnalysis jd"
    and "resp \<noteq> [] \<and> \<not> startsWith resp ''ERROR:''"
    and "JSON_parse h (stripCodeFences (trim resp)) = Some parsed"
    and "vget parsed ''relevanceScore'' = Prim (CNum n)"
    and "isArray (vget parsed ''matchingKeywords'')"
    and "isString (vget parsed ''justification'')"
    and "\<not> vtruthy (vget parsed ''error'')"
  shows "scoreOfMatch (matchResumeSection h t0 jd resp) = n"
proof -
  from assms(5) have "vtruthy parsed" by (cases parsed) auto
  with assms have "matchResumeSection h t0 jd resp = parsed"
    by (simp add: matchResumeSection_def Let_def)
  with assms(5,8) \<open>vtruthy parsed\<close> show ?thesis by (simp add: scoreOfMatch_def)
qed

text \<open>
  C8 (as amended).  The fifth cell of a row is the score of the match result written
  with two decimals.  When the response parses to a result of the expected shape, the
  score is the \<open>relevanceScore\<close> of the response, whatever number that is; when
  scoring failed, the cell is \<open>0.00\<close>.  A score between 0 and 1 is written as a
  number of hundredths between 0 and 100.
\<close>

theorem stage1_score_stored:
  "(experienceRow h job j bi originalBullet mr = Inr newRow \<longrightarrow>
      newRow ! 4 = Prim (CStr (toFixed2 h (scoreOfMatch mr)))) \<and>
   (originalBullet \<noteq> [] \<and> trim originalBullet \<noteq> [] \<and> validJdAnalysis jd \<and>
    resp \<noteq> [] \<and> \<not> startsWith resp ''ERROR:'' \<and>
    JSON_parse h (stripCodeFences (trim resp)) = Some parsed \<and>
    vget parsed ''relevanceScore'' = Prim (CNum n) \<and>
    isArray (vget parsed ''matchingKeywords'') \<and> isString (vget parsed ''justification'') \<and>
    \<not> vtruthy (vget parsed ''error'') \<longrightarrow>
      scoreOfMatch (matchResumeSection h originalBullet jd resp) = n) \<and>
   (\<not> (vtruthy mr \<and> \<not> vtruthy (vget mr ''error'') \<and> isNumber (vget mr ''relevanceScore'')) \<longrightarrow>
      toFixed2 h (scoreOfMatch mr) = ''0.00'') \<and>
   (0 \<le> x \<and> x \<le> 1 \<longrightarrow>
      toFixed2 h (Fin x) = renderFixed2 False (hundredths x) \<and> hundredths x \<le> 100)"
proof (intro conjI impI)
  assume "experienceRow h job j bi originalBullet mr = Inr newRow"
  then show "newRow ! 4 = Prim (CStr (toFixed2 h (scoreOfMatch mr)))"
    by (rule experienceRow_score)
next
  assume "originalBullet \<noteq> [] \<and> trim originalBullet \<noteq> [] \<and> validJdAnalysis jd \<and>
    resp \<noteq> [] \<and> \<not> startsWith resp ''ERROR:'' \<and>
    JSON_parse h (stripCodeFences (trim resp)) = Some parsed \<and>
    vget parsed ''relevanceScore'' = Prim (CNum n) \<and>
    isArray (vget parsed ''matchingKeywords'') \<and> isString (vget parsed ''justification'') \<and>
    \<not> vtruthy (vget parsed ''error'')"
  then show "scoreOfMatch (matchResumeSection h originalBullet jd resp) = n"
    by (intro scoreOfMatch_parsed [of originalBullet jd resp h parsed n]) simp_all
next
  assume "\<not> (vtruthy mr \<and> \<not> vtruthy (vget mr ''error'') \<and> isNumber (vget mr ''relevanceScore''))"
  then have "scoreOfMatch mr = Fin 0" by (auto simp: scoreOfMatch_def)
  then show "toFixed2 h (scoreOfMatch mr) = ''0.00''" by (simp only: toFixed2_zero)
next
  assume "0 \<le> x \<and> x \<le> 1"
  then show "toFixed2 h (Fin x) = renderFixed2 False (hundredths x)"
    by (intro toFixed2_unit) simp_all
next
  assume "0 \<le> x \<and> x \<le> 1"
  then show "hundredths x \<le> 100"
    by (intro hundredths_unit) simp_all
qed

theorem stage1_score_stored_witness:
  "experienceRow sample_host acmeJob 0 0 ''Built X''
     (matchResumeSection sample_host ''Built X'' jdA respGood) = Inr (goodRow ''EXP_J0_B0'' ''Built X'') \<and>
   goodRow ''EXP_J0_B0'' ''Built X'' ! 4 =
     Prim (CStr (toFixed2 sample_host (scoreOfMatch (matchResumeSection sample_host ''Built X'' jdA respGood)))) \<and>
   scoreOfMatch (matchResumeSection sample_host ''Built X'' jdA respGood) = Fin (17 / 20) \<and>
   toFixed2 sample_host (scoreOfMatch (matchResumeSection sample_host ''Led Y'' jdA respFailed)) = ''0.00'' \<and>
   toFixed2 sample_host (Fin (17 / 20)) = renderFixed2 False (hundredths (17 / 20)) \<and>
   hundredths (17 / 20) \<le> 100 \<and>
   renderFixed2 False (hundredths (17 / 20)) = ''0.85''"
proof -
  let ?mr = "matchResumeSection sample_host ''Built X'' jdA respGood"
  let ?bad = "matchResumeSection sample_host ''Led Y'' jdA respFailed"
  let ?parsed = "Obj [(''relevanceScore'', Prim (CNum (Fin (17 / 20)))),
            (''matchingKeywords'', Arr [Prim (CStr ''python''), Prim (CStr ''sql'')]),
            (''justification'', Prim (CStr ''Good match.''))]"
  note T = stage1_score_stored [of sample_host acmeJob 0 0 "''Built X''" ?mr
      "goodRow ''EXP_J0_B0'' ''Built X''" jdA respGood ?parsed "Fin (17 / 20)" "17 / 20"]
  note T' = stage1_score_stored [of sample_host acmeJob 0 0 "''Built X''" ?bad
      "goodRow ''EXP_J0_B0'' ''Built X''" jdA respGood ?parsed "Fin (17 / 20)" "17 / 20"]
  have r: "experienceRow sample_host acmeJob 0 0 ''Built X'' ?mr = Inr (goodRow ''EXP_J0_B0'' ''Built X'')"
    by code_simp
  have p: "''Built X'' \<noteq> [] \<and> trim ''Built X'' \<noteq> [] \<and> validJdAnalysis jdA \<and>
    respGood \<noteq> [] \<and> \<not> startsWith respGood ''ERROR:'' \<and>
    JSON_parse sample_host (stripCodeFences (trim respGood)) = Some ?parsed \<and>
    vget ?parsed ''relevanceScore'' = Prim (CNum (Fin (17 / 20))) \<and>
    isArray (vget ?parsed ''matchingKeywords'') \<and> isString (vget ?parsed ''justification'') \<and>
    \<not> vtruthy (vget ?parsed ''error'')"
    by code_simp
  have f: "\<not> (vtruthy ?bad \<and> \<not> vtruthy (vget ?bad ''error'') \<and> isNumber (vget ?bad ''relevanceScore''))"
    by code_simp
  have u: "(0::rat) \<le> 17 / 20 \<and> (17 / 20 :: rat) \<le> 1" by simp
  have s: "renderFixed2 False (hundredths (17 / 20)) = ''0.85''" by code_simp
  from T r have c1: "goodRow ''EXP_J0_B0'' ''Built X'' ! 4 = Prim (CStr (toFixed2 sample_host (scoreOfMatch ?mr)))"
    by blast
  from T p have c2: "scoreOfMatch ?mr = Fin (17 / 20)" by blast
  from T' f have c3: "toFixed2 sample_host (scoreOfMatch ?bad) = ''0.00''" by blast
  from T u have c4: "toFixed2 sample_host (Fin (17 / 20)) = renderFixed2 False (hundredths (17 / 20))"
    and c5: "hundredths (17 / 20) \<le> 100" by blast+
  from r c1 c2 c3 c4 c5 s show ?thesis by (intro conjI)
qed

text \<open>
  The claim as stated fails: the model answers with the numeric score 1.5, and the row
  recorded holds 1.50.
\<close>

theorem stage1_score_stored_counterexample:
  "scoreOfMatch (matchResumeSection sample_host ''Built X'' jdA respOver) = Fin (3 / 2) \<and>
   experienceRow sample_host acmeJob 0 0 ''Built X''
     (matchResumeSection sample_host ''Built X'' jdA respOver) = Inr overRow \<and>
   overRow ! 4 = Prim (CStr ''1.50'') \<and>
   scoreResponsibilities sample_host (\<lambda>c. respOver) jdA acmeJob 0 0 [Prim (CStr ''Built X'')] (0, []) =
     Inr (1, [overRow])"
  by code_simp


section \<open>Stage 1: the loops of the scoring\<close>































lemma scoredBulletRow_no_score:
  assumes "\<not> (vtruthy m \<and> vtruthy (vget m ''error''))"
    and "\<not> (vtruthy m \<and> \<not> vtruthy (vget m ''error'') \<and> isNumber (vget m ''relevanceScore''))"
  shows "scoredBulletRow h u s i t0 a b c m =
     Inr [Prim (CStr u), Prim (CStr s), i, Prim (CStr t0), Prim (CStr ''0.00''), Prim (CStr []),
          Prim (CStr a), Prim (CStr []), Prim (CStr [])]"
proof -
  from assms have k: "keywordsOfMatch m = Arr []" and sc: "scoreOfMatch m = Fin 0"
    by (auto simp: keywordsOfMatch_def scoreOfMatch_def)
  from assms have j: "justificationOfMatch h a b c m = Inr (Prim (CStr a))"
    by (auto simp: justificationOfMatch_def)
  show ?thesis
    by (simp add: scoredBulletRow_def j k sc joinKeywords_def toFixed2_zero del: toFixed2.simps)
qed























section \<open>Stage 2: the frame of the update\<close>

lemma cellAt_setCell: "k \<noteq> i \<Longrightarrow> cellAt (setCell r i v) k = cellAt r k"
  by (auto simp: cellAt_def setCell_def nth_append)

lemma indexOf_Some: "indexOf xs x = Some i \<Longrightarrow> i < length xs \<and> xs ! i = x"
proof (induction xs arbitrary: i)
  case Nil
  then show ?case by simp
next
  case (Cons y ys)
  then show ?case by (cases "y = x") (auto split: if_splits)
qed

lemma tailorStep_frame:
  assumes "tailorStep h tailor oc sc tc i st = Inr st'" and "i < length (scoringSheetDataRows st)"
  shows "length (scoringSheetDataRows st') = length (scoringSheetDataRows st) \<and>
         (\<forall>j. j \<noteq> i \<longrightarrow> scoringSheetDataRows st' ! j = scoringSheetDataRows st ! j) \<and>
         (\<not> isSelected h (cellAt (scoringSheetDataRows st ! i) sc) \<longrightarrow>
            scoringSheetDataRows st' ! i = scoringSheetDataRows st ! i) \<and>
         (\<forall>k. k \<noteq> tc \<longrightarrow> cellAt (scoringSheetDataRows st' ! i) k =
                            cellAt (scoringSheetDataRows st ! i) k)"
proof (cases "isSelected h (cellAt (scoringSheetDataRows st ! i) sc)")
  case False
  with assms(1) have "st' = st" by (simp add: tailorStep_def Let_def)
  then show ?thesis by simp
next
  case True
  with assms(1) obtain out where
    "scoringSheetDataRows st' = (scoringSheetDataRows st)
        [i := setCell (scoringSheetDataRows st ! i) tc (tailoredCell out)]"
    by (auto simp: tailorStep_def Let_def split: sum.splits)
  with assms(2) True show ?thesis by (auto simp: cellAt_setCell)
qed

lemma tailorLoop_frame:
  assumes "tailorLoop h tailor oc sc tc i n st = Inr st'"
    and "i + n = length (scoringSheetDataRows st)"
  shows "length (scoringSheetDataRows st') = length (scoringSheetDataRows st) \<and>
         (\<forall>j < length (scoringSheetDataRows st).
            (j < i \<longrightarrow> scoringSheetDataRows st' ! j = scoringSheetDataRows st ! j) \<and>
            (\<not> isSelected h (cellAt (scoringSheetDataRows st ! j) sc) \<longrightarrow>
               scoringSheetDataRows st' ! j = scoringSheetDataRows st ! j) \<and>
            (\<forall>k. k \<noteq> tc \<longrightarrow> cellAt (scoringSheetDataRows st' ! j) k =
                               cellAt (scoringSheetDataRows st ! j) k))"
  using assms
proof (induction n arbitrary: i st)
  case 0
  then show ?case by simp
next
  case (Suc n)
  from Suc.prems(1) obtain st1 where s1: "tailorStep h tailor oc sc tc i st = Inr st1"
    and l: "tailorLoop h tailor oc sc tc (Suc i) n st1 = Inr st'"
    by (auto split: sum.splits)
  from Suc.prems(2) have i: "i < length (scoringSheetDataRows st)" by simp
  note F = tailorStep_frame [OF s1 i]
  from F Suc.prems(2) have len: "Suc i + n = length (scoringSheetDataRows st1)" by simp
  note IH = Suc.IH [OF l len]
  show ?case
  proof (intro conjI allI impI)
    show "length (scoringSheetDataRows st') = length (scoringSheetDataRows st)"
      using IH F by simp
  next
    fix j assume j: "j < length (scoringSheetDataRows st)" and "j < i"
    then show "scoringSheetDataRows st' ! j = scoringSheetDataRows st ! j"
      using IH F by auto
  next
    fix j assume j: "j < length (scoringSheetDataRows st)"
      and n: "\<not> isSelected h (cellAt (scoringSheetDataRows st ! j) sc)"
    show "scoringSheetDataRows st' ! j = scoringSheetDataRows st ! j"
    proof (cases "j = i")
      case True
      with n F have "scoringSheetDataRows st1 ! i = scoringSheetDataRows st ! i" by simp
      moreover from IH i F have "scoringSheetDataRows st' ! i = scoringSheetDataRows st1 ! i"
        by simp
      ultimately show ?thesis using True by simp
    next
      case False
      with F have e: "scoringSheetDataRows st1 ! j = scoringSheetDataRows st ! j" by simp
      with n IH j F show ?thesis by simp
    qed
  next
    fix j k assume j: "j < length (scoringSheetDataRows st)" and k: "k \<noteq> tc"
    have "cellAt (scoringSheetDataRows st1 ! j) k = cellAt (scoringSheetDataRows st ! j) k"
      using F k by (cases "j = i") auto
    moreover have "cellAt (scoringSheetDataRows st' ! j) k = cellAt (scoringSheetDataRows st1 ! j) k"
      using IH j k F by simp
    ultimately show "cellAt (scoringSheetDataRows st' ! j) k = cellAt (scoringSheetDataRows st ! j) k"
      by simp
  qed
qed

text \<open>
  C10.  Stage 2 leaves the scoring sheet with as many data rows as before.  A row whose
  selection flag, in upper case and trimmed, is not \<open>YES\<close>, \<open>TRUE\<close>, \<open>1\<close> or
  \<open>X\<close> is unchanged (so is every row when the sheet has no selection column), and in
  every row every cell of a column whose header is not \<open>TailoredBulletText(Stage2)\<close>
  is unchanged.
\<close>

theorem stage2_frame:
  "length (runStage2_sheet h tailor headers dataRows) = length dataRows \<and>
   (\<forall>i < length dataRows.
      (\<forall>sc. indexOf headers (CStr ''SelectToTailor(Manual)'') = Some sc \<and>
            \<not> isSelected h (cellAt (dataRows ! i) sc) \<longrightarrow>
            runStage2_sheet h tailor headers dataRows ! i = dataRows ! i) \<and>
      (indexOf headers (CStr ''SelectToTailor(Manual)'') = None \<longrightarrow>
            runStage2_sheet h tailor headers dataRows ! i = dataRows ! i) \<and>
      (\<forall>k. cellAt headers k \<noteq> CStr ''TailoredBulletText(Stage2)'' \<longrightarrow>
            cellAt (runStage2_sheet h tailor headers dataRows ! i) k = cellAt (dataRows ! i) k))"
proof -
  let ?init = "\<lparr> scoringSheetDataRows = dataRows, bulletsAttemptedToTailor = 0,
                  bulletsSuccessfullyTailored = 0, modifiedDataForSheet = False \<rparr>"
  have "runStage2_sheet h tailor headers dataRows = dataRows \<or>
        (\<exists>oc sc tc st.
           indexOf headers (CStr ''SelectToTailor(Manual)'') = Some sc \<and>
           indexOf headers (CStr ''TailoredBulletText(Stage2)'') = Some tc \<and>
           tailorLoop h tailor oc sc tc 0 (length dataRows) ?init = Inr st \<and>
           runStage2_sheet h tailor headers dataRows = scoringSheetDataRows st)"
  proof (cases "indexOf headers (CStr ''OriginalBulletText'')")
    case None
    then show ?thesis by (simp add: runStage2_sheet_def)
  next
    case oc: (Some oc)
    show ?thesis
    proof (cases "indexOf headers (CStr ''SelectToTailor(Manual)'')")
      case None
      with oc show ?thesis by (simp add: runStage2_sheet_def)
    next
      case sc: (Some sc)
      show ?thesis
      proof (cases "indexOf headers (CStr ''TailoredBulletText(Stage2)'')")
        case None
        with oc sc show ?thesis by (simp add: runStage2_sheet_def)
      next
        case tc: (Some tc)
        show ?thesis
        proof (cases "tailorLoop h tailor oc sc tc 0 (length dataRows) ?init")
          case (Inl e)
          with oc sc tc show ?thesis
            by (simp add: runStage2_sheet_def split: option.splits)
        next
          case (Inr st)
          have "runStage2_sheet h tailor headers dataRows = dataRows \<or>
                runStage2_sheet h tailor headers dataRows = scoringSheetDataRows st"
            using oc sc tc Inr by (simp add: runStage2_sheet_def split: option.splits)
          with sc tc Inr show ?thesis by blast
        qed
      qed
    qed
  qed
  then consider (same) "runStage2_sheet h tailor headers dataRows = dataRows"
    | (written) oc sc tc st where
        "indexOf headers (CStr ''SelectToTailor(Manual)'') = Some sc"
        "indexOf headers (CStr ''TailoredBulletText(Stage2)'') = Some tc"
        "tailorLoop h tailor oc sc tc 0 (length dataRows) ?init = Inr st"
        "runStage2_sheet h tailor headers dataRows = scoringSheetDataRows st"
    by blast
  then show ?thesis
  proof cases
    case same
    then show ?thesis by simp
  next
    case written
    from tailorLoop_frame [OF written(3), of] have F:
      "length (scoringSheetDataRows st) = length dataRows \<and>
         (\<forall>j < length dataRows.
            (\<not> isSelected h (cellAt (dataRows ! j) sc) \<longrightarrow> scoringSheetDataRows st ! j = dataRows ! j) \<and>
            (\<forall>k. k \<noteq> tc \<longrightarrow> cellAt (scoringSheetDataRows st ! j) k = cellAt (dataRows ! j) k))"
      by simp
    from indexOf_Some [OF written(2)] have "cellAt headers tc = CStr ''TailoredBulletText(Stage2)''"
      by (simp add: cellAt_def)
    then have "k \<noteq> tc" if "cellAt headers k \<noteq> CStr ''TailoredBulletText(Stage2)''" for k
      using that by auto
    with F written(1,4) show ?thesis by auto
  qed
qed


theorem stage2_frame_witness:
  "runStage2_sheet sample_host tailorA headersA sheetA = sheetA_after \<and>
   length (runStage2_sheet sample_host tailorA headersA sheetA) = length sheetA \<and>
   runStage2_sheet sample_host tailorA headersA sheetA ! 1 = sheetA ! 1 \<and>
   cellAt (runStage2_sheet sample_host tailorA headersA sheetA ! 0) 3 = cellAt (sheetA ! 0) 3 \<and>
   cellAt (runStage2_sheet sample_host tailorA headersA sheetA ! 2) 7 = cellAt (sheetA ! 2) 7"
proof -
  note T = stage2_frame [of sample_host tailorA headersA sheetA]
  have r: "runStage2_sheet sample_host tailorA headersA sheetA = sheetA_after" by code_simp
  have l: "(0::nat) < length sheetA" "(1::nat) < length sheetA" "(2::nat) < length sheetA"
    by (simp_all add: sheetA_def)
  have sc: "indexOf headersA (CStr ''SelectToTailor(Manual)'') = Some 7 \<and>
            \<not> isSelected sample_host (cellAt (sheetA ! 1) 7)"
    by code_simp
  have k: "cellAt headersA 3 \<noteq> CStr ''TailoredBulletText(Stage2)''"
    "cellAt headersA 7 \<noteq> CStr ''TailoredBulletText(Stage2)''"
    by code_simp+
  from T have a: "length (runStage2_sheet sample_host tailorA headersA sheetA) = length sheetA"
    by blast
  from T l(2) sc have b: "runStage2_sheet sample_host tailorA headersA sheetA ! 1 = sheetA ! 1"
    by blast
  from T l(1) k(1)
  have c: "cellAt (runStage2_sheet sample_host tailorA headersA sheetA ! 0) 3 = cellAt (sheetA ! 0) 3"
    by blast
  from T l(3) k(2)
  have d: "cellAt (runStage2_sheet sample_host tailorA headersA sheetA ! 2) 7 = cellAt (sheetA ! 2) 7"
    by blast
  from r a b c d show ?thesis by (intro conjI)
qed


section \<open>Trimming and the two date patterns\<close>

lemma trim_Nil [simp]: "trim [] = []"
  by (simp add: trim_def)

lemma dropWhile_hd: "xs \<noteq> [] \<Longrightarrow> \<not> P (hd xs) \<Longrightarrow> dropWhile P xs = xs"
  by (cases xs) auto

lemma trim_self:
  assumes "s \<noteq> []" and "\<not> isSpace (hd s)" and "\<not> isSpace (last s)"
  shows "trim s = s"
proof -
  from assms(1,2) have a: "dropWhile isSpace s = s" by (rule dropWhile_hd)
  from assms(1) have "rev s \<noteq> []" and "hd (rev s) = last s" by (simp_all add: hd_rev)
  with assms(3) have "dropWhile isSpace (rev s) = rev s" by (intro dropWhile_hd) simp_all
  with a show ?thesis by (simp add: trim_def)
qed

lemma last_dropWhile: "dropWhile P ys \<noteq> [] \<Longrightarrow> last (dropWhile P ys) = last ys"
  by (induction ys) (auto split: if_splits)

lemma trim_ends:
  assumes "trim s \<noteq> []"
  shows "\<not> isSpace (hd (trim s)) \<and> \<not> isSpace (last (trim s))"
proof -
  let ?u = "dropWhile isSpace s"
  let ?v = "dropWhile isSpace (rev ?u)"
  from assms have v: "?v \<noteq> []" by (simp add: trim_def)
  then have "\<not> isSpace (hd ?v)" by (rule hd_dropWhile)
  with v have l: "\<not> isSpace (last (trim s))" by (simp add: trim_def last_rev)
  have u: "?u \<noteq> []"
  proof
    assume e: "?u = []"
    have "?v = dropWhile isSpace (rev [])" by (simp only: e)
    with v show False by simp
  qed
  then have hu: "\<not> isSpace (hd ?u)" by (rule hd_dropWhile)
  from v have "last ?v = last (rev ?u)" by (rule last_dropWhile)
  also have "\<dots> = hd ?u" using u by (simp only: last_rev)
  finally have "last ?v = hd ?u" .
  moreover have "hd (rev ?v) = last ?v" using v by (simp only: hd_rev)
  ultimately have "hd (trim s) = hd ?u" by (simp only: trim_def)
  with hu l show ?thesis by simp
qed

lemma trim_idem: "trim (trim s) = trim s"
proof (cases "trim s = []")
  case True
  then show ?thesis by simp
next
  case False
  with trim_ends [OF False] show ?thesis by (intro trim_self) simp_all
qed

lemma not_isSpace_digit: "isDigit c \<Longrightarrow> \<not> isSpace c"
  by (auto simp: isDigit_def isSpace_def)

lemma not_isSpace_letter: "isLetter c \<Longrightarrow> \<not> isSpace c"
  by (auto simp: isLetter_def isSpace_def)

lemma isYear_trim:
  assumes "isYear s"
  shows "trim s = s \<and> s \<noteq> [] \<and> length s = 4"
proof -
  from assms have l: "length s = 4" and d: "\<forall>c \<in> set s. isDigit c"
    by (auto simp: isYear_def list_all_iff)
  from l have ne: "s \<noteq> []" by auto
  then have "hd s \<in> set s" and "last s \<in> set s" by simp_all
  with d have "\<not> isSpace (hd s)" and "\<not> isSpace (last s)" by (auto dest: not_isSpace_digit)
  with ne l show ?thesis by (simp add: trim_self)
qed

lemma isMonthYear_trim:
  assumes "isMonthYear s"
  shows "trim s = s \<and> s \<noteq> [] \<and> 8 \<le> length s"
proof -
  let ?l = "takeWhile isLetter s"
  from assms obtain c ds where r: "dropWhile isLetter s = c # ds" and l3: "3 \<le> length ?l"
    and d4: "length ds = 4" and dg: "list_all isDigit ds"
    by (auto simp: isMonthYear_def Let_def split: list.splits)
  have s: "s = ?l @ c # ds" using r by (metis takeWhile_dropWhile_id)
  from l3 have lne: "?l \<noteq> []" by auto
  then have "hd s = hd ?l" using s by (metis hd_append2)
  moreover from lne have "hd ?l \<in> set ?l" by simp
  then have "isLetter (hd ?l)" by (auto dest: set_takeWhileD)
  ultimately have h: "\<not> isSpace (hd s)" by (auto dest: not_isSpace_letter)
  from d4 have dne: "ds \<noteq> []" by auto
  then have "last s = last ds" using s by (metis last_append last_ConsR list.distinct(1))
  moreover from dne dg have "isDigit (last ds)" by (auto simp: list_all_iff)
  ultimately have e: "\<not> isSpace (last s)" by (auto dest: not_isSpace_digit)
  have "length s = length (?l @ c # ds)" using s by (rule arg_cong)
  then have "length s = length ?l + 5" using d4 by simp
  with l3 have "8 \<le> length s" by simp
  moreover from s have "s \<noteq> []" by auto
  ultimately show ?thesis using h e by (simp add: trim_self)
qed


section \<open>Dates\<close>

lemma length_toUpperCase: "length (toUpperCase s) = length s"
  by (simp add: toUpperCase_def)

lemma formatDate_blank:
  assumes "c = CNull \<or> c = CUndef \<or> trim (String_cell h c) = []"
  shows "formatDateFromSheet h c e = (if e then ''Present'' else [])"
  using assms by (auto simp: formatDateFromSheet_def)

lemma formatDate_shape:
  assumes "isYear s \<or> isMonthYear s"
  shows "formatDateFromSheet h (CStr s) e = s"
proof -
  from assms isYear_trim [of s] isMonthYear_trim [of s]
  have t: "trim s = s" and ne: "s \<noteq> []" and l: "length s = 4 \<or> 8 \<le> length s" by auto
  have "toUpperCase s \<noteq> ''PRESENT''"
  proof
    assume "toUpperCase s = ''PRESENT''"
    then have "length (toUpperCase s) = length ''PRESENT''" by (rule arg_cong)
    with l show False by (simp add: length_toUpperCase)
  qed
  with t ne assms show ?thesis
    by (cases "Date_parse h s") (auto simp: formatDateFromSheet_def Let_def)
qed

section \<open>The bullets of a normalized item\<close>

lemma collectBullets_eq:
  "collectBullets p item k n =
     map trim (filter (\<lambda>v. trim v \<noteq> []) (map (\<lambda>j. valueOf item (p @ showNat j)) [k..<k + n]))"
proof (induction n arbitrary: k)
  case 0
  then show ?case by simp
next
  case (Suc n)
  have u: "[k..<k + Suc n] = k # [Suc k..<Suc k + n]" by (simp add: upt_conv_Cons)
  have e: "(valueOf item (p @ showNat k) \<noteq> [] \<and> trim (valueOf item (p @ showNat k)) \<noteq> []) =
           (trim (valueOf item (p @ showNat k)) \<noteq> [])"
    by auto
  show ?case unfolding u using Suc [of "Suc k"] by (simp add: e)
qed

lemma collectBullets_elems:
  assumes "b \<in> set (collectBullets p item k n)"
  shows "b \<noteq> [] \<and> trim b = b"
  using assms by (auto simp: collectBullets_eq trim_idem)

lemma collectBullets_length: "length (collectBullets p item k n) \<le> n"
  using length_filter_le [of "\<lambda>v. trim v \<noteq> []" "map (\<lambda>j. valueOf item (p @ showNat j)) [k..<k + n]"]
  by (simp add: collectBullets_eq)

lemma update_absent: "k \<notin> fst ` set al \<Longrightarrow> AList.update k v al = al @ [(k, v)]"
  by (induction al) auto

lemma fold_update_distinct:
  assumes "distinct (map fst ps)" and "fst ` set acc \<inter> fst ` set ps = {}"
  shows "fold (\<lambda>kv item. AList.update (fst kv) (snd kv) item) ps acc = acc @ ps"
  using assms
proof (induction ps arbitrary: acc)
  case Nil
  then show ?case by simp
next
  case (Cons p ps)
  from Cons.prems(2) have "fst p \<notin> fst ` set acc" by auto
  then have u: "AList.update (fst p) (snd p) acc = acc @ [p]" by (simp add: update_absent)
  from Cons.prems have "fst ` set (acc @ [p]) \<inter> fst ` set ps = {}" by auto
  with Cons.IH [of "acc @ [p]"] Cons.prems(1) u show ?case by simp
qed

lemma itemFromSheet_distinct:
  assumes "distinct (map fst (sheetPairs headers row))"
  shows "itemFromSheet headers row = sheetPairs headers row"
  using fold_update_distinct [OF assms, of "[]"] by (simp add: itemFromSheet_def)

lemma mappedItem_distinct:
  assumes "distinct (map (\<lambda>kv. jsKeyOf sec (fst kv)) ps)"
  shows "mappedItem sec ps = map (\<lambda>kv. (jsKeyOf sec (fst kv), trim (snd kv))) ps"
proof -
  let ?m = "\<lambda>kv. (jsKeyOf sec (fst kv), trim (snd kv))"
  have "mappedItem sec ps = fold (\<lambda>kv item. AList.update (fst kv) (snd kv) item) (map ?m ps) []"
    by (simp add: mappedItem_def fold_map comp_def)
  moreover have "distinct (map fst (map ?m ps))" using assms by (simp add: comp_def)
  ultimately show ?thesis using fold_update_distinct [of "map ?m ps" "[]"] by simp
qed

lemma distinct_jsKeys:
  assumes "distinct (map (\<lambda>kv. jsKeyOf sec (fst kv)) ps)"
  shows "distinct (map fst ps)"
proof -
  have "inj_on (\<lambda>kv. jsKeyOf sec (fst kv)) (set ps)" and "distinct ps"
    using assms by (simp_all add: distinct_map)
  then have "inj_on fst (set ps)" by (auto simp: inj_on_def)
  with \<open>distinct ps\<close> show ?thesis by (simp add: distinct_map)
qed

lemma map_of_mapped:
  "map_of (map (\<lambda>kv. (f (fst kv), g (snd kv))) ps) k =
     map_option (\<lambda>kv. g (snd kv)) (find (\<lambda>kv. f (fst kv) = k) ps)"
  by (induction ps) auto

lemma valueOf_formatField:
  "k \<noteq> k' \<Longrightarrow> valueOf (formatField h k' e item) k = valueOf item k"
  by (simp add: formatField_def valueOf_def update_conv')

lemma valueOf_formatDates:
  assumes "k \<noteq> ''startDate''" "k \<noteq> ''endDate''" "k \<noteq> ''date''" "k \<noteq> ''issueDate''"
  shows "valueOf (formatDates h sec item) k = valueOf item k"
  using assms by (simp add: formatDates_def Let_def valueOf_formatField)


section \<open>Dates: the results\<close>

lemma valueOf_formatField_same:
  "valueOf (formatField h k e item) k =
     (if valueOf item k = [] then [] else formatDateFromSheet h (CStr (valueOf item k)) e)"
  by (simp add: formatField_def valueOf_def update_conv')

lemma valueOf_formatDates_endDate:
  "valueOf (formatDates h sec item) ''endDate'' =
     (if valueOf item ''endDate'' = [] then []
      else formatDateFromSheet h (CStr (valueOf item ''endDate'')) True)"
  by (simp add: formatDates_def Let_def valueOf_formatField valueOf_formatField_same)

lemma valueOf_formatDates_startDate:
  "valueOf (formatDates h sec item) ''startDate'' =
     (if valueOf item ''startDate'' = [] then []
      else formatDateFromSheet h (CStr (valueOf item ''startDate'')) False)"
  by (simp add: formatDates_def Let_def valueOf_formatField valueOf_formatField_same)

text \<open>
  C7 (as amended).  \<open>formatDateFromSheet\<close> has a result for every cell; with \<open>d\<close>
  the text of the cell, trimmed: a missing or blank cell gives "Present" for an end date
  and the empty string otherwise; when \<open>d\<close> is "present" in any letter case the
  result is "Present"; when the cell is no date (an invalid \<open>Date\<close>, or a text that
  \<open>new Date\<close> does not parse) the result is \<open>d\<close>; when it is a date and \<open>d\<close>
  is four digits, or three to nine letters, a blank and four digits, the result is
  \<open>d\<close>; any other date gives the name of its month and its year.  In particular a
  string of one of the two shapes is returned unchanged.  The normaliser formats a date
  field of an item only when the field is not empty: an empty start or end date stays
  empty.
\<close>

theorem formatDateFromSheet_cases:
  "(c = CNull \<or> c = CUndef \<or> trim (String_cell h c) = [] \<longrightarrow>
      formatDateFromSheet h c e = (if e then ''Present'' else [])) \<and>
   (c \<noteq> CNull \<and> c \<noteq> CUndef \<and> trim (String_cell h c) \<noteq> [] \<and>
    toUpperCase (trim (String_cell h c)) = ''PRESENT'' \<longrightarrow>
      formatDateFromSheet h c e = ''Present'') \<and>
   (c \<noteq> CNull \<and> c \<noteq> CUndef \<and> trim (String_cell h c) \<noteq> [] \<and>
    toUpperCase (trim (String_cell h c)) \<noteq> ''PRESENT'' \<and>
    (case c of CDate d \<Rightarrow> d | _ \<Rightarrow> Date_parse h (trim (String_cell h c))) = None \<longrightarrow>
      formatDateFromSheet h c e = trim (String_cell h c)) \<and>
   (c \<noteq> CNull \<and> c \<noteq> CUndef \<and> trim (String_cell h c) \<noteq> [] \<and>
    toUpperCase (trim (String_cell h c)) \<noteq> ''PRESENT'' \<and>
    (case c of CDate d \<Rightarrow> d | _ \<Rightarrow> Date_parse h (trim (String_cell h c))) = Some t \<and>
    (isYear (trim (String_cell h c)) \<or> isMonthYear (trim (String_cell h c))) \<longrightarrow>
      formatDateFromSheet h c e = trim (String_cell h c)) \<and>
   (c \<noteq> CNull \<and> c \<noteq> CUndef \<and> trim (String_cell h c) \<noteq> [] \<and>
    toUpperCase (trim (String_cell h c)) \<noteq> ''PRESENT'' \<and>
    (case c of CDate d \<Rightarrow> d | _ \<Rightarrow> Date_parse h (trim (String_cell h c))) = Some t \<and>
    \<not> isYear (trim (String_cell h c)) \<and> \<not> isMonthYear (trim (String_cell h c)) \<and>
    Date_getMonth h t < 12 \<longrightarrow>
      formatDateFromSheet h c e =
        monthNames ! Date_getMonth h t @ '' '' @ showInt (Date_getFullYear h t)) \<and>
   (isYear s \<or> isMonthYear s \<longrightarrow> formatDateFromSheet h (CStr s) e = s) \<and>
   valueOf (formatDates h sectionTitleKey item) ''startDate'' =
     (if valueOf item ''startDate'' = [] then []
      else formatDateFromSheet h (CStr (valueOf item ''startDate'')) False) \<and>
   valueOf (formatDates h sectionTitleKey item) ''endDate'' =
     (if valueOf item ''endDate'' = [] then []
      else formatDateFromSheet h (CStr (valueOf item ''endDate'')) True)"
proof (intro conjI impI)
  assume "c = CNull \<or> c = CUndef \<or> trim (String_cell h c) = []"
  then show "formatDateFromSheet h c e = (if e then ''Present'' else [])"
    by (rule formatDate_blank)
next
  assume "c \<noteq> CNull \<and> c \<noteq> CUndef \<and> trim (String_cell h c) \<noteq> [] \<and>
    toUpperCase (trim (String_cell h c)) = ''PRESENT''"
  then show "formatDateFromSheet h c e = ''Present''"
    by (simp add: formatDateFromSheet_def Let_def)
next
  assume "c \<noteq> CNull \<and> c \<noteq> CUndef \<and> trim (String_cell h c) \<noteq> [] \<and>
    toUpperCase (trim (String_cell h c)) \<noteq> ''PRESENT'' \<and>
    (case c of CDate d \<Rightarrow> d | _ \<Rightarrow> Date_parse h (trim (String_cell h c))) = None"
  then show "formatDateFromSheet h c e = trim (String_cell h c)"
    by (simp add: formatDateFromSheet_def Let_def)
next
  assume "c \<noteq> CNull \<and> c \<noteq> CUndef \<and> trim (String_cell h c) \<noteq> [] \<and>
    toUpperCase (trim (String_cell h c)) \<noteq> ''PRESENT'' \<and>
    (case c of CDate d \<Rightarrow> d | _ \<Rightarrow> Date_parse h (trim (String_cell h c))) = Some t \<and>
    (isYear (trim (String_cell h c)) \<or> isMonthYear (trim (String_cell h c)))"
  then show "formatDateFromSheet h c e = trim (String_cell h c)"
    by (auto simp: formatDateFromSheet_def Let_def)
next
  assume "c \<noteq> CNull \<and> c \<noteq> CUndef \<and> trim (String_cell h c) \<noteq> [] \<and>
    toUpperCase (trim (String_cell h c)) \<noteq> ''PRESENT'' \<and>
    (case c of CDate d \<Rightarrow> d | _ \<Rightarrow> Date_parse h (trim (String_cell h c))) = Some t \<and>
    \<not> isYear (trim (String_cell h c)) \<and> \<not> isMonthYear (trim (String_cell h c)) \<and>
    Date_getMonth h t < 12"
  then show "formatDateFromSheet h c e =
        monthNames ! Date_getMonth h t @ '' '' @ showInt (Date_getFullYear h t)"
    by (simp add: formatDateFromSheet_def Let_def monthNames_def)
next
  assume "isYear s \<or> isMonthYear s"
  then show "formatDateFromSheet h (CStr s) e = s" by (rule formatDate_shape)
next
  show "valueOf (formatDates h sectionTitleKey item) ''startDate'' =
     (if valueOf item ''startDate'' = [] then []
      else formatDateFromSheet h (CStr (valueOf item ''startDate'')) False)"
    by (rule valueOf_formatDates_startDate)
next
  show "valueOf (formatDates h sectionTitleKey item) ''endDate'' =
     (if valueOf item ''endDate'' = [] then []
      else formatDateFromSheet h (CStr (valueOf item ''endDate'')) True)"
    by (rule valueOf_formatDates_endDate)
qed

theorem formatDateFromSheet_cases_witness:
  "formatDateFromSheet sample_host (CStr ''  '') True = ''Present'' \<and>
   formatDateFromSheet sample_host (CStr []) False = [] \<and>
   formatDateFromSheet sample_host (CStr ''PRESENT'') True = ''Present'' \<and>
   formatDateFromSheet sample_host (CStr ''Spring term'') False = ''Spring term'' \<and>
   formatDateFromSheet sample_host (CStr '' 2020 '') False = ''2020'' \<and>
   formatDateFromSheet sample_host (CStr ''March 15, 2022'') False = ''March 2022'' \<and>
   formatDateFromSheet sample_host (CDate (Some 1647302400000)) True = ''March 2022'' \<and>
   formatDateFromSheet sample_host (CStr ''Mar 2022'') False = ''Mar 2022'' \<and>
   valueOf (formatDates sample_host ''EXPERIENCE''
              [(''startDate'', ''March 15, 2022''), (''endDate'', [])]) ''startDate'' = ''March 2022'' \<and>
   valueOf (formatDates sample_host ''EXPERIENCE''
              [(''startDate'', ''March 15, 2022''), (''endDate'', [])]) ''endDate'' = []"
proof -
  note T = formatDateFromSheet_cases [where h = sample_host]
  let ?item = "[(''startDate'', ''March 15, 2022''), (''endDate'', [])]"
  have h1: "CStr ''  '' = CNull \<or> CStr ''  '' = CUndef \<or> trim (String_cell sample_host (CStr ''  '')) = []"
    by code_simp
  have h2: "CStr [] = CNull \<or> CStr [] = CUndef \<or> trim (String_cell sample_host (CStr [])) = []"
    by code_simp
  have h3: "CStr ''PRESENT'' \<noteq> CNull \<and> CStr ''PRESENT'' \<noteq> CUndef \<and>
            trim (String_cell sample_host (CStr ''PRESENT'')) \<noteq> [] \<and>
            toUpperCase (trim (String_cell sample_host (CStr ''PRESENT''))) = ''PRESENT''"
    by code_simp
  have h4: "CStr ''Spring term'' \<noteq> CNull \<and> CStr ''Spring term'' \<noteq> CUndef \<and>
            trim (String_cell sample_host (CStr ''Spring term'')) \<noteq> [] \<and>
            toUpperCase (trim (String_cell sample_host (CStr ''Spring term''))) \<noteq> ''PRESENT'' \<and>
            (case CStr ''Spring term'' of CDate d \<Rightarrow> d
             | _ \<Rightarrow> Date_parse sample_host (trim (String_cell sample_host (CStr ''Spring term'')))) = None"
    by code_simp
  have t4: "trim (String_cell sample_host (CStr ''Spring term'')) = ''Spring term''" by code_simp
  have h5: "CStr '' 2020 '' \<noteq> CNull \<and> CStr '' 2020 '' \<noteq> CUndef \<and>
            trim (String_cell sample_host (CStr '' 2020 '')) \<noteq> [] \<and>
            toUpperCase (trim (String_cell sample_host (CStr '' 2020 ''))) \<noteq> ''PRESENT'' \<and>
            (case CStr '' 2020 '' of CDate d \<Rightarrow> d
             | _ \<Rightarrow> Date_parse sample_host (trim (String_cell sample_host (CStr '' 2020 '')))) =
              Some 1577836800000 \<and>
            (isYear (trim (String_cell sample_host (CStr '' 2020 ''))) \<or>
             isMonthYear (trim (String_cell sample_host (CStr '' 2020 ''))))"
    by code_simp
  have t5: "trim (String_cell sample_host (CStr '' 2020 '')) = ''2020''" by code_simp
  have h6: "CStr ''March 15, 2022'' \<noteq> CNull \<and> CStr ''March 15, 2022'' \<noteq> CUndef \<and>
            trim (String_cell sample_host (CStr ''March 15, 2022'')) \<noteq> [] \<and>
            toUpperCase (trim (String_cell sample_host (CStr ''March 15, 2022''))) \<noteq> ''PRESENT'' \<and>
            (case CStr ''March 15, 2022'' of CDate d \<Rightarrow> d
             | _ \<Rightarrow> Date_parse sample_host (trim (String_cell sample_host (CStr ''March 15, 2022'')))) =
              Some 1647302400000 \<and>
            \<not> isYear (trim (String_cell sample_host (CStr ''March 15, 2022''))) \<and>
            \<not> isMonthYear (trim (String_cell sample_host (CStr ''March 15, 2022''))) \<and>
            Date_getMonth sample_host 1647302400000 < 12"
    by code_simp
  have h7: "CDate (Some 1647302400000) \<noteq> CNull \<and> CDate (Some 1647302400000) \<noteq> CUndef \<and>
            trim (String_cell sample_host (CDate (Some 1647302400000))) \<noteq> [] \<and>
            toUpperCase (trim (String_cell sample_host (CDate (Some 1647302400000)))) \<noteq> ''PRESENT'' \<and>
            (case CDate (Some 1647302400000) of CDate d \<Rightarrow> d
             | _ \<Rightarrow> Date_parse sample_host (trim (String_cell sample_host (CDate (Some 1647302400000))))) =
              Some 1647302400000 \<and>
            \<not> isYear (trim (String_cell sample_host (CDate (Some 1647302400000)))) \<and>
            \<not> isMonthYear (trim (String_cell sample_host (CDate (Some 1647302400000)))) \<and>
            Date_getMonth sample_host 1647302400000 < 12"
    by code_simp
  have m: "monthNames ! Date_getMonth sample_host 1647302400000 @ '' '' @
           showInt (Date_getFullYear sample_host 1647302400000) = ''March 2022''" by code_simp
  have h8: "isYear ''Mar 2022'' \<or> isMonthYear ''Mar 2022''" by code_simp
  have v: "valueOf ?item ''startDate'' = ''March 15, 2022'' \<and> valueOf ?item ''endDate'' = []"
    by code_simp
  from T [of "CStr ''  ''" True] h1
  have c1: "formatDateFromSheet sample_host (CStr ''  '') True = ''Present''" by simp
  from T [of "CStr []" False] h2
  have c2: "formatDateFromSheet sample_host (CStr []) False = []" by simp
  from T [of "CStr ''PRESENT''" True] h3
  have c3: "formatDateFromSheet sample_host (CStr ''PRESENT'') True = ''Present''" by blast
  from T [of "CStr ''Spring term''" False] h4
  have "formatDateFromSheet sample_host (CStr ''Spring term'') False =
          trim (String_cell sample_host (CStr ''Spring term''))" by blast
  then have c4: "formatDateFromSheet sample_host (CStr ''Spring term'') False = ''Spring term''"
    by (simp only: t4)
  from T [of "CStr '' 2020 ''" False 1577836800000] h5
  have "formatDateFromSheet sample_host (CStr '' 2020 '') False =
          trim (String_cell sample_host (CStr '' 2020 ''))" by blast
  then have c5: "formatDateFromSheet sample_host (CStr '' 2020 '') False = ''2020''"
    by (simp only: t5)
  from T [of "CStr ''March 15, 2022''" False 1647302400000] h6
  have "formatDateFromSheet sample_host (CStr ''March 15, 2022'') False =
          monthNames ! Date_getMonth sample_host 1647302400000 @ '' '' @
           showInt (Date_getFullYear sample_host 1647302400000)" by blast
  then have c6: "formatDateFromSheet sample_host (CStr ''March 15, 2022'') False = ''March 2022''"
    by (simp only: m)
  from T [of "CDate (Some 1647302400000)" True 1647302400000] h7
  have "formatDateFromSheet sample_host (CDate (Some 1647302400000)) True =
          monthNames ! Date_getMonth sample_host 1647302400000 @ '' '' @
           showInt (Date_getFullYear sample_host 1647302400000)" by blast
  then have c7: "formatDateFromSheet sample_host (CDate (Some 1647302400000)) True = ''March 2022''"
    by (simp only: m)
  from T [where s = "''Mar 2022''" and e = False] h8
  have c8: "formatDateFromSheet sample_host (CStr ''Mar 2022'') False = ''Mar 2022''" by blast
  from T [where sectionTitleKey = "''EXPERIENCE''" and item = ?item]
  have s9: "valueOf (formatDates sample_host ''EXPERIENCE'' ?item) ''startDate'' =
     (if valueOf ?item ''startDate'' = [] then []
      else formatDateFromSheet sample_host (CStr (valueOf ?item ''startDate'')) False)"
    and s10: "valueOf (formatDates sample_host ''EXPERIENCE'' ?item) ''endDate'' =
     (if valueOf ?item ''endDate'' = [] then []
      else formatDateFromSheet sample_host (CStr (valueOf ?item ''endDate'')) True)"
    by blast+
  from s9 v c6 have c9: "valueOf (formatDates sample_host ''EXPERIENCE'' ?item) ''startDate'' = ''March 2022''"
    by simp
  from s10 v have c10: "valueOf (formatDates sample_host ''EXPERIENCE'' ?item) ''endDate'' = []"
    by simp
  from c1 c2 c3 c4 c5 c6 c7 c8 c9 c10 show ?thesis by (intro conjI)
qed

text \<open>
  The claim as stated fails: "present" is no date, and it is not returned as it is; and
  the empty end date of an item is not replaced by "Present".
\<close>

theorem formatDateFromSheet_counterexample:
  "Date_parse sample_host ''present'' = None \<and>
   formatDateFromSheet sample_host (CStr ''present'') True = ''Present'' \<and>
   valueOf (datedItem sample_host ''EXPERIENCE'' [''Company'', ''StartDate'', ''EndDate'']
              [''Acme Corp'', ''2020'', ''present'']) ''endDate'' = ''Present'' \<and>
   valueOf (datedItem sample_host ''EXPERIENCE'' [''Company'', ''StartDate'', ''EndDate'']
              [''Acme Corp'', ''2020'', []]) ''endDate'' = []"
  by code_simp

section \<open>The bullets of a normalized item: the columns\<close>

lemma sheetPairs_zip:
  "length row = length headers \<Longrightarrow>
     sheetPairs headers row = filter (\<lambda>kv. fst kv \<noteq> []) (zip (map trim headers) row)"
proof (induction headers arbitrary: row)
  case Nil
  then show ?case by simp
next
  case (Cons header rest)
  then obtain c cs where row: "row = c # cs" and l: "length cs = length rest"
    by (cases row) auto
  have e: "(header \<noteq> [] \<and> trim header \<noteq> []) = (trim header \<noteq> [])" by auto
  show ?case using Cons.IH [OF l] by (simp add: row e)
qed

lemma map_fst_sheetPairs:
  assumes "length row = length headers"
  shows "map fst (sheetPairs headers row) = filter (\<lambda>x. x \<noteq> []) (map trim headers)"
proof -
  have "map fst (filter (\<lambda>kv. fst kv \<noteq> []) (zip (map trim headers) row)) =
        filter (\<lambda>x. x \<noteq> []) (map fst (zip (map trim headers) row))"
    by (simp add: filter_map comp_def)
  with assms show ?thesis by (simp add: sheetPairs_zip)
qed

lemma find_distinct_key:
  assumes "distinct (map g xs)" and "kv \<in> set xs"
  shows "find (\<lambda>x. g x = g kv) xs = Some kv"
  using assms by (induction xs) auto

lemma map_of_filter_fst:
  "P k \<Longrightarrow> map_of (filter (\<lambda>kv. P (fst kv)) xs) k = map_of xs k"
  by (induction xs) auto

lemma showNat_digits: "set (showNat k) \<subseteq> set ''0123456789''"
proof (induction k rule: showNat.induct)
  case (1 n)
  show ?case
  proof (cases "n < 10")
    case True
    then have "''0123456789'' ! n \<in> set ''0123456789''" by (intro nth_mem) simp
    with True show ?thesis by (subst showNat.simps) simp
  next
    case False
    have "''0123456789'' ! (n mod 10) \<in> set ''0123456789''" by (intro nth_mem) simp
    with False 1 show ?thesis by (subst showNat.simps) simp
  qed
qed

lemma showNat_no_space: "filter (\<lambda>c. \<not> isSpace c) (showNat k) = showNat k"
proof -
  have "\<forall>c \<in> set (showNat k). \<not> isSpace c"
    using showNat_digits [of k] by (auto simp: isSpace_def)
  then show ?thesis by (simp add: filter_id_conv)
qed

lemma no_space_numbered:
  assumes "\<forall>c \<in> set column. \<not> isSpace c"
  shows "filter (\<lambda>c. \<not> isSpace c) (column @ showNat k) = column @ showNat k"
proof -
  have "\<forall>c \<in> set (showNat k). \<not> isSpace c"
    using showNat_digits [of k] by (auto simp: isSpace_def)
  with assms have "\<forall>c \<in> set (column @ showNat k). \<not> isSpace c" by auto
  then show ?thesis by (rule filter_True)
qed

lemma jsKeyOf_Responsibility:
  "jsKeyOf sec (''Responsibility'' @ showNat k) = ''responsibility'' @ showNat k"
proof -
  have "\<forall>c \<in> set ''Responsibility''. \<not> isSpace c" by (simp add: isSpace_def)
  from no_space_numbered [OF this, of k] show ?thesis
    unfolding jsKeyOf_def by (simp add: keyMappings_def toLowerCase_char_def)
qed

lemma jsKeyOf_DescriptionBullet:
  "jsKeyOf sec (''DescriptionBullet'' @ showNat k) = ''descriptionBullet'' @ showNat k"
proof -
  have "\<forall>c \<in> set ''DescriptionBullet''. \<not> isSpace c" by (simp add: isSpace_def)
  from no_space_numbered [OF this, of k] show ?thesis
    unfolding jsKeyOf_def by (simp add: keyMappings_def toLowerCase_char_def)
qed

lemma valueOf_datedItem:
  assumes "distinct (map (\<lambda>kv. jsKeyOf sec (fst kv)) (sheetPairs headers row))"
    and "kv \<in> set (sheetPairs headers row)"
    and "jsKeyOf sec (fst kv) \<notin> {''startDate'', ''endDate'', ''date'', ''issueDate''}"
  shows "valueOf (datedItem h sec headers row) (jsKeyOf sec (fst kv)) = trim (snd kv)"
proof -
  from distinct_jsKeys [OF assms(1)] have "itemFromSheet headers row = sheetPairs headers row"
    by (rule itemFromSheet_distinct)
  with mappedItem_distinct [OF assms(1)]
  have m: "mappedItem sec (itemFromSheet headers row) =
           map (\<lambda>kv. (jsKeyOf sec (fst kv), trim (snd kv))) (sheetPairs headers row)" by simp
  have "valueOf (datedItem h sec headers row) (jsKeyOf sec (fst kv)) =
        valueOf (mappedItem sec (itemFromSheet headers row)) (jsKeyOf sec (fst kv))"
    unfolding datedItem_def using assms(3) by (intro valueOf_formatDates) simp_all
  also have "\<dots> = trim (snd kv)"
    unfolding m valueOf_def map_of_mapped
    using find_distinct_key [OF assms(1,2)] by simp
  finally show ?thesis .
qed

lemma cell_of_column:
  assumes l: "length row = length headers"
    and d: "distinct (map (jsKeyOf sec) (filter (\<lambda>x. x \<noteq> []) (map trim headers)))"
    and n: "nm \<in> set (map trim headers)" and ne: "nm \<noteq> []"
    and k: "jsKeyOf sec nm \<notin> {''startDate'', ''endDate'', ''date'', ''issueDate''}"
  shows "valueOf (datedItem h sec headers row) (jsKeyOf sec nm) =
         trim (case map_of (zip (map trim headers) row) nm of None \<Rightarrow> [] | Some c \<Rightarrow> c)"
proof -
  let ?pairs = "sheetPairs headers row"
  have fst: "map fst ?pairs = filter (\<lambda>x. x \<noteq> []) (map trim headers)"
    using l by (rule map_fst_sheetPairs)
  have "map (\<lambda>kv. jsKeyOf sec (fst kv)) ?pairs = map (jsKeyOf sec) (map fst ?pairs)" by simp
  with d fst have dk: "distinct (map (\<lambda>kv. jsKeyOf sec (fst kv)) ?pairs)" by simp
  from n ne fst have "nm \<in> set (map fst ?pairs)" by simp
  then obtain kv where kv: "kv \<in> set ?pairs" and f: "fst kv = nm" by auto
  from distinct_jsKeys [OF dk] kv have "map_of ?pairs (fst kv) = Some (snd kv)"
    by (intro map_of_is_SomeI) simp_all
  moreover have "map_of ?pairs nm = map_of (zip (map trim headers) row) nm"
    unfolding sheetPairs_zip [OF l] using ne
    by (rule map_of_filter_fst [where P = "\<lambda>x. x \<noteq> []"])
  ultimately have c: "map_of (zip (map trim headers) row) nm = Some (snd kv)"
    using f by simp
  from valueOf_datedItem [OF dk kv] k f
  have "valueOf (datedItem h sec headers row) (jsKeyOf sec nm) = trim (snd kv)" by simp
  with c show ?thesis by simp
qed

lemma nonblank_trimmed:
  "map trim (filter (\<lambda>v. trim v \<noteq> []) (map (\<lambda>k. trim (f k)) ks)) =
   filter (\<lambda>b. b \<noteq> []) (map (\<lambda>k. trim (f k)) ks)"
  by (induction ks) (auto simp: trim_idem)

lemma cells_in_column_order:
  assumes "distinct (map fst ys)"
  shows "map (\<lambda>n. case map_of ys n of None \<Rightarrow> [] | Some c \<Rightarrow> c) (map fst ys) = map snd ys"
  using assms
proof (induction ys)
  case Nil
  then show ?case by simp
next
  case (Cons y ys)
  obtain k v where y: "y = (k, v)" by (cases y)
  from Cons.prems y have notin: "k \<notin> set (map fst ys)" and d: "distinct (map fst ys)" by auto
  have "map (\<lambda>n. case map_of ((k, v) # ys) n of None \<Rightarrow> [] | Some c \<Rightarrow> c) (map fst ys) =
        map (\<lambda>n. case map_of ys n of None \<Rightarrow> [] | Some c \<Rightarrow> c) (map fst ys)"
  proof (rule map_cong [OF refl])
    fix n assume "n \<in> set (map fst ys)"
    with notin have "n \<noteq> k" by auto
    then show "(case map_of ((k, v) # ys) n of None \<Rightarrow> [] | Some c \<Rightarrow> c) =
               (case map_of ys n of None \<Rightarrow> [] | Some c \<Rightarrow> c)" by simp
  qed
  with Cons.IH [OF d] show ?case by (simp add: y)
qed

lemma numbered_columns_in_order:
  assumes l: "length row = length headers"
    and o: "filter (\<lambda>x. x \<in> set names) (map trim headers) = names"
    and dn: "distinct names"
  shows "map (\<lambda>n. case map_of (zip (map trim headers) row) n of None \<Rightarrow> [] | Some c \<Rightarrow> c) names =
         map snd (filter (\<lambda>kv. fst kv \<in> set names) (zip (map trim headers) row))"
proof -
  let ?cols = "zip (map trim headers) row"
  let ?ys = "filter (\<lambda>kv. fst kv \<in> set names) ?cols"
  have "map fst ?ys = filter (\<lambda>x. x \<in> set names) (map fst ?cols)"
    by (simp add: filter_map comp_def)
  with l o have f: "map fst ?ys = names" by simp
  with dn have d: "distinct (map fst ?ys)" by simp
  have "map (\<lambda>n. case map_of ?cols n of None \<Rightarrow> [] | Some c \<Rightarrow> c) names =
        map (\<lambda>n. case map_of ?ys n of None \<Rightarrow> [] | Some c \<Rightarrow> c) names"
    by (intro map_cong refl) (simp add: map_of_filter_fst [where P = "\<lambda>x. x \<in> set names"])
  also have "\<dots> = map snd ?ys" using cells_in_column_order [OF d] by (simp only: f)
  finally show ?thesis .
qed

lemma showNat_inj: "showNat a = showNat b \<Longrightarrow> a = b"
proof (induction a arbitrary: b rule: showNat.induct)
  case (1 n)
  have digit: "''0123456789'' ! i = ''0123456789'' ! j \<longleftrightarrow> i = j" if "i < 10" "j < 10" for i j :: nat
  proof -
    have "distinct ''0123456789''" by simp
    then show ?thesis using that by (intro nth_eq_iff_index_eq) simp_all
  qed
  have ne: "showNat m \<noteq> []" for m by (subst showNat.simps) simp
  show ?case
  proof (cases "n < 10")
    case True
    show ?thesis
    proof (cases "b < 10")
      case b: True
      from 1(2) True b have "''0123456789'' ! n = ''0123456789'' ! b"
        by (simp add: showNat.simps [of n] showNat.simps [of b])
      with digit [OF True b] show ?thesis by simp
    next
      case b: False
      from 1(2) True b have "[''0123456789'' ! n] = showNat (b div 10) @ [''0123456789'' ! (b mod 10)]"
        by (simp add: showNat.simps [of n] showNat.simps [of b])
      then have "showNat (b div 10) = []" by (metis append_butlast_last_id butlast_snoc butlast.simps(2) list.distinct(1) self_append_conv2)
      with ne show ?thesis by simp
    qed
  next
    case False
    show ?thesis
    proof (cases "b < 10")
      case b: True
      from 1(2) False b have "showNat (n div 10) @ [''0123456789'' ! (n mod 10)] = [''0123456789'' ! b]"
        by (simp add: showNat.simps [of n] showNat.simps [of b])
      then have "showNat (n div 10) = []" by (metis butlast_snoc butlast.simps(2) list.distinct(1))
      with ne show ?thesis by simp
    next
      case b: False
      from 1(2) False b
      have "showNat (n div 10) @ [''0123456789'' ! (n mod 10)] =
            showNat (b div 10) @ [''0123456789'' ! (b mod 10)]"
        by (simp add: showNat.simps [of n] showNat.simps [of b])
      then have s: "showNat (n div 10) = showNat (b div 10)"
        and dg: "''0123456789'' ! (n mod 10) = ''0123456789'' ! (b mod 10)" by simp_all
      from 1(1) [OF False s] have "n div 10 = b div 10" .
      moreover from dg digit [of "n mod 10" "b mod 10"] have "n mod 10 = b mod 10" by simp
      ultimately show ?thesis by (metis div_mult_mod_eq)
    qed
  qed
qed

lemma distinct_numbered: "distinct (map (\<lambda>k. column @ showNat k) ks) \<longleftrightarrow> distinct ks"
  by (auto simp: distinct_map inj_on_def dest: showNat_inj)

text \<open>
  C5 (as amended).  An item of EXPERIENCE, LEADERSHIP or PROJECTS gets a list of at most
  \<open>NUM_DEDICATED_BULLET_COLUMNS\<close> bullets, each of them non-empty and trimmed.  When
  the row is as wide as the header row, no two named columns are mapped to the same key
  and the columns Responsibility1..N (DescriptionBullet1..N for PROJECTS) are in the
  table, the bullets are the cells of these columns that are not blank, trimmed, in the
  order of the numbers 1..N.  This is the order of the columns in the sheet when the
  numbered columns stand there in the order of their numbers.
\<close>

theorem normalized_bullets:
  assumes "(sec = ''EXPERIENCE'' \<or> sec = ''LEADERSHIP & UNIVERSITY INVOLVEMENT'') \<and>
             column = ''Responsibility'' \<or>
           sec = ''PROJECTS'' \<and> column = ''DescriptionBullet''"
  shows "(\<exists>bullets. itemBullets h sec headers row = Some bullets \<and>
            length bullets \<le> NUM_DEDICATED_BULLET_COLUMNS \<and>
            (\<forall>b \<in> set bullets. b \<noteq> [] \<and> trim b = b)) \<and>
         (length row = length headers \<and>
          distinct (map (jsKeyOf sec) (filter (\<lambda>x. x \<noteq> []) (map trim headers))) \<and>
          set (map (\<lambda>k. column @ showNat k) [1..<Suc NUM_DEDICATED_BULLET_COLUMNS])
            \<subseteq> set (map trim headers) \<longrightarrow>
          itemBullets h sec headers row =
            Some (filter (\<lambda>b. b \<noteq> [])
                    (map (\<lambda>k. trim (case map_of (zip (map trim headers) row) (column @ showNat k) of
                                      None \<Rightarrow> [] | Some c \<Rightarrow> c))
                       [1..<Suc NUM_DEDICATED_BULLET_COLUMNS]))) \<and>
         (length row = length headers \<and>
          distinct (map (jsKeyOf sec) (filter (\<lambda>x. x \<noteq> []) (map trim headers))) \<and>
          filter (\<lambda>x. x \<in> set (map (\<lambda>k. column @ showNat k) [1..<Suc NUM_DEDICATED_BULLET_COLUMNS]))
            (map trim headers) =
            map (\<lambda>k. column @ showNat k) [1..<Suc NUM_DEDICATED_BULLET_COLUMNS] \<longrightarrow>
          itemBullets h sec headers row =
            Some (filter (\<lambda>b. b \<noteq> [])
                    (map (\<lambda>kv. trim (snd kv))
                       (filter (\<lambda>kv. fst kv \<in> set (map (\<lambda>k. column @ showNat k)
                                                        [1..<Suc NUM_DEDICATED_BULLET_COLUMNS]))
                          (zip (map trim headers) row)))))"
proof -
  let ?N = NUM_DEDICATED_BULLET_COLUMNS
  let ?names = "map (\<lambda>k. column @ showNat k) [1..<Suc ?N]"
  let ?cell = "\<lambda>n. case map_of (zip (map trim headers) row) n of None \<Rightarrow> [] | Some c \<Rightarrow> c"
  define prefix where "prefix = (if sec = ''PROJECTS'' then ''descriptionBullet'' else ''responsibility'')"
  from assms have ib: "itemBullets h sec headers row =
      Some (collectBullets prefix (datedItem h sec headers row) 1 ?N)"
    by (auto simp: itemBullets_def prefix_def)
  have key: "jsKeyOf sec (column @ showNat k) = prefix @ showNat k" for k
    using assms jsKeyOf_Responsibility [of sec k] jsKeyOf_DescriptionBullet [of sec k]
    by (auto simp: prefix_def)
  have nodate: "prefix @ s \<notin> {''startDate'', ''endDate'', ''date'', ''issueDate''}" for s
    by (simp add: prefix_def)
  from assms have cne: "column @ s \<noteq> []" for s by auto
  have first: "\<exists>bullets. itemBullets h sec headers row = Some bullets \<and>
            length bullets \<le> ?N \<and> (\<forall>b \<in> set bullets. b \<noteq> [] \<and> trim b = b)"
    using ib collectBullets_length [of prefix "datedItem h sec headers row" 1 ?N]
      collectBullets_elems [of _ prefix "datedItem h sec headers row" 1 ?N]
    by blast
  have numbers: "itemBullets h sec headers row =
      Some (filter (\<lambda>b. b \<noteq> []) (map (\<lambda>k. trim (?cell (column @ showNat k))) [1..<Suc ?N]))"
    if l: "length row = length headers"
      and d: "distinct (map (jsKeyOf sec) (filter (\<lambda>x. x \<noteq> []) (map trim headers)))"
      and p: "set ?names \<subseteq> set (map trim headers)"
  proof -
    have v: "valueOf (datedItem h sec headers row) (prefix @ showNat k) =
             trim (?cell (column @ showNat k))" if "k \<in> set [1..<Suc ?N]" for k
    proof -
      from that p have "column @ showNat k \<in> set (map trim headers)" by auto
      from cell_of_column [OF l d this cne, of h] nodate [of "showNat k"]
      show ?thesis by (simp add: key)
    qed
    have "collectBullets prefix (datedItem h sec headers row) 1 ?N =
        map trim (filter (\<lambda>v. trim v \<noteq> [])
          (map (\<lambda>k. valueOf (datedItem h sec headers row) (prefix @ showNat k)) [1..<Suc ?N]))"
      using collectBullets_eq [of prefix "datedItem h sec headers row" 1 ?N] by simp
    also have "map (\<lambda>k. valueOf (datedItem h sec headers row) (prefix @ showNat k)) [1..<Suc ?N] =
               map (\<lambda>k. trim (?cell (column @ showNat k))) [1..<Suc ?N]"
      using v by (intro map_cong refl)
    finally show ?thesis using ib by (simp only: nonblank_trimmed)
  qed
  have columns: "itemBullets h sec headers row =
      Some (filter (\<lambda>b. b \<noteq> [])
              (map (\<lambda>kv. trim (snd kv))
                 (filter (\<lambda>kv. fst kv \<in> set ?names) (zip (map trim headers) row))))"
    if l: "length row = length headers"
      and d: "distinct (map (jsKeyOf sec) (filter (\<lambda>x. x \<noteq> []) (map trim headers)))"
      and o: "filter (\<lambda>x. x \<in> set ?names) (map trim headers) = ?names"
  proof -
    have "set ?names = set (filter (\<lambda>x. x \<in> set ?names) (map trim headers))"
      by (simp only: o)
    then have p: "set ?names \<subseteq> set (map trim headers)" by auto
    have dn: "distinct ?names" by (simp only: distinct_numbered) simp
    have "map (\<lambda>k. trim (?cell (column @ showNat k))) [1..<Suc ?N] = map trim (map ?cell ?names)"
      by (simp add: comp_def)
    also have "\<dots> = map trim (map snd (filter (\<lambda>kv. fst kv \<in> set ?names) (zip (map trim headers) row)))"
      by (simp only: numbered_columns_in_order [OF l o dn])
    also have "\<dots> = map (\<lambda>kv. trim (snd kv)) (filter (\<lambda>kv. fst kv \<in> set ?names) (zip (map trim headers) row))"
      by (simp add: comp_def)
    finally show ?thesis using numbers [OF l d p] by (simp only:)
  qed
  from first numbers columns show ?thesis by blast
qed

theorem normalized_bullets_witness:
  "itemBullets sample_host ''EXPERIENCE'' sheetHeadersE sheetRowE = Some [''Built X'', ''Led Y''] \<and>
   itemBullets sample_host ''PROJECTS'' sheetHeadersP sheetRowP =
     Some [''Parsed sheets'', ''Wrote docs''] \<and>
   itemBullets sample_host ''EXPERIENCE'' sheetHeadersSwapped sheetRowSwapped =
     Some [''Built X'', ''Led Y''] \<and>
   (\<exists>bullets. itemBullets sample_host ''LEADERSHIP & UNIVERSITY INVOLVEMENT'' sheetHeadersE sheetRowE =
        Some bullets \<and> length bullets \<le> NUM_DEDICATED_BULLET_COLUMNS)"
proof -
  let ?R = "map (\<lambda>k. ''Responsibility'' @ showNat k) [1..<Suc NUM_DEDICATED_BULLET_COLUMNS]"
  let ?D = "map (\<lambda>k. ''DescriptionBullet'' @ showNat k) [1..<Suc NUM_DEDICATED_BULLET_COLUMNS]"
  note E = normalized_bullets [of "''EXPERIENCE''" "''Responsibility''" sample_host
      sheetHeadersE sheetRowE]
  note P = normalized_bullets [of "''PROJECTS''" "''DescriptionBullet''" sample_host
      sheetHeadersP sheetRowP]
  note S = normalized_bullets [of "''EXPERIENCE''" "''Responsibility''" sample_host
      sheetHeadersSwapped sheetRowSwapped]
  note L = normalized_bullets [of "''LEADERSHIP & UNIVERSITY INVOLVEMENT''" "''Responsibility''"
      sample_host sheetHeadersE sheetRowE]
  have e1: "length sheetRowE = length sheetHeadersE \<and>
      distinct (map (jsKeyOf ''EXPERIENCE'') (filter (\<lambda>x. x \<noteq> []) (map trim sheetHeadersE))) \<and>
      filter (\<lambda>x. x \<in> set ?R) (map trim sheetHeadersE) = ?R"
    by code_simp
  have e2: "filter (\<lambda>b. b \<noteq> [])
              (map (\<lambda>kv. trim (snd kv))
                 (filter (\<lambda>kv. fst kv \<in> set ?R) (zip (map trim sheetHeadersE) sheetRowE))) =
            [''Built X'', ''Led Y'']"
    by code_simp
  have p1: "length sheetRowP = length sheetHeadersP \<and>
      distinct (map (jsKeyOf ''PROJECTS'') (filter (\<lambda>x. x \<noteq> []) (map trim sheetHeadersP))) \<and>
      filter (\<lambda>x. x \<in> set ?D) (map trim sheetHeadersP) = ?D"
    by code_simp
  have p2: "filter (\<lambda>b. b \<noteq> [])
              (map (\<lambda>kv. trim (snd kv))
                 (filter (\<lambda>kv. fst kv \<in> set ?D) (zip (map trim sheetHeadersP) sheetRowP))) =
            [''Parsed sheets'', ''Wrote docs'']"
    by code_simp
  have s1: "length sheetRowSwapped = length sheetHeadersSwapped \<and>
      distinct (map (jsKeyOf ''EXPERIENCE'')
                  (filter (\<lambda>x. x \<noteq> []) (map trim sheetHeadersSwapped))) \<and>
      set ?R \<subseteq> set (map trim sheetHeadersSwapped)"
    by code_simp
  have s2: "filter (\<lambda>b. b \<noteq> [])
              (map (\<lambda>k. trim (case map_of (zip (map trim sheetHeadersSwapped) sheetRowSwapped)
                                      (''Responsibility'' @ showNat k) of
                                 None \<Rightarrow> [] | Some c \<Rightarrow> c))
                 [1..<Suc NUM_DEDICATED_BULLET_COLUMNS]) = [''Built X'', ''Led Y'']"
    by code_simp
  from E e1 have "itemBullets sample_host ''EXPERIENCE'' sheetHeadersE sheetRowE =
      Some (filter (\<lambda>b. b \<noteq> [])
              (map (\<lambda>kv. trim (snd kv))
                 (filter (\<lambda>kv. fst kv \<in> set ?R) (zip (map trim sheetHeadersE) sheetRowE))))"
    by simp
  then have a: "itemBullets sample_host ''EXPERIENCE'' sheetHeadersE sheetRowE =
      Some [''Built X'', ''Led Y'']"
    by (simp only: e2)
  from P p1 have "itemBullets sample_host ''PROJECTS'' sheetHeadersP sheetRowP =
      Some (filter (\<lambda>b. b \<noteq> [])
              (map (\<lambda>kv. trim (snd kv))
                 (filter (\<lambda>kv. fst kv \<in> set ?D) (zip (map trim sheetHeadersP) sheetRowP))))"
    by simp
  then have b: "itemBullets sample_host ''PROJECTS'' sheetHeadersP sheetRowP =
      Some [''Parsed sheets'', ''Wrote docs'']"
    by (simp only: p2)
  from S s1 have "itemBullets sample_host ''EXPERIENCE'' sheetHeadersSwapped sheetRowSwapped =
      Some (filter (\<lambda>b. b \<noteq> [])
              (map (\<lambda>k. trim (case map_of (zip (map trim sheetHeadersSwapped) sheetRowSwapped)
                                      (''Responsibility'' @ showNat k) of
                                 None \<Rightarrow> [] | Some c \<Rightarrow> c))
                 [1..<Suc NUM_DEDICATED_BULLET_COLUMNS]))"
    by simp
  then have c: "itemBullets sample_host ''EXPERIENCE'' sheetHeadersSwapped sheetRowSwapped =
      Some [''Built X'', ''Led Y'']"
    by (simp only: s2)
  from L have d: "\<exists>bullets. itemBullets sample_host ''LEADERSHIP & UNIVERSITY INVOLVEMENT''
        sheetHeadersE sheetRowE = Some bullets \<and> length bullets \<le> NUM_DEDICATED_BULLET_COLUMNS"
    by auto
  from a b c d show ?thesis by (intro conjI)
qed

text \<open>
  The claim as stated fails: in a table whose column Responsibility2 stands before
  Responsibility1, the bullets are not in the order of the columns.
\<close>

theorem normalized_bullets_counterexample:
  "itemBullets sample_host ''EXPERIENCE'' sheetHeadersSwapped sheetRowSwapped =
     Some [''Built X'', ''Led Y''] \<and>
   filter (\<lambda>b. b \<noteq> [])
     (map (\<lambda>kv. trim (snd kv))
        (filter (\<lambda>kv. fst kv \<in> {''Responsibility1'', ''Responsibility2'', ''Responsibility3''})
           (zip (map trim sheetHeadersSwapped) sheetRowSwapped))) = [''Led Y'', ''Built X'']"
  by code_simp

end
